(* ===== verification/Prelude.thy ===== *)
theory Prelude
  imports Main "HOL-Library.Word" "HOL-Library.Char_ord" "HOL-Library.List_Lexorder"
begin

section \<open>Prelude: the Rust standard library used by the runtime\<close>

text \<open>
  What the components share: machine integers and their saturating operations, the
  \<open>?\<close> operator on results, the string functions of \<open>str\<close>, and \<open>BTreeMap\<close> as a sorted
  association list.

  A Rust \<open>char\<close> is modelled by the HOL type \<open>char\<close>, that is, strings range over the code
  points U+0000 to U+00FF (Latin-1); on these \<open>char::is_whitespace\<close> is exact.
\<close>

subsection \<open>Automation collections\<close>

named_theorems res_simps \<open>unfolding of the result and state-passing combinators\<close>
named_theorems sat_simps \<open>values of the saturating operations as natural numbers\<close>

subsection \<open>Machine integers\<close>

type_synonym u64 = "64 word"
type_synonym u32 = "32 word"

definition u64_max :: nat where
  "u64_max = 2 ^ 64 - 1"

definition i64_max :: int where
  "i64_max = 2 ^ 63 - 1"

text \<open>\<open>u64::saturating_add\<close>, \<open>saturating_sub\<close> and \<open>saturating_mul\<close>.\<close>

definition sat_add :: "u64 \<Rightarrow> u64 \<Rightarrow> u64" where
  "sat_add a b = (if unat a + unat b \<le> u64_max then a + b else - 1)"

definition sat_sub :: "u64 \<Rightarrow> u64 \<Rightarrow> u64" where
  "sat_sub a b = (if a < b then 0 else a - b)"

definition sat_mul :: "u64 \<Rightarrow> u64 \<Rightarrow> u64" where
  "sat_mul a b = (if unat a * unat b \<le> u64_max then a * b else - 1)"

subsection \<open>Options and results\<close>

text \<open>\<open>Option::unwrap_or\<close>.\<close>

definition unwrap_or :: "'a option \<Rightarrow> 'a \<Rightarrow> 'a" where
  "unwrap_or x d = (case x of None \<Rightarrow> d | Some v \<Rightarrow> v)"

text \<open>\<open>Option::is_some_and\<close>.\<close>

definition is_some_and :: "'a option \<Rightarrow> ('a \<Rightarrow> bool) \<Rightarrow> bool" where
  "is_some_and x p = (case x of None \<Rightarrow> False | Some v \<Rightarrow> p v)"

text \<open>\<open>Option::or\<close>.\<close>

definition option_or :: "'a option \<Rightarrow> 'a option \<Rightarrow> 'a option" where
  "option_or x y = (case x of None \<Rightarrow> y | Some v \<Rightarrow> Some v)"

text \<open>
  A \<open>Result\<close> is a sum with the error on the left. \<open>res_bind\<close> is the \<open>?\<close> operator in a
  function without side effects, \<open>and_then\<close> the same in a function that also updates a
  state: effects that happened before the error remain.
\<close>

definition res_bind :: "'e + 'a \<Rightarrow> ('a \<Rightarrow> 'e + 'b) \<Rightarrow> 'e + 'b" where
  "res_bind m k = (case m of Inl e \<Rightarrow> Inl e | Inr a \<Rightarrow> k a)"

definition and_then :: "'s \<times> ('e + 'a) \<Rightarrow> ('s \<Rightarrow> 'a \<Rightarrow> 's \<times> ('e + 'b)) \<Rightarrow> 's \<times> ('e + 'b)" where
  "and_then m k = (case m of (s, Inl e) \<Rightarrow> (s, Inl e) | (s, Inr a) \<Rightarrow> k s a)"

text \<open>\<open>ensure b e\<close> is \<open>if !b { return Err(e) }\<close>.\<close>

definition ensure :: "bool \<Rightarrow> 'e \<Rightarrow> 'e + unit" where
  "ensure b e = (if b then Inr () else Inl e)"

text \<open>Collecting an iterator of results: the first error wins.\<close>

fun map_res :: "('a \<Rightarrow> 'e + 'b) \<Rightarrow> 'a list \<Rightarrow> 'e + 'b list" where
  "map_res f [] = Inr []"
| "map_res f (x # xs) = res_bind (f x) (\<lambda>y. res_bind (map_res f xs) (\<lambda>ys. Inr (y # ys)))"

text \<open>\<open>Option::map(f).transpose()\<close> for a fallible \<open>f\<close>.\<close>

definition option_res :: "('a \<Rightarrow> 'e + 'b) \<Rightarrow> 'a option \<Rightarrow> 'e + 'b option" where
  "option_res f x = (case x of None \<Rightarrow> Inr None | Some v \<Rightarrow> res_bind (f v) (\<lambda>y. Inr (Some y)))"

text \<open>\<open>Option::ok_or\<close>.\<close>

definition ok_or :: "'a option \<Rightarrow> 'e \<Rightarrow> 'e + 'a" where
  "ok_or x e = (case x of None \<Rightarrow> Inl e | Some v \<Rightarrow> Inr v)"

definition is_ok :: "'e + 'a \<Rightarrow> bool" where
  "is_ok m = (case m of Inl _ \<Rightarrow> False | Inr _ \<Rightarrow> True)"

subsection \<open>Strings\<close>

definition is_whitespace :: "char \<Rightarrow> bool" where
  "is_whitespace c = (let n = (of_char c :: nat) in (9 \<le> n \<and> n \<le> 13) \<or> n = 32 \<or> n = 133 \<or> n = 160)"

definition is_ascii_digit :: "char \<Rightarrow> bool" where
  "is_ascii_digit c = (let n = (of_char c :: nat) in 48 \<le> n \<and> n \<le> 57)"

definition is_ascii_alphanumeric :: "char \<Rightarrow> bool" where
  "is_ascii_alphanumeric c =
     (let n = (of_char c :: nat)
      in is_ascii_digit c \<or> (65 \<le> n \<and> n \<le> 90) \<or> (97 \<le> n \<and> n \<le> 122))"

definition trim_start :: "string \<Rightarrow> string" where
  "trim_start s = dropWhile is_whitespace s"

definition trim_end :: "string \<Rightarrow> string" where
  "trim_end s = rev (dropWhile is_whitespace (rev s))"

definition trim :: "string \<Rightarrow> string" where
  "trim s = trim_end (trim_start s)"

text \<open>\<open>str::trim_end_matches\<close> for a single character.\<close>

definition trim_end_matches :: "char \<Rightarrow> string \<Rightarrow> string" where
  "trim_end_matches c s = rev (dropWhile (\<lambda>x. x = c) (rev s))"

text \<open>\<open>str::split_once\<close> and \<open>str::split\<close> for a single character.\<close>

fun split_once :: "char \<Rightarrow> string \<Rightarrow> (string \<times> string) option" where
  "split_once d [] = None"
| "split_once d (c # cs) =
     (if c = d then Some ([], cs)
      else (case split_once d cs of None \<Rightarrow> None | Some (a, b) \<Rightarrow> Some (c # a, b)))"

fun split_on :: "char \<Rightarrow> string \<Rightarrow> string list" where
  "split_on d [] = [[]]"
| "split_on d (c # cs) =
     (if c = d then [] # split_on d cs
      else (case split_on d cs of [] \<Rightarrow> [[c]] | p # ps \<Rightarrow> (c # p) # ps))"

text \<open>\<open>str::contains\<close> for a character and for a substring.\<close>

definition contains_char :: "char \<Rightarrow> string \<Rightarrow> bool" where
  "contains_char c s = (c \<in> set s)"

fun contains_str :: "string \<Rightarrow> string \<Rightarrow> bool" where
  "contains_str p [] = (p = [])"
| "contains_str p (c # cs) = (take (length p) (c # cs) = p \<or> contains_str p cs)"

text \<open>A text between single quotation marks, as in the messages of \<open>format!\<close>.\<close>

definition quoted :: "string \<Rightarrow> string" where
  "quoted s = CHR 0x27 # s @ [CHR 0x27]"

text \<open>\<open>u64::to_string\<close> and \<open>i32::to_string\<close>.\<close>

definition digit_char :: "nat \<Rightarrow> char" where
  "digit_char n = char_of (48 + n)"

fun show_nat :: "nat \<Rightarrow> string" where
  "show_nat n = (if n < 10 then [digit_char n] else show_nat (n div 10) @ [digit_char (n mod 10)])"

declare show_nat.simps [simp del]

definition show_u64 :: "u64 \<Rightarrow> string" where
  "show_u64 w = show_nat (unat w)"

definition show_int :: "int \<Rightarrow> string" where
  "show_int i = (if i < 0 then ''-'' @ show_nat (nat (- i)) else show_nat (nat i))"

text \<open>
  \<open>str::parse::<u64>\<close>: an optional leading plus sign, at least one digit, digits only, and an
  error as soon as the accumulated value leaves the type.
\<close>

fun parse_digits :: "nat \<Rightarrow> string \<Rightarrow> nat option" where
  "parse_digits acc [] = Some acc"
| "parse_digits acc (c # cs) =
     (if \<not> is_ascii_digit c then None
      else (let v = acc * 10 + (of_char c - 48)
            in if v \<le> u64_max then parse_digits v cs else None))"

definition parse_u64 :: "string \<Rightarrow> u64 option" where
  "parse_u64 s =
     (let ds = (case s of [] \<Rightarrow> [] | c # r \<Rightarrow> if c = CHR ''+'' \<and> r \<noteq> [] then r else s)
      in if ds = [] then None else map_option of_nat (parse_digits 0 ds))"

subsection \<open>BTreeMap\<close>

text \<open>
  A \<open>BTreeMap\<close> is an association list sorted by key, without duplicate keys, so that
  iterating over it gives the key order the code relies on. \<open>map_of\<close> is \<open>get\<close>.
\<close>

type_synonym 'v btree = "(string \<times> 'v) list"

fun bt_insert :: "'k::linorder \<Rightarrow> 'v \<Rightarrow> ('k \<times> 'v) list \<Rightarrow> ('k \<times> 'v) list" where
  "bt_insert k v [] = [(k, v)]"
| "bt_insert k v ((k', v') # m) =
     (if k < k' then (k, v) # (k', v') # m
      else if k = k' then (k, v) # m
      else (k', v') # bt_insert k v m)"

definition bt_invar :: "('k::linorder \<times> 'v) list \<Rightarrow> bool" where
  "bt_invar m = (sorted (map fst m) \<and> distinct (map fst m))"

text \<open>\<open>*map.entry(k).or_insert(d) = f(old)\<close>: the entry API as the code uses it.\<close>

definition bt_entry :: "'k::linorder \<Rightarrow> 'v \<Rightarrow> ('v \<Rightarrow> 'v) \<Rightarrow> ('k \<times> 'v) list \<Rightarrow> ('k \<times> 'v) list" where
  "bt_entry k d f m = bt_insert k (f (unwrap_or (map_of m k) d)) m"

subsection \<open>Lemmas on results\<close>

lemma unwrap_or_simps [simp]: "unwrap_or None d = d" "unwrap_or (Some v) d = v"
  by (simp_all add: unwrap_or_def)

lemma is_some_and_simps [simp]: "\<not> is_some_and None p" "is_some_and (Some v) p = p v"
  by (simp_all add: is_some_and_def)

lemma option_or_simps [simp]: "option_or None y = y" "option_or (Some v) y = Some v"
  by (simp_all add: option_or_def)

lemma res_bind_simps [simp, res_simps]:
  "res_bind (Inl e) k = Inl e" "res_bind (Inr a) k = k a"
  by (simp_all add: res_bind_def)

lemma res_bind_eq_Inr: "res_bind m k = Inr b \<longleftrightarrow> (\<exists>a. m = Inr a \<and> k a = Inr b)"
  by (cases m) auto

lemma res_bind_eq_Inl: "res_bind m k = Inl e \<longleftrightarrow> m = Inl e \<or> (\<exists>a. m = Inr a \<and> k a = Inl e)"
  by (cases m) auto

lemma and_then_simps [simp, res_simps]:
  "and_then (s, Inl e) k = (s, Inl e)" "and_then (s, Inr a) k = k s a"
  by (simp_all add: and_then_def)

lemma fst_and_then: "fst (and_then m k) = (case snd m of Inl _ \<Rightarrow> fst m | Inr a \<Rightarrow> fst (k (fst m) a))"
  by (cases m; cases "snd m") simp_all

lemma snd_and_then: "snd (and_then m k) = (case snd m of Inl e \<Rightarrow> Inl e | Inr a \<Rightarrow> snd (k (fst m) a))"
  by (cases m; cases "snd m") simp_all

lemma and_then_eq_Inr:
  "and_then m k = (s', Inr b) \<longleftrightarrow> (\<exists>s a. m = (s, Inr a) \<and> k s a = (s', Inr b))"
  by (cases m, cases "snd m") (auto simp: and_then_def)

lemma ensure_simps [simp, res_simps]: "ensure True e = Inr ()" "ensure False e = Inl e"
  by (simp_all add: ensure_def)

lemma ensure_eq_Inr [simp]: "ensure b e = Inr u \<longleftrightarrow> b"
  by (simp add: ensure_def)

lemma ensure_eq_Inl [simp]: "ensure b e = Inl e' \<longleftrightarrow> \<not> b \<and> e' = e"
  by (auto simp: ensure_def)

lemma ok_or_simps [simp]: "ok_or None e = Inl e" "ok_or (Some v) e = Inr v"
  by (simp_all add: ok_or_def)

lemma is_ok_simps [simp]: "\<not> is_ok (Inl e)" "is_ok (Inr a)"
  by (simp_all add: is_ok_def)

lemma is_ok_conv: "is_ok m \<longleftrightarrow> (\<exists>a. m = Inr a)"
  by (cases m) auto

lemma option_res_simps [simp]:
  "option_res f None = Inr None"
  "option_res f (Some v) = res_bind (f v) (\<lambda>y. Inr (Some y))"
  by (simp_all add: option_res_def)

lemma map_res_Inr:
  assumes "\<And>x. x \<in> set xs \<Longrightarrow> f x = Inr (g x)"
  shows "map_res f xs = Inr (map g xs)"
  using assms by (induction xs) auto

lemma map_res_eq_Inr_iff: "map_res f xs = Inr ys \<longleftrightarrow> list_all2 (\<lambda>x y. f x = Inr y) xs ys"
  by (induction xs arbitrary: ys) (auto simp: res_bind_eq_Inr list_all2_Cons1)

subsection \<open>Lemmas on saturating arithmetic\<close>

lemma unat_le_u64_max [simp]: "unat (a :: u64) \<le> u64_max"
  using unsigned_less [where 'a = nat, of a] by (simp add: u64_max_def)

lemma unat_minus_one_u64: "unat (- 1 :: u64) = u64_max"
  by (simp add: u64_max_def unsigned_minus_1_eq_mask mask_eq_exp_minus_1)

text \<open>The same comparisons on integers, whose numerals evaluate in binary.\<close>

lemma le_u64_max_int: "n \<le> u64_max \<longleftrightarrow> int n < 18446744073709551616"
proof -
  have "u64_max = 18446744073709551615" by (simp add: u64_max_def)
  then show ?thesis by linarith
qed

lemma sum_le_u64_max: "unat (a :: u64) + unat (b :: u64) \<le> u64_max \<longleftrightarrow> uint a + uint b < 18446744073709551616"
  unfolding le_u64_max_int uint_nat of_nat_add ..

lemma prod_le_u64_max: "unat (a :: u64) * unat (b :: u64) \<le> u64_max \<longleftrightarrow> uint a * uint b < 18446744073709551616"
  unfolding le_u64_max_int uint_nat of_nat_mult ..

lemma sat_add_code [code]: "sat_add a b = (if uint a + uint b < 18446744073709551616 then a + b else - 1)"
  unfolding sat_add_def sum_le_u64_max ..

lemma sat_mul_code [code]: "sat_mul a b = (if uint a * uint b < 18446744073709551616 then a * b else - 1)"
  unfolding sat_mul_def prod_le_u64_max ..

lemma unat_sat_add [sat_simps]: "unat (sat_add a b) = min (unat a + unat b) u64_max"
proof (cases "unat a + unat b \<le> u64_max")
  case True
  then have "unat a + unat b < 2 ^ 64" by (simp add: u64_max_def)
  then have "unat (a + b) = unat a + unat b"
    by (subst unat_add_lem [THEN iffD1]) simp_all
  with True show ?thesis by (simp add: sat_add_def)
next
  case False
  then show ?thesis by (simp add: sat_add_def unat_minus_one_u64)
qed

lemma unat_sat_sub [sat_simps]: "unat (sat_sub a b) = unat a - unat b"
proof (cases "a < b")
  case True
  then show ?thesis by (simp add: sat_sub_def word_less_nat_alt)
next
  case False
  then show ?thesis by (simp add: sat_sub_def unat_sub word_less_nat_alt word_le_nat_alt)
qed

lemma unat_sat_mul [sat_simps]: "unat (sat_mul a b) = min (unat a * unat b) u64_max"
proof (cases "unat a * unat b \<le> u64_max")
  case True
  then have "unat a * unat b < 2 ^ 64" by (simp add: u64_max_def)
  then have "unat (a * b) = unat a * unat b"
    by (subst unat_mult_lem [THEN iffD1]) simp_all
  with True show ?thesis by (simp add: sat_mul_def)
next
  case False
  then show ?thesis by (simp add: sat_mul_def unat_minus_one_u64)
qed

lemma sat_add_zero [simp]: "sat_add 0 a = a" "sat_add a 0 = a"
  by (simp_all add: sat_add_def)

lemma sat_sub_self [simp]: "sat_sub a a = 0" "sat_sub a 0 = a" "sat_sub 0 a = 0"
  by (auto simp: sat_sub_def word_gt_0)

lemma sat_add_comm: "sat_add a b = sat_add b a"
  by (simp add: sat_add_def add.commute)

lemma sat_add_assoc: "sat_add (sat_add a b) c = sat_add a (sat_add b c)"
  by (rule word_unat_eq_iff [THEN iffD2]) (auto simp: sat_simps min_def)

lemma sat_add_le: "a \<le> sat_add a b"
  by (simp add: word_le_nat_alt sat_simps)

lemma sat_sub_add_cancel:
  assumes "unat a + unat b \<le> u64_max"
  shows "sat_sub (sat_add a b) b = a"
  using assms by (intro word_unat_eq_iff [THEN iffD2]) (simp add: sat_simps)

subsection \<open>Lemmas on strings\<close>

lemma split_once_append: "d \<notin> set a \<Longrightarrow> split_once d (a @ d # b) = Some (a, b)"
  by (induction a) auto

lemma split_once_Some: "split_once d s = Some (a, b) \<Longrightarrow> s = a @ d # b \<and> d \<notin> set a"
  by (induction s arbitrary: a) (auto split: if_splits option.splits)

lemma split_on_none: "d \<notin> set s \<Longrightarrow> split_on d s = [s]"
  by (induction s) auto

lemma split_on_append: "d \<notin> set a \<Longrightarrow> split_on d (a @ d # b) = a # split_on d b"
  by (induction a) auto

lemma dropWhile_id: "(\<forall>c. c = hd s \<and> s \<noteq> [] \<longrightarrow> \<not> P c) \<Longrightarrow> dropWhile P s = s"
  by (cases s) auto

lemma trim_id:
  assumes "\<forall>c \<in> set s. \<not> is_whitespace c"
  shows "trim s = s"
proof -
  have "dropWhile is_whitespace s = s"
    using assms by (cases s) auto
  moreover have "dropWhile is_whitespace (rev s) = rev s"
    using assms by (cases "rev s") (auto simp: rev_eq_Cons_iff)
  ultimately show ?thesis by (simp add: trim_def trim_start_def trim_end_def)
qed

lemma trim_Nil [simp]: "trim [] = []"
  by (simp add: trim_def trim_start_def trim_end_def)

lemma of_char_digit_char: "n < 10 \<Longrightarrow> of_char (digit_char n) = 48 + n"
  by (simp add: digit_char_def)

lemma is_ascii_digit_digit_char: "n < 10 \<Longrightarrow> is_ascii_digit (digit_char n)"
  by (simp add: is_ascii_digit_def of_char_digit_char)

lemma show_nat_digits: "c \<in> set (show_nat n) \<Longrightarrow> is_ascii_digit c"
proof (induction n rule: show_nat.induct)
  case (1 n)
  then show ?case
    by (subst (asm) (2) show_nat.simps) (auto simp: is_ascii_digit_digit_char split: if_splits)
qed

lemma show_nat_nonempty: "show_nat n \<noteq> []"
  by (subst show_nat.simps) simp

lemma digit_not_whitespace: "is_ascii_digit c \<Longrightarrow> \<not> is_whitespace c"
  by (auto simp: is_ascii_digit_def is_whitespace_def Let_def)

lemma trim_show_nat: "trim (show_nat n) = show_nat n"
  by (intro trim_id ballI digit_not_whitespace show_nat_digits)

lemma parse_digits_append:
  "parse_digits acc (xs @ ys) =
     (case parse_digits acc xs of None \<Rightarrow> None | Some v \<Rightarrow> parse_digits v ys)"
  by (induction xs arbitrary: acc) (auto simp: Let_def)

lemma parse_digits_show_nat: "n \<le> u64_max \<Longrightarrow> parse_digits 0 (show_nat n) = Some n"
proof (induction n rule: show_nat.induct)
  case (1 n)
  have digit: "is_ascii_digit (digit_char (n mod 10))" "of_char (digit_char (n mod 10)) = 48 + n mod 10"
    by (simp_all add: is_ascii_digit_digit_char of_char_digit_char)
  show ?case
  proof (cases "n < 10")
    case True
    with 1 show ?thesis
      by (subst show_nat.simps) (simp add: is_ascii_digit_digit_char of_char_digit_char)
  next
    case False
    with 1 have "parse_digits 0 (show_nat (n div 10)) = Some (n div 10)"
      by (auto intro: le_trans [OF div_le_dividend])
    with False 1 digit show ?thesis
      by (subst show_nat.simps) (simp add: parse_digits_append)
  qed
qed

lemma parse_show_u64: "parse_u64 (show_u64 w) = Some w"
proof -
  obtain c r where cr: "show_nat (unat w) = c # r"
    using show_nat_nonempty by (cases "show_nat (unat w)") auto
  have "is_ascii_digit c"
    using show_nat_digits [of c "unat w"] cr by simp
  then have "c \<noteq> CHR ''+''"
    by (auto simp: is_ascii_digit_def)
  with cr have "parse_u64 (show_u64 w) = map_option of_nat (parse_digits 0 (show_nat (unat w)))"
    by (simp add: parse_u64_def show_u64_def)
  then show ?thesis by (simp add: parse_digits_show_nat)
qed

subsection \<open>Lemmas on BTreeMap\<close>

lemma map_of_bt_insert: "map_of (bt_insert k v m) = (map_of m)(k \<mapsto> v)"
  by (induction k v m rule: bt_insert.induct) (auto simp: fun_eq_iff)

lemma keys_bt_insert: "fst ` set (bt_insert k v m) = insert k (fst ` set m)"
  by (induction k v m rule: bt_insert.induct) auto

lemma bt_invar_insert: "bt_invar m \<Longrightarrow> bt_invar (bt_insert k v m)"
proof (induction k v m rule: bt_insert.induct)
  case (1 k v)
  then show ?case by (simp add: bt_invar_def)
next
  case (2 k v k' v' m)
  then have "bt_invar m" by (simp add: bt_invar_def)
  with 2 show ?case
    using keys_bt_insert [of k v m] by (auto simp: bt_invar_def image_iff)
qed

lemma bt_invar_Nil: "bt_invar []"
  by (simp add: bt_invar_def)

subsection \<open>The map interface\<close>

text \<open>
  What the clients of a \<open>BTreeMap\<close> rely on: the lookup laws, and that every operation keeps
  the representation invariant. The lemmas on aggregation are proved once from them.
\<close>

locale map_adt =
  fixes empty :: "'m"
    and put :: "'k \<Rightarrow> 'v \<Rightarrow> 'm \<Rightarrow> 'm"
    and get :: "'m \<Rightarrow> 'k \<Rightarrow> 'v option"
    and invar :: "'m \<Rightarrow> bool"
  assumes get_empty: "get empty k = None"
    and get_put: "get (put k v m) k' = (if k' = k then Some v else get m k')"
    and invar_empty: "invar empty"
    and invar_put: "invar m \<Longrightarrow> invar (put k v m)"
begin

definition entry :: "'k \<Rightarrow> 'v \<Rightarrow> ('v \<Rightarrow> 'v) \<Rightarrow> 'm \<Rightarrow> 'm" where
  "entry k d f m = put k (f (unwrap_or (get m k) d)) m"

lemma get_entry:
  "get (entry k d f m) k' = (if k' = k then Some (f (unwrap_or (get m k) d)) else get m k')"
  by (simp add: entry_def get_put)

lemma invar_entry: "invar m \<Longrightarrow> invar (entry k d f m)"
  by (simp add: entry_def invar_put)

text \<open>
  Folding \<open>entry\<close> over keyed items accumulates, under each key, exactly the items of that key,
  in order.
\<close>

lemma get_fold_entry:
  "get (fold (\<lambda>(k, x). entry k (d k) (f x)) kxs m) k' =
     (let xs = map snd (filter (\<lambda>(k, x). k = k') kxs)
      in if xs = [] then get m k'
         else Some (fold f xs (unwrap_or (get m k') (d k'))))"
proof (induction kxs arbitrary: m)
  case Nil
  then show ?case by simp
next
  case (Cons kx kxs)
  obtain k x where kx: "kx = (k, x)" by (cases kx)
  show ?case
  proof (cases "k = k'")
    case True
    then show ?thesis
      unfolding kx by (simp add: Cons.IH get_entry Let_def)
  next
    case False
    then show ?thesis
      unfolding kx by (simp add: Cons.IH get_entry)
  qed
qed

lemma invar_fold_entry: "invar m \<Longrightarrow> invar (fold (\<lambda>(k, x). entry k (d k) (f x)) kxs m)"
  by (induction kxs arbitrary: m) (auto intro: invar_entry)

end

interpretation bt: map_adt "[] :: (string \<times> 'v) list" bt_insert map_of bt_invar
  by unfold_locales (auto simp: map_of_bt_insert bt_invar_Nil intro: bt_invar_insert)

lemma bt_entry_eq: "bt.entry k d f m = bt_entry k d f m"
  by (simp add: bt.entry_def bt_entry_def)

end
