(* ===== verification/Errors.thy ===== *)
theory Errors
  imports Prelude
begin

section \<open>Errors: \<open>src/error.rs\<close> and the error codes of \<open>src/types.rs\<close>\<close>

text \<open>
  The stable error codes, the internal error enumeration, its mapping to codes, to HTTP
  status codes and to messages. The errors that wrap an error of another crate (\<open>Io\<close>,
  \<open>Sqlite\<close>, \<open>Json\<close>, \<open>Http\<close>) carry a text that describes it.
\<close>

datatype ErrorCode =
    EcInvalidInput
  | EcLaunchFailed
  | EcTimeout
  | EcCancelled
  | EcMemoryLimitExceeded
  | EcCpuLimitExceeded
  | EcResourceLimitExceeded
  | EcSandboxSetupFailed
  | EcExitNonZero
  | EcUnsupportedCapability
  | EcInsufficientResources
  | EcNotFound
  | EcConflict
  | EcPermissionDenied
  | EcInternal

datatype AppError =
    InvalidInput string
  | NotFound string
  | QueueFull
  | Conflict string
  | LaunchFailed string
  | SandboxSetup string
  | UnsupportedCapability string
  | InsufficientResources string
  | PermissionDenied string
  | Io string
  | Sqlite string
  | Json string
  | Http string
  | Internal string

text \<open>\<open>AppResult<T>\<close>.\<close>

type_synonym 'a app_result = "AppError + 'a"

text \<open>\<open>AppError::code\<close>.\<close>

fun error_code :: "AppError \<Rightarrow> ErrorCode" where
  "error_code (InvalidInput _) = EcInvalidInput"
| "error_code (NotFound _) = EcNotFound"
| "error_code QueueFull = EcResourceLimitExceeded"
| "error_code (Conflict _) = EcConflict"
| "error_code (LaunchFailed _) = EcLaunchFailed"
| "error_code (SandboxSetup _) = EcSandboxSetupFailed"
| "error_code (UnsupportedCapability _) = EcUnsupportedCapability"
| "error_code (InsufficientResources _) = EcInsufficientResources"
| "error_code (PermissionDenied _) = EcPermissionDenied"
| "error_code (Io _) = EcInternal"
| "error_code (Sqlite _) = EcInternal"
| "error_code (Json _) = EcInternal"
| "error_code (Http _) = EcInternal"
| "error_code (Internal _) = EcInternal"

text \<open>\<open>AppError::status_code\<close>; \<open>StatusCode\<close> constants by their numbers.\<close>

fun status_code :: "AppError \<Rightarrow> nat" where
  "status_code (InvalidInput _) = 400"
| "status_code (NotFound _) = 404"
| "status_code QueueFull = 429"
| "status_code (Conflict _) = 409"
| "status_code (LaunchFailed _) = 400"
| "status_code (SandboxSetup _) = 400"
| "status_code (UnsupportedCapability _) = 400"
| "status_code (InsufficientResources _) = 400"
| "status_code (PermissionDenied _) = 403"
| "status_code (Io _) = 500"
| "status_code (Sqlite _) = 500"
| "status_code (Json _) = 500"
| "status_code (Http _) = 500"
| "status_code (Internal _) = 500"

text \<open>The \<open>Display\<close> implementation derived from the \<open>#[error(...)]\<close> attributes.\<close>

fun display_error :: "AppError \<Rightarrow> string" where
  "display_error (InvalidInput m) = ''invalid input: '' @ m"
| "display_error (NotFound m) = ''task not found: '' @ m"
| "display_error QueueFull = ''queue is full''"
| "display_error (Conflict m) = ''task is already terminal: '' @ m"
| "display_error (LaunchFailed m) = ''launch failed: '' @ m"
| "display_error (SandboxSetup m) = ''sandbox setup failed: '' @ m"
| "display_error (UnsupportedCapability m) = ''unsupported capability: '' @ m"
| "display_error (InsufficientResources m) = ''insufficient resources: '' @ m"
| "display_error (PermissionDenied m) = ''permission denied: '' @ m"
| "display_error (Io m) = ''io error: '' @ m"
| "display_error (Sqlite m) = ''sqlite error: '' @ m"
| "display_error (Json m) = ''json error: '' @ m"
| "display_error (Http m) = ''http error: '' @ m"
| "display_error (Internal m) = ''internal error: '' @ m"

subsection \<open>Lemmas\<close>

text \<open>The HTTP status is determined by the class of the error code.\<close>

definition http_class :: "ErrorCode \<Rightarrow> nat" where
  "http_class c =
     (case c of EcNotFound \<Rightarrow> 404 | EcResourceLimitExceeded \<Rightarrow> 429 | EcConflict \<Rightarrow> 409
      | EcPermissionDenied \<Rightarrow> 403 | EcInternal \<Rightarrow> 500 | _ \<Rightarrow> 400)"

lemma status_code_http_class: "status_code e = http_class (error_code e)"
  by (cases e) (simp_all add: http_class_def)

lemma status_code_range: "status_code e \<in> {400, 403, 404, 409, 429, 500}"
  by (cases e) simp_all

lemma internal_error_iff:
  "status_code e = 500 \<longleftrightarrow> error_code e = EcInternal"
  by (cases e) simp_all

end
