(* ===== verification/Types.thy ===== *)
theory Types
  imports Errors
begin

section \<open>Types: \<open>src/types.rs\<close>\<close>

text \<open>
  The API and persistence types with their validation. A \<open>HashMap\<close> is an association list
  with distinct keys (its iteration order is not used by any result), a \<open>DateTime<Utc>\<close> is its
  number of milliseconds, a \<open>Path\<close> is its text.
\<close>

subsection \<open>Enumerations\<close>

datatype TaskStatus = Accepted | Running | Success | Failed | Cancelled

definition is_terminal :: "TaskStatus \<Rightarrow> bool" where
  "is_terminal s = (case s of Success \<Rightarrow> True | Failed \<Rightarrow> True | Cancelled \<Rightarrow> True | _ \<Rightarrow> False)"

datatype EventType =
    EvSubmitted
  | EvAccepted
  | EvPlanned
  | EvDegraded
  | EvResourceReserved
  | EvResourceReleased
  | EvStarted
  | EvKillRequested
  | EvTimeoutTriggered
  | EvFinished
  | EvFailed
  | EvCancelled
  | EvRecovered

datatype ExecutionKind = Command | Script

datatype CapabilityMode = Adaptive | Strict

datatype SandboxProfile = Process | LinuxSandbox

subsection \<open>Requests\<close>

type_synonym string_map = "(string \<times> string) list"

record ExecutionSpec =
  es_kind :: ExecutionKind
  es_program :: "string option"
  es_args :: "string list"
  es_script :: "string option"
  es_interpreter :: "string list option"
  es_env :: string_map

record TaskPolicy =
  tp_capability_mode :: CapabilityMode

record ControlContext =
  cc_control_plane_mode :: "string option"
  cc_tenant :: "string option"
  cc_owner :: "string option"
  cc_expected_runtime_profile :: "string option"
  cc_requires_strict_sandbox :: bool
  cc_requires_resource_reservation :: bool
  cc_labels :: string_map

record NamespaceConfig =
  ns_mount :: bool
  ns_pid :: bool
  ns_uts :: bool
  ns_ipc :: bool
  ns_net :: bool

record SandboxPolicy =
  sb_profile :: SandboxProfile
  sb_workspace_subdir :: "string option"
  sb_rootfs :: "string option"
  sb_chroot :: bool
  sb_namespaces :: "NamespaceConfig option"

record ResourceLimits =
  rl_wall_time_ms :: u64
  rl_cpu_time_sec :: "u64 option"
  rl_memory_bytes :: "u64 option"
  rl_pids_max :: "u64 option"
  rl_stdout_max_bytes :: u64
  rl_stderr_max_bytes :: u64

record SubmitTaskRequest =
  rq_task_id :: "string option"
  rq_execution :: ExecutionSpec
  rq_limits :: ResourceLimits
  rq_sandbox :: SandboxPolicy
  rq_policy :: "TaskPolicy option"
  rq_control_context :: "ControlContext option"
  rq_metadata :: string_map

subsection \<open>Plans, reservations, usage\<close>

record ResourceEnforcementPlan =
  ep_wall_time_ms :: u64
  ep_cpu_time_sec :: "u64 option"
  ep_cpu_time_enforced :: bool
  ep_memory_bytes :: "u64 option"
  ep_memory_enforced :: bool
  ep_pids_max :: "u64 option"
  ep_pids_enforced :: bool
  ep_cgroup_enforced :: bool
  ep_oom_detection :: bool

record ExecutionPlan =
  pl_capability_mode :: CapabilityMode
  pl_requested_sandbox :: SandboxPolicy
  pl_effective_sandbox :: SandboxPolicy
  pl_resource_enforcement :: ResourceEnforcementPlan
  pl_degraded :: bool
  pl_fallback_reasons :: "string list"
  pl_capability_warnings :: "string list"

record ResourceCapacity =
  rc_task_slots :: u64
  rc_memory_bytes :: "u64 option"
  rc_pids :: "u64 option"

record TaskResourceReservation =
  rv_task_slots :: u64
  rv_memory_bytes :: "u64 option"
  rv_pids :: "u64 option"

record ResourceUsage =
  us_duration_ms :: u64
  us_user_cpu_ms :: "u64 option"
  us_system_cpu_ms :: "u64 option"
  us_max_rss_bytes :: "u64 option"
  us_memory_peak_bytes :: "u64 option"

text \<open>
  \<open>serde_json::Value\<close>: one constructor for each JSON document the code builds, with the values
  it is built from; \<open>RuntimeErrorInfo\<close> may carry such a document.
\<close>

datatype json_value =
    JPlan ExecutionPlan
  | JDegraded "string list" SandboxPolicy
  | JReservation TaskResourceReservation
  | JCancelResult string TaskStatus int RuntimeErrorInfo
and RuntimeErrorInfo =
    RuntimeErrorInfo (er_code: ErrorCode) (er_message: string) (er_details: "json_value option")

text \<open>\<open>AppError::as_runtime_error\<close> of \<open>src/error.rs\<close>.\<close>

definition as_runtime_error :: "AppError \<Rightarrow> RuntimeErrorInfo" where
  "as_runtime_error e = RuntimeErrorInfo (error_code e) (display_error e) None"

subsection \<open>Capabilities\<close>

record RuntimePlatform =
  pf_os :: string
  pf_arch :: string
  pf_containerized :: bool
  pf_kubernetes :: bool

record ExecutionCapabilities =
  xc_command :: bool
  xc_script :: bool
  xc_process_group :: bool

record NamespaceCapabilities =
  nc_mount :: bool
  nc_pid :: bool
  nc_uts :: bool
  nc_ipc :: bool
  nc_net :: bool

record SandboxCapabilities =
  sc_process :: bool
  sc_linux_sandbox :: bool
  sc_chroot :: bool
  sc_namespaces :: NamespaceCapabilities

record StorageCapabilities =
  st_data_dir_writable :: bool

record ResourceCapabilities =
  rs_rlimit_cpu :: bool
  rs_rlimit_memory :: bool
  rs_cgroup_v2 :: bool
  rs_cgroup_writable :: bool
  rs_memory_limit :: bool
  rs_pids_limit :: bool
  rs_oom_detection :: bool
  rs_cpu_quota :: bool
  rs_ledger :: bool
  rs_capacity :: ResourceCapacity

record RuntimeCapabilities =
  cp_runtime_id :: string
  cp_snapshot_version :: string
  cp_collected_at :: int
  cp_platform :: RuntimePlatform
  cp_execution :: ExecutionCapabilities
  cp_sandbox :: SandboxCapabilities
  cp_storage :: StorageCapabilities
  cp_resources :: ResourceCapabilities
  cp_stable_semantics :: "string list"
  cp_enhanced_semantics :: "string list"
  cp_warnings :: "string list"
  cp_degraded :: bool
  cp_overrides :: "string btree"

subsection \<open>Responses\<close>

record SubmitTaskResponse =
  sr_task_id :: string
  sr_handle_id :: string
  sr_status :: TaskStatus

record TaskArtifacts =
  ta_task_dir :: string
  ta_request_path :: string
  ta_result_path :: string
  ta_stdout_path :: string
  ta_stderr_path :: string
  ta_script_path :: "string option"

record TaskStatusResponse =
  ts_task_id :: string
  ts_handle_id :: string
  ts_status :: TaskStatus
  ts_created_at :: int
  ts_updated_at :: int
  ts_started_at :: "int option"
  ts_finished_at :: "int option"
  ts_duration_ms :: "u64 option"
  ts_shim_pid :: "u32 option"
  ts_pid :: "u32 option"
  ts_pgid :: "int option"
  ts_exit_code :: "int option"
  ts_exit_signal :: "int option"
  ts_stdout :: string
  ts_stderr :: string
  ts_stdout_truncated :: bool
  ts_stderr_truncated :: bool
  ts_error :: "RuntimeErrorInfo option"
  ts_usage :: "ResourceUsage option"
  ts_execution_plan :: "ExecutionPlan option"
  ts_reservation :: "TaskResourceReservation option"
  ts_artifacts :: TaskArtifacts
  ts_metadata :: string_map

record EventRecord =
  ev_seq :: int
  ev_task_id :: string
  ev_event_type :: EventType
  ev_timestamp :: int
  ev_message :: "string option"
  ev_data :: "json_value option"

record ActiveTaskReservation =
  ar_task_id :: string
  ar_status :: TaskStatus
  ar_reservation :: TaskResourceReservation
  ar_reserved_at :: "int option"

record TenantResourceView =
  tv_tenant :: string
  tv_quota :: "ResourceCapacity option"
  tv_reserved :: ResourceCapacity
  tv_available :: "ResourceCapacity option"

record RuntimeConfigResponse =
  cf_runtime_id :: string
  cf_listen_addr :: string
  cf_data_dir :: string
  cf_max_running_tasks :: u64
  cf_max_queued_tasks :: u64
  cf_termination_grace_ms :: u64
  cf_result_retention_secs :: u64
  cf_gc_interval_ms :: u64
  cf_dispatch_poll_interval_ms :: u64
  cf_cgroup_root :: string
  cf_default_capability_mode :: CapabilityMode
  cf_cgroup_enabled :: bool

record RuntimeResourcesResponse =
  rr_runtime_id :: string
  rr_capacity :: ResourceCapacity
  rr_reserved :: ResourceCapacity
  rr_available :: ResourceCapacity
  rr_active_reservations :: "ActiveTaskReservation list"
  rr_accepted_waiting_tasks :: nat
  rr_tenants :: "TenantResourceView list"

subsection \<open>Defaults\<close>

definition default_output_inline_bytes :: u64 where
  "default_output_inline_bytes = 4 * 1024 * 1024"

definition default_wall_time_ms :: u64 where
  "default_wall_time_ms = 5 * 60 * 1000"

definition default_namespace_config :: NamespaceConfig where
  "default_namespace_config =
     \<lparr>ns_mount = True, ns_pid = True, ns_uts = True, ns_ipc = True, ns_net = False\<rparr>"

definition default_sandbox_policy :: SandboxPolicy where
  "default_sandbox_policy =
     \<lparr>sb_profile = Process, sb_workspace_subdir = None, sb_rootfs = None, sb_chroot = False,
      sb_namespaces = None\<rparr>"

definition default_resource_limits :: ResourceLimits where
  "default_resource_limits =
     \<lparr>rl_wall_time_ms = default_wall_time_ms, rl_cpu_time_sec = None, rl_memory_bytes = None,
      rl_pids_max = None, rl_stdout_max_bytes = default_output_inline_bytes,
      rl_stderr_max_bytes = default_output_inline_bytes\<rparr>"

definition effective_namespaces :: "SandboxPolicy \<Rightarrow> NamespaceConfig" where
  "effective_namespaces sb = unwrap_or (sb_namespaces sb) default_namespace_config"

text \<open>\<open>ExecutionPlan::legacy\<close>.\<close>

definition legacy_plan :: "SandboxPolicy \<Rightarrow> ResourceLimits \<Rightarrow> ExecutionPlan" where
  "legacy_plan sandbox limits =
     (let cgroup_enforced = (sb_profile sandbox = LinuxSandbox)
      in \<lparr>pl_capability_mode = Adaptive,
          pl_requested_sandbox = sandbox,
          pl_effective_sandbox = sandbox,
          pl_resource_enforcement =
            \<lparr>ep_wall_time_ms = rl_wall_time_ms limits,
             ep_cpu_time_sec = rl_cpu_time_sec limits,
             ep_cpu_time_enforced = (rl_cpu_time_sec limits \<noteq> None),
             ep_memory_bytes = rl_memory_bytes limits,
             ep_memory_enforced = (rl_memory_bytes limits \<noteq> None),
             ep_pids_max = rl_pids_max limits,
             ep_pids_enforced = (rl_pids_max limits \<noteq> None \<and> cgroup_enforced),
             ep_cgroup_enforced = cgroup_enforced,
             ep_oom_detection = (rl_memory_bytes limits \<noteq> None \<and> cgroup_enforced)\<rparr>,
          pl_degraded = False,
          pl_fallback_reasons = [],
          pl_capability_warnings = []\<rparr>)"

text \<open>\<open>TaskResourceReservation::from_limits\<close>.\<close>

definition from_limits :: "ResourceLimits \<Rightarrow> TaskResourceReservation" where
  "from_limits limits =
     \<lparr>rv_task_slots = 1, rv_memory_bytes = rl_memory_bytes limits, rv_pids = rl_pids_max limits\<rparr>"

subsection \<open>Paths\<close>

text \<open>\<open>Path::is_absolute\<close>, \<open>Path::components\<close> and \<open>Path::join\<close> on Unix.\<close>

datatype Component = RootDir | CurDir | ParentDir | Normal string

definition is_absolute :: "string \<Rightarrow> bool" where
  "is_absolute p = (case p of [] \<Rightarrow> False | c # _ \<Rightarrow> c = CHR ''/'')"

definition component_of :: "string \<Rightarrow> Component" where
  "component_of s = (if s = ''..'' then ParentDir else Normal s)"

text \<open>Empty parts and interior dots are dropped; a leading dot is kept as \<open>CurDir\<close>.\<close>

definition real_part :: "string \<Rightarrow> bool" where
  "real_part s = (s \<noteq> [] \<and> s \<noteq> ''.'')"

definition components :: "string \<Rightarrow> Component list" where
  "components p =
     (if is_absolute p
      then RootDir # map component_of (filter real_part (split_on CHR ''/'' (tl p)))
      else (case split_on CHR ''/'' p of
              [] \<Rightarrow> []
            | s # ss \<Rightarrow>
                (if s = ''.'' then [CurDir] else []) @
                map component_of (filter real_part (s # ss))))"

definition path_join :: "string \<Rightarrow> string \<Rightarrow> string" where
  "path_join a b =
     (if is_absolute b then b
      else if a = [] then b
      else if last a = CHR ''/'' then a @ b
      else a @ ''/'' @ b)"

subsection \<open>Validation\<close>

definition trimmed_or_empty :: "string option \<Rightarrow> string" where
  "trimmed_or_empty x = unwrap_or (map_option trim x) []"

text \<open>The check on the keys of the environment and of the labels.\<close>

definition bad_key :: "string \<Rightarrow> bool" where
  "bad_key key = (trim key = [] \<or> contains_char CHR ''='' key)"

text \<open>\<open>ExecutionSpec::validate\<close>.\<close>

definition validate_execution :: "ExecutionSpec \<Rightarrow> unit app_result" where
  "validate_execution e =
     res_bind
       (case es_kind e of
          Command \<Rightarrow>
            res_bind (ensure (trimmed_or_empty (es_program e) \<noteq> [])
                (InvalidInput ''execution.program is required for command tasks'')) (\<lambda>_.
            ensure (\<not> is_some_and (es_script e) (\<lambda>v. trim v \<noteq> []))
                (InvalidInput ''execution.script must be empty for command tasks''))
        | Script \<Rightarrow>
            res_bind (ensure (trimmed_or_empty (es_script e) \<noteq> [])
                (InvalidInput ''execution.script is required for script tasks'')) (\<lambda>_.
            res_bind (ensure (\<not> is_some_and (es_program e) (\<lambda>v. trim v \<noteq> []))
                (InvalidInput ''execution.program must be empty for script tasks'')) (\<lambda>_.
            (case es_interpreter e of
               None \<Rightarrow> Inr ()
             | Some interp \<Rightarrow>
                 ensure (case interp of [] \<Rightarrow> False | i # _ \<Rightarrow> trim i \<noteq> [])
                   (InvalidInput ''execution.interpreter must contain at least one non-empty value'')))))
       (\<lambda>_. ensure (\<not> list_ex bad_key (map fst (es_env e)))
              (InvalidInput (''execution.env keys must be non-empty and cannot contain '' @ quoted ''='')))"

text \<open>\<open>TaskPolicy::validate\<close> and \<open>ControlContext::validate\<close>.\<close>

definition validate_policy :: "TaskPolicy \<Rightarrow> unit app_result" where
  "validate_policy p = Inr ()"

definition validate_control_context :: "ControlContext \<Rightarrow> unit app_result" where
  "validate_control_context c =
     res_bind (ensure (\<not> list_ex bad_key (map fst (cc_labels c)))
         (InvalidInput (''control_context.labels keys must be non-empty and cannot contain '' @ quoted ''=''))) (\<lambda>_.
     ensure (\<not> list_ex (\<lambda>value. is_some_and value (\<lambda>item. trim item = []))
               [cc_control_plane_mode c, cc_tenant c, cc_owner c, cc_expected_runtime_profile c])
       (InvalidInput ''control_context values cannot be empty strings''))"

text \<open>\<open>validate_relative_workspace_subdir\<close>; \<open>Component::Prefix\<close> exists on Windows only.\<close>

definition forbidden_component :: "Component \<Rightarrow> bool" where
  "forbidden_component c = (case c of ParentDir \<Rightarrow> True | RootDir \<Rightarrow> True | _ \<Rightarrow> False)"

definition validate_relative_workspace_subdir :: "string \<Rightarrow> unit app_result" where
  "validate_relative_workspace_subdir subdir =
     res_bind (ensure (\<not> is_absolute subdir)
         (InvalidInput ''sandbox.workspace_subdir must be relative'')) (\<lambda>_.
     ensure (\<not> list_ex forbidden_component (components subdir))
         (InvalidInput ''sandbox.workspace_subdir cannot contain parent traversal''))"

text \<open>\<open>SandboxPolicy::validate\<close>.\<close>

definition validate_sandbox :: "SandboxPolicy \<Rightarrow> unit app_result" where
  "validate_sandbox sb =
     res_bind (case sb_workspace_subdir sb of
                 None \<Rightarrow> Inr ()
               | Some subdir \<Rightarrow> validate_relative_workspace_subdir subdir) (\<lambda>_.
     res_bind (ensure (\<not> (sb_chroot sb \<and> trimmed_or_empty (sb_rootfs sb) = []))
         (InvalidInput ''sandbox.rootfs is required when sandbox.chroot=true'')) (\<lambda>_.
     ensure (\<not> (sb_profile sb = Process \<and> sb_chroot sb))
         (InvalidInput ''sandbox.chroot requires sandbox.profile=linux_sandbox'')))"

text \<open>\<open>ResourceLimits::validate\<close>.\<close>

definition validate_limits :: "ResourceLimits \<Rightarrow> unit app_result" where
  "validate_limits l =
     res_bind (ensure (rl_wall_time_ms l \<noteq> 0)
         (InvalidInput ''limits.wall_time_ms must be greater than 0'')) (\<lambda>_.
     ensure (\<not> (rl_stdout_max_bytes l = 0 \<or> rl_stderr_max_bytes l = 0))
         (InvalidInput ''limits.stdout_max_bytes and limits.stderr_max_bytes must be greater than 0''))"

text \<open>\<open>validate_task_id\<close>: the characters of the trimmed identifier are checked.\<close>

definition task_id_char :: "char \<Rightarrow> bool" where
  "task_id_char c = (is_ascii_alphanumeric c \<or> c \<in> {CHR ''-'', CHR ''_'', CHR ''.''})"

definition validate_task_id :: "string \<Rightarrow> unit app_result" where
  "validate_task_id task_id =
     (let trimmed = trim task_id
      in res_bind (ensure (trimmed \<noteq> []) (InvalidInput ''task_id cannot be empty'')) (\<lambda>_.
         ensure (list_all task_id_char trimmed)
           (InvalidInput (''task_id may only contain letters, digits, '' @ quoted ''-'' @ '', '' @
              quoted ''_'' @ '' and '' @ quoted ''.''))))"

text \<open>\<open>SubmitTaskRequest::validate\<close>.\<close>

definition validate_request :: "SubmitTaskRequest \<Rightarrow> unit app_result" where
  "validate_request r =
     res_bind (case rq_task_id r of None \<Rightarrow> Inr () | Some i \<Rightarrow> validate_task_id i) (\<lambda>_.
     res_bind (validate_execution (rq_execution r)) (\<lambda>_.
     res_bind (validate_limits (rq_limits r)) (\<lambda>_.
     res_bind (validate_sandbox (rq_sandbox r)) (\<lambda>_.
     res_bind (case rq_policy r of None \<Rightarrow> Inr () | Some p \<Rightarrow> validate_policy p) (\<lambda>_.
     (case rq_control_context r of None \<Rightarrow> Inr () | Some c \<Rightarrow> validate_control_context c))))))"

text \<open>\<open>resolve_workspace_dir\<close>.\<close>

definition resolve_workspace_dir :: "string \<Rightarrow> SandboxPolicy \<Rightarrow> string app_result" where
  "resolve_workspace_dir task_dir sb =
     (let base = path_join task_dir ''workspace''
      in case sb_workspace_subdir sb of
           Some subdir \<Rightarrow>
             res_bind (validate_relative_workspace_subdir subdir) (\<lambda>_. Inr (path_join base subdir))
         | None \<Rightarrow> Inr base)"

subsection \<open>The lifecycle order\<close>

text \<open>
  A task moves from accepted to running to one of the three terminal states, which are
  incomparable. The order is the abstract specification of the status column.
\<close>

fun status_rank :: "TaskStatus \<Rightarrow> nat" where
  "status_rank Accepted = 0"
| "status_rank Running = 1"
| "status_rank Success = 2"
| "status_rank Failed = 2"
| "status_rank Cancelled = 2"

instantiation TaskStatus :: order
begin

definition less_eq_TaskStatus :: "TaskStatus \<Rightarrow> TaskStatus \<Rightarrow> bool" where
  "less_eq_TaskStatus a b = (a = b \<or> status_rank a < status_rank b)"

definition less_TaskStatus :: "TaskStatus \<Rightarrow> TaskStatus \<Rightarrow> bool" where
  "less_TaskStatus a b = (status_rank a < status_rank b)"

instance
  by standard (auto simp: less_eq_TaskStatus_def less_TaskStatus_def)

end

lemma is_terminal_simps [simp]:
  "\<not> is_terminal Accepted" "\<not> is_terminal Running"
  "is_terminal Success" "is_terminal Failed" "is_terminal Cancelled"
  by (simp_all add: is_terminal_def)

lemma is_terminal_iff_maximal: "is_terminal s \<longleftrightarrow> (\<forall>t. s \<le> t \<longrightarrow> t = s)"
proof -
  have "\<not> is_terminal s \<Longrightarrow> \<exists>t. s \<le> t \<and> t \<noteq> s"
    by (rule exI [of _ Success], cases s) (auto simp: less_eq_TaskStatus_def)
  moreover have "is_terminal s \<Longrightarrow> s \<le> t \<Longrightarrow> t = s" for t
    by (cases s; cases t) (auto simp: less_eq_TaskStatus_def)
  ultimately show ?thesis by blast
qed

subsection \<open>Lemmas on paths\<close>

lemma split_on_append_full:
  "split_on d (a @ d # b) = split_on d a @ split_on d b"
proof (induction a)
  case Nil
  show ?case by simp
next
  case (Cons c a)
  have "split_on d a \<noteq> []" for a
    by (cases a) (auto split: list.splits)
  then show ?case using Cons by (auto split: list.splits)
qed

lemma components_relative_append:
  assumes "\<not> is_absolute a" "a \<noteq> []"
  shows "components (a @ CHR ''/'' # b) =
           components a @ map component_of (filter real_part (split_on CHR ''/'' b))"
proof -
  have "split_on CHR ''/'' a \<noteq> []"
    by (cases a) (auto split: list.splits)
  moreover have "\<not> is_absolute (a @ CHR ''/'' # b)"
    using assms by (cases a) (auto simp: is_absolute_def)
  ultimately show ?thesis
    using assms by (auto simp: components_def split_on_append_full split: list.splits)
qed

lemma components_absolute_append:
  assumes "is_absolute a"
  shows "components (a @ CHR ''/'' # b) =
           components a @ map component_of (filter real_part (split_on CHR ''/'' b))"
proof -
  from assms obtain a' where a: "a = CHR ''/'' # a'"
    by (auto simp: is_absolute_def split: list.splits)
  show ?thesis
    by (simp add: a components_def is_absolute_def split_on_append_full)
qed

end
