(* ===== verification/Codec.thy ===== *)
theory Codec
  imports Types
begin

section \<open>Codec: the enumeration columns of \<open>src/repo.rs\<close>\<close>

text \<open>
  The strings under which statuses, error codes and event types are stored, their decoders,
  and the interface the repository relies on: a decoder that inverts its encoder and accepts
  nothing else.
\<close>

text \<open>\<open>rusqlite::Error::InvalidColumnType(0, other, Text)\<close> as the decoders raise it.\<close>

definition invalid_column :: "string \<Rightarrow> AppError" where
  "invalid_column other = Sqlite (''InvalidColumnType '' @ other)"

fun encode_status :: "TaskStatus \<Rightarrow> string" where
  "encode_status Accepted = ''accepted''"
| "encode_status Running = ''running''"
| "encode_status Success = ''success''"
| "encode_status Failed = ''failed''"
| "encode_status Cancelled = ''cancelled''"

definition decode_status :: "string \<Rightarrow> TaskStatus app_result" where
  "decode_status value =
     (if value = ''accepted'' then Inr Accepted
      else if value = ''running'' then Inr Running
      else if value = ''success'' then Inr Success
      else if value = ''failed'' then Inr Failed
      else if value = ''cancelled'' then Inr Cancelled
      else Inl (invalid_column value))"

fun encode_error_code :: "ErrorCode \<Rightarrow> string" where
  "encode_error_code EcInvalidInput = ''invalid_input''"
| "encode_error_code EcLaunchFailed = ''launch_failed''"
| "encode_error_code EcTimeout = ''timeout''"
| "encode_error_code EcCancelled = ''cancelled''"
| "encode_error_code EcMemoryLimitExceeded = ''memory_limit_exceeded''"
| "encode_error_code EcCpuLimitExceeded = ''cpu_limit_exceeded''"
| "encode_error_code EcResourceLimitExceeded = ''resource_limit_exceeded''"
| "encode_error_code EcSandboxSetupFailed = ''sandbox_setup_failed''"
| "encode_error_code EcExitNonZero = ''exit_nonzero''"
| "encode_error_code EcUnsupportedCapability = ''unsupported_capability''"
| "encode_error_code EcInsufficientResources = ''insufficient_resources''"
| "encode_error_code EcNotFound = ''not_found''"
| "encode_error_code EcConflict = ''conflict''"
| "encode_error_code EcPermissionDenied = ''permission_denied''"
| "encode_error_code EcInternal = ''internal''"

definition decode_error_code :: "string \<Rightarrow> ErrorCode app_result" where
  "decode_error_code value =
     (if value = ''invalid_input'' then Inr EcInvalidInput
      else if value = ''launch_failed'' then Inr EcLaunchFailed
      else if value = ''timeout'' then Inr EcTimeout
      else if value = ''cancelled'' then Inr EcCancelled
      else if value = ''memory_limit_exceeded'' then Inr EcMemoryLimitExceeded
      else if value = ''cpu_limit_exceeded'' then Inr EcCpuLimitExceeded
      else if value = ''resource_limit_exceeded'' then Inr EcResourceLimitExceeded
      else if value = ''sandbox_setup_failed'' then Inr EcSandboxSetupFailed
      else if value = ''exit_nonzero'' then Inr EcExitNonZero
      else if value = ''unsupported_capability'' then Inr EcUnsupportedCapability
      else if value = ''insufficient_resources'' then Inr EcInsufficientResources
      else if value = ''not_found'' then Inr EcNotFound
      else if value = ''conflict'' then Inr EcConflict
      else if value = ''permission_denied'' then Inr EcPermissionDenied
      else if value = ''internal'' then Inr EcInternal
      else Inl (invalid_column value))"

fun encode_event_type :: "EventType \<Rightarrow> string" where
  "encode_event_type EvSubmitted = ''submitted''"
| "encode_event_type EvAccepted = ''accepted''"
| "encode_event_type EvPlanned = ''planned''"
| "encode_event_type EvDegraded = ''degraded''"
| "encode_event_type EvResourceReserved = ''resource_reserved''"
| "encode_event_type EvResourceReleased = ''resource_released''"
| "encode_event_type EvStarted = ''started''"
| "encode_event_type EvKillRequested = ''kill_requested''"
| "encode_event_type EvTimeoutTriggered = ''timeout_triggered''"
| "encode_event_type EvFinished = ''finished''"
| "encode_event_type EvFailed = ''failed''"
| "encode_event_type EvCancelled = ''cancelled''"
| "encode_event_type EvRecovered = ''recovered''"

definition decode_event_type :: "string \<Rightarrow> EventType app_result" where
  "decode_event_type value =
     (if value = ''submitted'' then Inr EvSubmitted
      else if value = ''accepted'' then Inr EvAccepted
      else if value = ''planned'' then Inr EvPlanned
      else if value = ''degraded'' then Inr EvDegraded
      else if value = ''resource_reserved'' then Inr EvResourceReserved
      else if value = ''resource_released'' then Inr EvResourceReleased
      else if value = ''started'' then Inr EvStarted
      else if value = ''kill_requested'' then Inr EvKillRequested
      else if value = ''timeout_triggered'' then Inr EvTimeoutTriggered
      else if value = ''finished'' then Inr EvFinished
      else if value = ''failed'' then Inr EvFailed
      else if value = ''cancelled'' then Inr EvCancelled
      else if value = ''recovered'' then Inr EvRecovered
      else Inl (invalid_column value))"

subsection \<open>The interface\<close>

locale codec =
  fixes enc :: "'a \<Rightarrow> string"
    and dec :: "string \<Rightarrow> 'a app_result"
  assumes dec_enc: "dec (enc x) = Inr x"
begin

lemma enc_inject: "enc x = enc y \<longleftrightarrow> x = y"
  by (metis dec_enc sum.inject(2))

lemma inj_enc: "inj enc"
  by (simp add: inj_def enc_inject)

lemma option_dec_enc: "option_res dec (map_option enc x) = Inr x"
  by (cases x) (simp_all add: dec_enc)

lemma map_dec_enc: "map_res dec (map enc xs) = Inr xs"
  by (induction xs) (simp_all add: dec_enc)

end

text \<open>A strict codec decodes nothing but encodings, so stored texts and values correspond.\<close>

locale strict_codec = codec +
  assumes dec_sound: "dec s = Inr x \<Longrightarrow> s = enc x"
begin

lemma dec_iff: "dec s = Inr x \<longleftrightarrow> s = enc x"
  using dec_enc dec_sound by blast

lemma dec_ok_iff: "is_ok (dec s) \<longleftrightarrow> s \<in> range enc"
  by (auto simp: is_ok_conv dec_iff)

lemma option_dec_iff: "option_res dec s = Inr x \<longleftrightarrow> s = map_option enc x"
  by (cases s; cases x) (auto simp: res_bind_eq_Inr dec_iff)

end

interpretation status: strict_codec encode_status decode_status
proof unfold_locales
  show "decode_status (encode_status x) = Inr x" for x
    by (cases x) (simp_all add: decode_status_def)
  show "decode_status s = Inr x \<Longrightarrow> s = encode_status x" for s x
    by (auto simp: decode_status_def split: if_splits)
qed

interpretation code: strict_codec encode_error_code decode_error_code
proof unfold_locales
  show "decode_error_code (encode_error_code x) = Inr x" for x
    by (cases x) (simp_all add: decode_error_code_def)
  show "decode_error_code s = Inr x \<Longrightarrow> s = encode_error_code x" for s x
    by (auto simp: decode_error_code_def split: if_splits)
qed

interpretation evt: strict_codec encode_event_type decode_event_type
proof unfold_locales
  show "decode_event_type (encode_event_type x) = Inr x" for x
    by (cases x) (simp_all add: decode_event_type_def)
  show "decode_event_type s = Inr x \<Longrightarrow> s = encode_event_type x" for s x
    by (auto simp: decode_event_type_def split: if_splits)
qed

subsection \<open>Properties\<close>

text \<open>statuses, error codes and event types survive being stored and read back, and a
  stored text is accepted exactly when it is the encoding of the value it is read as; the
  decoders therefore never confuse two values and reject every other text.\<close>

theorem enum_columns_roundtrip:
  "(decode_status s = Inr st) = (s = encode_status st) \<and>
   (decode_error_code s = Inr ec) = (s = encode_error_code ec) \<and>
   (decode_event_type s = Inr et) = (s = encode_event_type et)"
  by (simp add: status.dec_iff code.dec_iff evt.dec_iff)

end
