(* ===== verification/Repo.thy ===== *)
theory Repo
  imports Codec "HOL-Library.Option_ord" "HOL-Library.Product_Lexorder"
begin

section \<open>Repository: \<open>src/repo.rs\<close>\<close>

text \<open>
  The SQLite repository. The state is the two tables and the last sequence number handed out;
  each method is one transaction, so that it either returns the new state or an error and
  leaves the state alone. The SQL statements are translated clause by clause: a \<open>SET\<close> list is
  an edit of one row, a \<open>WHERE\<close> clause a condition, an \<open>ORDER BY\<close> a stable sort of the rows in
  insertion order. A JSON column holds a text that either parses to a value or is malformed.

  A method reads the clock at several places: \<open>clk 0\<close> is the reading of the method itself, \<open>clk k\<close>
  for a positive \<open>k\<close> the reading of its \<open>k\<close>-th call of \<open>insert_event_tx\<close> in the source (milliseconds).
  A stored timestamp is taken to be one that \<open>chrono\<close> can represent.
\<close>

subsection \<open>Tables\<close>

datatype 'a json_text = JsonText (json_value_of: 'a) | MalformedText

type_synonym clock = "nat \<Rightarrow> int"

record task_row =
  c_task_id :: string
  c_handle_id :: string
  c_status :: string
  c_execution_json :: "ExecutionSpec json_text"
  c_limits_json :: "ResourceLimits json_text"
  c_sandbox_json :: "SandboxPolicy json_text"
  c_metadata_json :: "string_map json_text"
  c_created_at_ms :: int
  c_updated_at_ms :: int
  c_started_at_ms :: "int option"
  c_finished_at_ms :: "int option"
  c_duration_ms :: "int option"
  c_shim_pid :: "int option"
  c_pid :: "int option"
  c_pgid :: "int option"
  c_exit_code :: "int option"
  c_exit_signal :: "int option"
  c_error_code :: "string option"
  c_error_json :: "RuntimeErrorInfo json_text option"
  c_usage_json :: "ResourceUsage json_text option"
  c_task_dir :: string
  c_workspace_dir :: string
  c_request_path :: string
  c_result_path :: string
  c_stdout_path :: string
  c_stderr_path :: string
  c_script_path :: "string option"
  c_stdout_max_bytes :: int
  c_stderr_max_bytes :: int
  c_kill_requested :: int
  c_kill_requested_at_ms :: "int option"
  c_timeout_triggered :: int
  c_result_json :: "json_value json_text option"
  c_execution_plan_json :: "ExecutionPlan json_text option"
  c_control_context_json :: "ControlContext json_text option"
  c_reservation_json :: "TaskResourceReservation json_text option"
  c_reserved_at_ms :: "int option"
  c_released_at_ms :: "int option"

record event_row =
  el_seq :: int
  el_task_id :: string
  el_event_type :: string
  el_timestamp_ms :: int
  el_message :: "string option"
  el_data_json :: "json_value json_text option"

record repo =
  rp_tasks :: "task_row list"
  rp_events :: "event_row list"
  rp_last_seq :: int

definition empty_repo :: repo where
  "empty_repo = \<lparr>rp_tasks = [], rp_events = [], rp_last_seq = 0\<rparr>"

subsection \<open>Decoded records\<close>

record TaskRecord =
  tr_task_id :: string
  tr_handle_id :: string
  tr_status :: TaskStatus
  tr_execution :: ExecutionSpec
  tr_limits :: ResourceLimits
  tr_sandbox :: SandboxPolicy
  tr_metadata :: string_map
  tr_created_at :: int
  tr_updated_at :: int
  tr_started_at :: "int option"
  tr_finished_at :: "int option"
  tr_duration_ms :: "u64 option"
  tr_shim_pid :: "u32 option"
  tr_pid :: "u32 option"
  tr_pgid :: "int option"
  tr_exit_code :: "int option"
  tr_exit_signal :: "int option"
  tr_error_code :: "ErrorCode option"
  tr_error :: "RuntimeErrorInfo option"
  tr_usage :: "ResourceUsage option"
  tr_task_dir :: string
  tr_workspace_dir :: string
  tr_request_path :: string
  tr_result_path :: string
  tr_stdout_path :: string
  tr_stderr_path :: string
  tr_script_path :: "string option"
  tr_stdout_max_bytes :: u64
  tr_stderr_max_bytes :: u64
  tr_kill_requested :: bool
  tr_kill_requested_at :: "int option"
  tr_timeout_triggered :: bool
  tr_result_json :: "json_value option"
  tr_execution_plan :: "ExecutionPlan option"
  tr_control_context :: "ControlContext option"
  tr_reservation :: "TaskResourceReservation option"
  tr_reserved_at :: "int option"
  tr_released_at :: "int option"

record NewTaskRecord =
  nt_task_id :: string
  nt_request :: SubmitTaskRequest
  nt_task_dir :: string
  nt_workspace_dir :: string
  nt_request_path :: string
  nt_result_path :: string
  nt_stdout_path :: string
  nt_stderr_path :: string
  nt_script_path :: "string option"
  nt_execution_plan :: ExecutionPlan
  nt_control_context :: "ControlContext option"

record CompletionUpdate =
  cu_status :: TaskStatus
  cu_finished_at :: int
  cu_duration_ms :: "u64 option"
  cu_exit_code :: "int option"
  cu_exit_signal :: "int option"
  cu_error :: "RuntimeErrorInfo option"
  cu_usage :: "ResourceUsage option"
  cu_result_json :: "json_value option"

record MetricsSnapshot =
  ms_by_status :: "nat btree"
  ms_by_error_code :: "nat btree"
  ms_finished_durations_ms :: "u64 list"

definition has_active_reservation :: "TaskRecord \<Rightarrow> bool" where
  "has_active_reservation t = (tr_reservation t \<noteq> None \<and> tr_released_at t = None)"

subsection \<open>Decoding\<close>

definition from_json :: "'a json_text \<Rightarrow> 'a app_result" where
  "from_json raw =
     (case raw of JsonText v \<Rightarrow> Inr v | MalformedText \<Rightarrow> Inl (Sqlite ''FromSqlConversionFailure''))"

definition to_json :: "'a \<Rightarrow> 'a json_text" where
  "to_json v = JsonText v"

text \<open>\<open>value.max(0) as u64\<close> and \<open>value as u32\<close> on an \<open>i64\<close> column.\<close>

definition i64_to_u64 :: "int \<Rightarrow> u64" where
  "i64_to_u64 v = word_of_int (max v 0)"

definition i64_to_u32 :: "int \<Rightarrow> u32" where
  "i64_to_u32 v = word_of_int v"

definition row_to_task_record :: "task_row \<Rightarrow> TaskRecord app_result" where
  "row_to_task_record r =
     res_bind (decode_status (c_status r)) (\<lambda>status.
     res_bind (from_json (c_execution_json r)) (\<lambda>execution.
     res_bind (from_json (c_limits_json r)) (\<lambda>limits.
     res_bind (from_json (c_sandbox_json r)) (\<lambda>sandbox.
     res_bind (from_json (c_metadata_json r)) (\<lambda>metadata.
     res_bind (option_res decode_error_code (c_error_code r)) (\<lambda>error_code.
     res_bind (option_res from_json (c_error_json r)) (\<lambda>error.
     res_bind (option_res from_json (c_usage_json r)) (\<lambda>usage.
     res_bind (option_res from_json (c_result_json r)) (\<lambda>result.
     res_bind (option_res from_json (c_execution_plan_json r)) (\<lambda>plan.
     res_bind (option_res from_json (c_control_context_json r)) (\<lambda>context.
     res_bind (option_res from_json (c_reservation_json r)) (\<lambda>reservation.
     Inr \<lparr>tr_task_id = c_task_id r,
          tr_handle_id = c_handle_id r,
          tr_status = status,
          tr_execution = execution,
          tr_limits = limits,
          tr_sandbox = sandbox,
          tr_metadata = metadata,
          tr_created_at = c_created_at_ms r,
          tr_updated_at = c_updated_at_ms r,
          tr_started_at = c_started_at_ms r,
          tr_finished_at = c_finished_at_ms r,
          tr_duration_ms = map_option i64_to_u64 (c_duration_ms r),
          tr_shim_pid = map_option i64_to_u32 (c_shim_pid r),
          tr_pid = map_option i64_to_u32 (c_pid r),
          tr_pgid = c_pgid r,
          tr_exit_code = c_exit_code r,
          tr_exit_signal = c_exit_signal r,
          tr_error_code = error_code,
          tr_error = error,
          tr_usage = usage,
          tr_task_dir = c_task_dir r,
          tr_workspace_dir = c_workspace_dir r,
          tr_request_path = c_request_path r,
          tr_result_path = c_result_path r,
          tr_stdout_path = c_stdout_path r,
          tr_stderr_path = c_stderr_path r,
          tr_script_path = c_script_path r,
          tr_stdout_max_bytes = i64_to_u64 (c_stdout_max_bytes r),
          tr_stderr_max_bytes = i64_to_u64 (c_stderr_max_bytes r),
          tr_kill_requested = (c_kill_requested r \<noteq> 0),
          tr_kill_requested_at = c_kill_requested_at_ms r,
          tr_timeout_triggered = (c_timeout_triggered r \<noteq> 0),
          tr_result_json = result,
          tr_execution_plan = plan,
          tr_control_context = context,
          tr_reservation = reservation,
          tr_reserved_at = c_reserved_at_ms r,
          tr_released_at = c_released_at_ms r\<rparr>))))))))))))"

definition row_to_event_record :: "event_row \<Rightarrow> EventRecord app_result" where
  "row_to_event_record e =
     res_bind (decode_event_type (el_event_type e)) (\<lambda>event_type.
     res_bind (option_res from_json (el_data_json e)) (\<lambda>data.
     Inr \<lparr>ev_seq = el_seq e,
          ev_task_id = el_task_id e,
          ev_event_type = event_type,
          ev_timestamp = el_timestamp_ms e,
          ev_message = el_message e,
          ev_data = data\<rparr>))"

subsection \<open>Statements\<close>

text \<open>\<open>SELECT ... WHERE task_id = ?\<close>, \<open>UPDATE tasks SET ... WHERE task_id = ? AND ...\<close>.\<close>

definition find_row :: "string \<Rightarrow> repo \<Rightarrow> task_row option" where
  "find_row i s = find (\<lambda>r. c_task_id r = i) (rp_tasks s)"

definition update_task :: "string \<Rightarrow> (task_row \<Rightarrow> bool) \<Rightarrow> (task_row \<Rightarrow> task_row) \<Rightarrow> repo \<Rightarrow> repo" where
  "update_task i cond edit s =
     s\<lparr>rp_tasks := map (\<lambda>r. if c_task_id r = i \<and> cond r then edit r else r) (rp_tasks s)\<rparr>"

text \<open>
  \<open>insert_event_tx\<close>: the sequence number is the next one (\<open>AUTOINCREMENT\<close>), and the foreign key
  makes the statement fail when the task does not exist.
\<close>

definition add_event ::
    "string \<Rightarrow> EventType \<Rightarrow> string option \<Rightarrow> json_value option \<Rightarrow> int \<Rightarrow> repo \<Rightarrow> repo" where
  "add_event task_id event_type message data now s =
     s\<lparr>rp_events := rp_events s @
         [\<lparr>el_seq = rp_last_seq s + 1,
           el_task_id = task_id,
           el_event_type = encode_event_type event_type,
           el_timestamp_ms = now,
           el_message = message,
           el_data_json = map_option to_json data\<rparr>],
       rp_last_seq := rp_last_seq s + 1\<rparr>"

definition insert_event_tx ::
    "string \<Rightarrow> EventType \<Rightarrow> string option \<Rightarrow> json_value option \<Rightarrow> int \<Rightarrow> repo \<Rightarrow> repo app_result" where
  "insert_event_tx task_id event_type message data now s =
     (if find_row task_id s = None then Inl (Sqlite ''FOREIGN KEY constraint failed'')
      else Inr (add_event task_id event_type message data now s))"

text \<open>The text of the active reservation of a task, if it has one.\<close>

definition active_reservation_json :: "string \<Rightarrow> repo \<Rightarrow> TaskResourceReservation json_text option" where
  "active_reservation_json i s =
     (case find_row i s of
        None \<Rightarrow> None
      | Some r \<Rightarrow> if c_released_at_ms r = None then c_reservation_json r else None)"

text \<open>\<open>serde_json::from_str(&raw).map_err(AppError::Json)\<close>.\<close>

definition parse_reservation :: "TaskResourceReservation json_text \<Rightarrow> TaskResourceReservation app_result" where
  "parse_reservation raw =
     (case raw of JsonText v \<Rightarrow> Inr v | MalformedText \<Rightarrow> Inl (Json ''malformed reservation''))"

text \<open>\<open>if let Some(raw) = active_reservation_json { ... insert ResourceReleased event }\<close>.\<close>

definition release_event ::
    "string \<Rightarrow> TaskResourceReservation json_text option \<Rightarrow> string \<Rightarrow> int \<Rightarrow> repo \<Rightarrow> repo app_result" where
  "release_event task_id active message now s =
     (case active of
        None \<Rightarrow> Inr s
      | Some raw \<Rightarrow>
          res_bind (parse_reservation raw) (\<lambda>reservation.
          insert_event_tx task_id EvResourceReleased (Some message) (Some (JReservation reservation)) now s))"

subsection \<open>Edits: the \<open>SET\<close> clauses\<close>

definition dispatched_row :: "u32 \<Rightarrow> int \<Rightarrow> task_row \<Rightarrow> task_row" where
  "dispatched_row shim_pid now r =
     r\<lparr>c_status := ''running'', c_shim_pid := Some (uint shim_pid), c_updated_at_ms := now\<rparr>"

definition started_row :: "u32 \<Rightarrow> int \<Rightarrow> string option \<Rightarrow> int \<Rightarrow> task_row \<Rightarrow> task_row" where
  "started_row pid pgid script_path now r =
     r\<lparr>c_status := ''running'', c_pid := Some (uint pid), c_pgid := Some pgid,
       c_started_at_ms := Some now, c_updated_at_ms := now,
       c_script_path := option_or script_path (c_script_path r)\<rparr>"

definition reserved_row :: "TaskResourceReservation \<Rightarrow> int \<Rightarrow> task_row \<Rightarrow> task_row" where
  "reserved_row reservation now r =
     r\<lparr>c_reservation_json := Some (to_json reservation), c_reserved_at_ms := Some now,
       c_released_at_ms := None, c_updated_at_ms := now\<rparr>"

definition released_row :: "int \<Rightarrow> task_row \<Rightarrow> task_row" where
  "released_row now r = r\<lparr>c_released_at_ms := Some now, c_updated_at_ms := now\<rparr>"

definition cancel_requested_row :: "int \<Rightarrow> task_row \<Rightarrow> task_row" where
  "cancel_requested_row now r =
     r\<lparr>c_kill_requested := 1, c_kill_requested_at_ms := Some now, c_updated_at_ms := now\<rparr>"

definition timeout_row :: "int \<Rightarrow> task_row \<Rightarrow> task_row" where
  "timeout_row now r = r\<lparr>c_timeout_triggered := 1, c_updated_at_ms := now\<rparr>"

definition recovered_row :: "int \<Rightarrow> task_row \<Rightarrow> task_row" where
  "recovered_row now r = r\<lparr>c_updated_at_ms := now\<rparr>"

text \<open>\<open>CASE WHEN released_at_ms IS NULL AND reservation_json IS NOT NULL THEN ? ELSE released_at_ms\<close>.\<close>

definition release_time :: "int \<Rightarrow> task_row \<Rightarrow> int option" where
  "release_time now r =
     (if c_released_at_ms r = None \<and> c_reservation_json r \<noteq> None then Some now else c_released_at_ms r)"

definition cancelled_row :: "RuntimeErrorInfo \<Rightarrow> int \<Rightarrow> task_row \<Rightarrow> task_row" where
  "cancelled_row error now r =
     r\<lparr>c_status := ''cancelled'', c_updated_at_ms := now, c_finished_at_ms := Some now,
       c_released_at_ms := release_time now r,
       c_error_code := Some (encode_error_code (er_code error)),
       c_error_json := Some (to_json error),
       c_duration_ms := Some 0,
       c_result_json := Some (to_json (JCancelResult (c_task_id r) Cancelled now error))\<rparr>"

definition completed_row :: "CompletionUpdate \<Rightarrow> task_row \<Rightarrow> task_row" where
  "completed_row u r =
     r\<lparr>c_status := encode_status (cu_status u),
       c_updated_at_ms := cu_finished_at u,
       c_finished_at_ms := Some (cu_finished_at u),
       c_released_at_ms := release_time (cu_finished_at u) r,
       c_duration_ms := map_option uint (cu_duration_ms u),
       c_exit_code := cu_exit_code u,
       c_exit_signal := cu_exit_signal u,
       c_error_code := map_option (\<lambda>e. encode_error_code (er_code e)) (cu_error u),
       c_error_json := map_option to_json (cu_error u),
       c_usage_json := map_option to_json (cu_usage u),
       c_result_json := map_option to_json (cu_result_json u)\<rparr>"

text \<open>The row of a new task.\<close>

definition new_row :: "NewTaskRecord \<Rightarrow> int \<Rightarrow> task_row" where
  "new_row n now =
     \<lparr>c_task_id = nt_task_id n,
      c_handle_id = nt_task_id n,
      c_status = encode_status Accepted,
      c_execution_json = to_json (rq_execution (nt_request n)),
      c_limits_json = to_json (rq_limits (nt_request n)),
      c_sandbox_json = to_json (rq_sandbox (nt_request n)),
      c_metadata_json = to_json (rq_metadata (nt_request n)),
      c_created_at_ms = now,
      c_updated_at_ms = now,
      c_started_at_ms = None,
      c_finished_at_ms = None,
      c_duration_ms = None,
      c_shim_pid = None,
      c_pid = None,
      c_pgid = None,
      c_exit_code = None,
      c_exit_signal = None,
      c_error_code = None,
      c_error_json = None,
      c_usage_json = None,
      c_task_dir = nt_task_dir n,
      c_workspace_dir = nt_workspace_dir n,
      c_request_path = nt_request_path n,
      c_result_path = nt_result_path n,
      c_stdout_path = nt_stdout_path n,
      c_stderr_path = nt_stderr_path n,
      c_script_path = nt_script_path n,
      c_stdout_max_bytes = uint (rl_stdout_max_bytes (rq_limits (nt_request n))),
      c_stderr_max_bytes = uint (rl_stderr_max_bytes (rq_limits (nt_request n))),
      c_kill_requested = 0,
      c_kill_requested_at_ms = None,
      c_timeout_triggered = 0,
      c_result_json = None,
      c_execution_plan_json = Some (to_json (nt_execution_plan n)),
      c_control_context_json = map_option to_json (nt_control_context n),
      c_reservation_json = None,
      c_reserved_at_ms = None,
      c_released_at_ms = None\<rparr>"

subsection \<open>Transactions\<close>

text \<open>
  \<open>unchecked_transaction ... commit\<close>: an error before the commit rolls the transaction back.
\<close>

definition transact :: "(repo \<Rightarrow> repo app_result) \<Rightarrow> repo \<Rightarrow> repo \<times> unit app_result" where
  "transact body s = (case body s of Inl e \<Rightarrow> (s, Inl e) | Inr s' \<Rightarrow> (s', Inr ()))"

definition i64_try_from :: "u64 \<Rightarrow> string \<Rightarrow> int app_result" where
  "i64_try_from v what = (if uint v \<le> i64_max then Inr (uint v) else Inl (InvalidInput what))"

definition insert_row :: "task_row \<Rightarrow> repo \<Rightarrow> repo app_result" where
  "insert_row r s =
     (if find_row (c_task_id r) s \<noteq> None
      then Inl (Conflict (''task '' @ c_task_id r @ '' already exists''))
      else Inr (s\<lparr>rp_tasks := rp_tasks s @ [r]\<rparr>))"

definition insert_task :: "NewTaskRecord \<Rightarrow> clock \<Rightarrow> repo \<Rightarrow> repo \<times> unit app_result" where
  "insert_task n clk =
     transact (\<lambda>s.
       let i = nt_task_id n; plan = nt_execution_plan n in
       res_bind (i64_try_from (rl_stdout_max_bytes (rq_limits (nt_request n)))
           ''stdout_max_bytes is too large'') (\<lambda>_.
       res_bind (i64_try_from (rl_stderr_max_bytes (rq_limits (nt_request n)))
           ''stderr_max_bytes is too large'') (\<lambda>_.
       res_bind (insert_row (new_row n (clk 0)) s) (\<lambda>s.
       res_bind (insert_event_tx i EvSubmitted (Some ''task submitted'') None (clk 1) s) (\<lambda>s.
       res_bind (insert_event_tx i EvAccepted (Some ''task accepted'') None (clk 2) s) (\<lambda>s.
       res_bind (insert_event_tx i EvPlanned (Some ''execution plan resolved'') (Some (JPlan plan)) (clk 3) s) (\<lambda>s.
       if pl_degraded plan
       then insert_event_tx i EvDegraded (Some ''execution plan degraded'')
              (Some (JDegraded (pl_fallback_reasons plan) (pl_effective_sandbox plan))) (clk 4) s
       else Inr s)))))))"

definition mark_dispatched :: "string \<Rightarrow> u32 \<Rightarrow> clock \<Rightarrow> repo \<Rightarrow> repo \<times> unit app_result" where
  "mark_dispatched i shim_pid clk s =
     (update_task i (\<lambda>r. c_status r = ''accepted'') (dispatched_row shim_pid (clk 0)) s, Inr ())"

definition mark_started ::
    "string \<Rightarrow> u32 \<Rightarrow> int \<Rightarrow> string option \<Rightarrow> clock \<Rightarrow> repo \<Rightarrow> repo \<times> unit app_result" where
  "mark_started i pid pgid script_path clk =
     transact (\<lambda>s.
       insert_event_tx i EvStarted (Some ''task started'') None (clk 1)
         (update_task i (\<lambda>r. True) (started_row pid pgid script_path (clk 0)) s))"

definition reserve_resources ::
    "string \<Rightarrow> TaskResourceReservation \<Rightarrow> string \<Rightarrow> clock \<Rightarrow> repo \<Rightarrow> repo \<times> unit app_result" where
  "reserve_resources i reservation message clk =
     transact (\<lambda>s.
       insert_event_tx i EvResourceReserved (Some message) (Some (JReservation reservation)) (clk 1)
         (update_task i (\<lambda>r. True) (reserved_row reservation (clk 0)) s))"

definition release_resources :: "string \<Rightarrow> string \<Rightarrow> clock \<Rightarrow> repo \<Rightarrow> repo \<times> unit app_result" where
  "release_resources i message clk =
     transact (\<lambda>s.
       case active_reservation_json i s of
         None \<Rightarrow> Inr s
       | Some raw \<Rightarrow>
           res_bind (parse_reservation raw) (\<lambda>reservation.
           insert_event_tx i EvResourceReleased (Some message) (Some (JReservation reservation)) (clk 1)
             (update_task i (\<lambda>r. True) (released_row (clk 0)) s)))"

definition mark_timeout_triggered :: "string \<Rightarrow> clock \<Rightarrow> repo \<Rightarrow> repo \<times> unit app_result" where
  "mark_timeout_triggered i clk =
     transact (\<lambda>s.
       insert_event_tx i EvTimeoutTriggered (Some ''timeout triggered'') None (clk 1)
         (update_task i (\<lambda>r. True) (timeout_row (clk 0)) s))"

text \<open>The events are written whether or not the guarded \<open>UPDATE\<close> changed the row.\<close>

definition cancel_accepted_task ::
    "string \<Rightarrow> RuntimeErrorInfo \<Rightarrow> clock \<Rightarrow> repo \<Rightarrow> repo \<times> unit app_result" where
  "cancel_accepted_task i error clk =
     transact (\<lambda>s.
       let active = active_reservation_json i s in
       res_bind (release_event i active ''task resources released'' (clk 1)
           (update_task i (\<lambda>r. c_status r = ''accepted'') (cancelled_row error (clk 0)) s)) (\<lambda>s.
       insert_event_tx i EvCancelled (Some ''task cancelled'') None (clk 2) s))"

definition completion_event :: "TaskStatus \<Rightarrow> EventType" where
  "completion_event st =
     (case st of Success \<Rightarrow> EvFinished | Failed \<Rightarrow> EvFailed | Cancelled \<Rightarrow> EvCancelled
      | Accepted \<Rightarrow> EvFinished | Running \<Rightarrow> EvFinished)"

definition completion_message :: "TaskStatus \<Rightarrow> string" where
  "completion_message st =
     (case st of Success \<Rightarrow> ''task finished'' | Failed \<Rightarrow> ''task failed'' | Cancelled \<Rightarrow> ''task cancelled''
      | Accepted \<Rightarrow> ''task finished'' | Running \<Rightarrow> ''task finished'')"

definition complete_task ::
    "string \<Rightarrow> CompletionUpdate \<Rightarrow> clock \<Rightarrow> repo \<Rightarrow> repo \<times> unit app_result" where
  "complete_task i u clk =
     transact (\<lambda>s.
       let active = active_reservation_json i s in
       res_bind (option_res (\<lambda>d. i64_try_from d ''duration_ms is too large to persist'')
           (cu_duration_ms u)) (\<lambda>_.
       res_bind (release_event i active ''task resources released'' (clk 1)
           (update_task i (\<lambda>r. True) (completed_row u) s)) (\<lambda>s.
       insert_event_tx i (completion_event (cu_status u)) (Some (completion_message (cu_status u)))
         None (clk 2) s)))"

definition mark_recovered :: "string \<Rightarrow> clock \<Rightarrow> repo \<Rightarrow> repo \<times> unit app_result" where
  "mark_recovered i clk =
     transact (\<lambda>s.
       insert_event_tx i EvRecovered (Some ''task recovered'') None (clk 1)
         (update_task i (\<lambda>r. c_status r = ''running'') (recovered_row (clk 0)) s))"

definition recovery_lost_update :: "int \<Rightarrow> CompletionUpdate" where
  "recovery_lost_update now =
     \<lparr>cu_status = Failed, cu_finished_at = now, cu_duration_ms = Some 0, cu_exit_code = None,
      cu_exit_signal = None, cu_error = Some (RuntimeErrorInfo EcInternal ''recovery_lost'' None),
      cu_usage = None, cu_result_json = None\<rparr>"

definition mark_recovery_lost :: "string \<Rightarrow> clock \<Rightarrow> repo \<Rightarrow> repo \<times> unit app_result" where
  "mark_recovery_lost i clk = complete_task i (recovery_lost_update (clk 0)) clk"

text \<open>\<open>DELETE FROM tasks\<close>; the events follow by \<open>ON DELETE CASCADE\<close>.\<close>

definition delete_task :: "string \<Rightarrow> repo \<Rightarrow> repo \<times> unit app_result" where
  "delete_task i s =
     (s\<lparr>rp_tasks := filter (\<lambda>r. c_task_id r \<noteq> i) (rp_tasks s),
        rp_events := filter (\<lambda>e. el_task_id e \<noteq> i) (rp_events s)\<rparr>, Inr ())"

subsection \<open>Queries\<close>

definition get_task :: "string \<Rightarrow> repo \<Rightarrow> TaskRecord app_result" where
  "get_task i s =
     (case find_row i s of None \<Rightarrow> Inl (NotFound i) | Some r \<Rightarrow> row_to_task_record r)"

text \<open>
  \<open>set_cancel_requested\<close> commits first and reads the task afterwards: the request stays
  recorded when the read fails.
\<close>

definition set_cancel_requested :: "string \<Rightarrow> clock \<Rightarrow> repo \<Rightarrow> repo \<times> TaskRecord app_result" where
  "set_cancel_requested i clk s =
     and_then
       (transact (\<lambda>s.
          insert_event_tx i EvKillRequested (Some ''kill requested'') None (clk 1)
            (update_task i (\<lambda>r. True) (cancel_requested_row (clk 0)) s)) s)
       (\<lambda>s _. (s, get_task i s))"

definition list_events :: "string \<Rightarrow> repo \<Rightarrow> EventRecord list app_result" where
  "list_events i s =
     map_res row_to_event_record
       (sort_key el_seq (filter (\<lambda>e. el_task_id e = i) (rp_events s)))"

definition count_by_status :: "TaskStatus \<Rightarrow> repo \<Rightarrow> nat" where
  "count_by_status st s = length (filter (\<lambda>r. c_status r = encode_status st) (rp_tasks s))"

definition count_accepted :: "repo \<Rightarrow> nat" where
  "count_accepted s = count_by_status Accepted s"

definition count_running :: "repo \<Rightarrow> nat" where
  "count_running s = count_by_status Running s"

text \<open>\<open>LIMIT ?\<close> with the limit as an \<open>i64\<close>: a negative value means no limit.\<close>

definition sql_limit :: "u64 \<Rightarrow> 'a list \<Rightarrow> 'a list" where
  "sql_limit n xs = (if sint n < 0 then xs else take (unat n) xs)"

definition list_accepted :: "u64 \<Rightarrow> repo \<Rightarrow> TaskRecord list app_result" where
  "list_accepted limit s =
     map_res row_to_task_record
       (sql_limit limit
         (sort_key c_created_at_ms (filter (\<lambda>r. c_status r = ''accepted'') (rp_tasks s))))"

definition list_non_terminal :: "repo \<Rightarrow> TaskRecord list app_result" where
  "list_non_terminal s =
     map_res row_to_task_record
       (sort_key c_created_at_ms
         (filter (\<lambda>r. c_status r = ''accepted'' \<or> c_status r = ''running'') (rp_tasks s)))"

definition row_reserved :: "task_row \<Rightarrow> bool" where
  "row_reserved r = (c_reservation_json r \<noteq> None \<and> c_released_at_ms r = None)"

definition list_active_reservations :: "repo \<Rightarrow> TaskRecord list app_result" where
  "list_active_reservations s =
     map_res row_to_task_record
       (sort_key (\<lambda>r. (c_reserved_at_ms r, c_created_at_ms r)) (filter row_reserved (rp_tasks s)))"

definition count_accepted_waiting :: "repo \<Rightarrow> nat" where
  "count_accepted_waiting s =
     length (filter (\<lambda>r. c_status r = ''accepted'' \<and>
                          (c_reservation_json r = None \<or> c_released_at_ms r \<noteq> None)) (rp_tasks s))"

definition is_cancel_requested :: "string \<Rightarrow> repo \<Rightarrow> bool app_result" where
  "is_cancel_requested i s =
     (case find_row i s of
        None \<Rightarrow> Inl (Sqlite ''QueryReturnedNoRows'')
      | Some r \<Rightarrow> Inr (c_kill_requested r \<noteq> 0))"

definition gc_row :: "int \<Rightarrow> task_row \<Rightarrow> bool" where
  "gc_row finished_before r =
     (c_status r \<in> {''success'', ''failed'', ''cancelled''} \<and>
      is_some_and (c_finished_at_ms r) (\<lambda>t. t \<le> finished_before))"

definition list_gc_candidates :: "int \<Rightarrow> repo \<Rightarrow> TaskRecord list app_result" where
  "list_gc_candidates finished_before s =
     map_res row_to_task_record
       (sort_key c_finished_at_ms (filter (gc_row finished_before) (rp_tasks s)))"

text \<open>\<open>SELECT k, COUNT(*) ... GROUP BY k\<close>, collected into a \<open>BTreeMap\<close>.\<close>

definition group_count :: "string list \<Rightarrow> nat btree" where
  "group_count ks = fold (\<lambda>k. bt_insert k (length (filter (\<lambda>k'. k' = k) ks))) (remdups ks) []"

text \<open>The argument is the error, if any, of the connection or of one of the three statements.\<close>

definition metrics_snapshot :: "unit app_result \<Rightarrow> repo \<Rightarrow> MetricsSnapshot app_result" where
  "metrics_snapshot statements s =
     res_bind statements (\<lambda>_.
     Inr \<lparr>ms_by_status = group_count (map c_status (rp_tasks s)),
          ms_by_error_code = group_count (List.map_filter c_error_code (rp_tasks s)),
          ms_finished_durations_ms = map i64_to_u64 (List.map_filter c_duration_ms (rp_tasks s))\<rparr>)"

subsection \<open>Schema\<close>

definition tasks_columns :: "string list" where
  "tasks_columns =
     [''task_id'', ''handle_id'', ''status'', ''execution_json'', ''limits_json'', ''sandbox_json'',
      ''metadata_json'', ''created_at_ms'', ''updated_at_ms'', ''started_at_ms'', ''finished_at_ms'',
      ''duration_ms'', ''shim_pid'', ''pid'', ''pgid'', ''exit_code'', ''exit_signal'', ''error_code'',
      ''error_json'', ''usage_json'', ''task_dir'', ''workspace_dir'', ''request_path'', ''result_path'',
      ''stdout_path'', ''stderr_path'', ''script_path'', ''stdout_max_bytes'', ''stderr_max_bytes'',
      ''kill_requested'', ''kill_requested_at_ms'', ''timeout_triggered'', ''result_json'',
      ''execution_plan_json'', ''control_context_json'', ''reservation_json'', ''reserved_at_ms'',
      ''released_at_ms'']"

definition ensure_task_column :: "string \<Rightarrow> string list \<Rightarrow> string list" where
  "ensure_task_column name cols = (if list_ex (\<lambda>column. column = name) cols then cols else cols @ [name])"

text \<open>
  \<open>init\<close> on the columns of the table \<open>tasks\<close>, \<open>None\<close> when the table does not exist. A column
  that is added is NULL in every row.
\<close>

definition init_columns :: "string list option \<Rightarrow> string list" where
  "init_columns existing =
     (let cols = (case existing of None \<Rightarrow> tasks_columns | Some cols \<Rightarrow> cols);
          cols = ensure_task_column ''execution_plan_json'' cols;
          cols = ensure_task_column ''control_context_json'' cols;
          cols = ensure_task_column ''reservation_json'' cols;
          cols = ensure_task_column ''reserved_at_ms'' cols
      in ensure_task_column ''released_at_ms'' cols)"

end
