(* ===== verification/Repo_Inv.thy ===== *)
theory Repo_Inv
  imports Repo "HOL-Library.Sublist"
begin

section \<open>Invariants of the repository\<close>

text \<open>
  What every sequence of repository operations keeps: unique task identifiers, events that
  refer to existing tasks and are numbered in ascending order, rows that decode. The interface
  of a system of operations and of an edit of a row carry the proofs; the operations of
  \<open>src/repo.rs\<close> are the interpretations.
\<close>

subsection \<open>Systems of operations\<close>

locale op_system =
  fixes run :: "'op \<Rightarrow> 's \<Rightarrow> 's"
    and inv :: "'s \<Rightarrow> bool"
  assumes run_inv: "inv s \<Longrightarrow> inv (run c s)"
begin

lemma fold_inv: "inv s \<Longrightarrow> inv (fold run cs s)"
  by (induction cs arbitrary: s) (simp_all add: run_inv)

end

text \<open>A relation between states that every admitted operation follows.\<close>

locale monotone_ops = op_system run inv
  for run :: "'op \<Rightarrow> 's \<Rightarrow> 's" and inv :: "'s \<Rightarrow> bool" +
  fixes admitted :: "'op \<Rightarrow> bool"
    and rel :: "'s \<Rightarrow> 's \<Rightarrow> bool"
  assumes rel_refl: "rel s s"
    and rel_trans: "rel s t \<Longrightarrow> rel t u \<Longrightarrow> rel s u"
    and run_rel: "inv s \<Longrightarrow> admitted c \<Longrightarrow> rel s (run c s)"
begin

lemma fold_rel: "inv s \<Longrightarrow> list_all admitted cs \<Longrightarrow> rel s (fold run cs s)"
proof (induction cs arbitrary: s)
  case Nil
  show ?case by (simp add: rel_refl)
next
  case (Cons c cs)
  then have "rel s (run c s)" "rel (run c s) (fold run cs (run c s))"
    by (auto intro: run_rel run_inv)
  then show ?case by (auto intro: rel_trans)
qed

end

subsection \<open>The invariant\<close>

definition json_ok :: "'a json_text \<Rightarrow> bool" where
  "json_ok raw = (case raw of JsonText _ \<Rightarrow> True | MalformedText \<Rightarrow> False)"

definition opt_json_ok :: "'a json_text option \<Rightarrow> bool" where
  "opt_json_ok raw = (case raw of None \<Rightarrow> True | Some t \<Rightarrow> json_ok t)"

text \<open>
  A good row decodes, has an end when it is terminal, and has a reservation exactly when it has
  the time of the reservation.
\<close>

definition row_terminal :: "task_row \<Rightarrow> bool" where
  "row_terminal r = (c_status r \<in> {''success'', ''failed'', ''cancelled''})"

definition row_ok :: "task_row \<Rightarrow> bool" where
  "row_ok r =
     (is_ok (row_to_task_record r) \<and>
      (row_terminal r \<longrightarrow> c_finished_at_ms r \<noteq> None) \<and>
      (c_reservation_json r = None \<longleftrightarrow> c_reserved_at_ms r = None))"

definition event_ok :: "string set \<Rightarrow> int \<Rightarrow> event_row \<Rightarrow> bool" where
  "event_ok ids last_seq e = (el_task_id e \<in> ids \<and> el_seq e \<le> last_seq \<and> is_ok (row_to_event_record e))"

definition task_ids :: "repo \<Rightarrow> string list" where
  "task_ids s = map c_task_id (rp_tasks s)"

definition repo_ok :: "repo \<Rightarrow> bool" where
  "repo_ok s =
     (distinct (task_ids s) \<and> list_all row_ok (rp_tasks s) \<and>
      list_all (event_ok (set (task_ids s)) (rp_last_seq s)) (rp_events s) \<and>
      sorted_wrt (<) (map el_seq (rp_events s)))"

lemma is_ok_from_json [simp]: "is_ok (from_json t) = json_ok t"
  by (cases t) (simp_all add: from_json_def json_ok_def)

lemma is_ok_res_bind: "is_ok (res_bind m k) = (\<exists>a. m = Inr a \<and> is_ok (k a))"
  by (cases m) simp_all

lemma is_ok_option_res [simp]: "is_ok (option_res f x) = (case x of None \<Rightarrow> True | Some v \<Rightarrow> is_ok (f v))"
  by (cases x; cases "f (the x)") simp_all

lemma json_ok_to_json [simp]: "json_ok (to_json v)"
  by (simp add: json_ok_def to_json_def)

lemma opt_json_ok_simps [simp]:
  "opt_json_ok None" "opt_json_ok (Some t) = json_ok t" "opt_json_ok (map_option to_json x)"
  by (cases x; simp add: opt_json_ok_def)+

lemma is_ok_row_to_task_record:
  "is_ok (row_to_task_record r) \<longleftrightarrow>
     is_ok (decode_status (c_status r)) \<and> json_ok (c_execution_json r) \<and> json_ok (c_limits_json r) \<and>
     json_ok (c_sandbox_json r) \<and> json_ok (c_metadata_json r) \<and>
     (case c_error_code r of None \<Rightarrow> True | Some c \<Rightarrow> is_ok (decode_error_code c)) \<and>
     opt_json_ok (c_error_json r) \<and> opt_json_ok (c_usage_json r) \<and> opt_json_ok (c_result_json r) \<and>
     opt_json_ok (c_execution_plan_json r) \<and> opt_json_ok (c_control_context_json r) \<and>
     opt_json_ok (c_reservation_json r)"
proof -
  have opt: "is_ok (option_res from_json x) = opt_json_ok x" for x :: "'y json_text option"
    by (simp add: opt_json_ok_def split: option.split)
  have last_step: "is_ok (res_bind m (\<lambda>a. Inr (k a) :: 'e + 'z)) = is_ok m" for m :: "'e + 'x" and k
    by (cases m) simp_all
  have split_step: "is_ok (res_bind m k) \<longleftrightarrow> is_ok m \<and> P" if "\<And>a. is_ok (k a) = P"
    for m :: "'e + 'x" and k :: "'x \<Rightarrow> 'e + 'z" and P
    using that by (cases m) auto
  show ?thesis
    unfolding row_to_task_record_def is_ok_from_json [symmetric] opt [symmetric] is_ok_option_res [symmetric]
    by (rule split_step)+ (rule last_step)
qed

subsection \<open>Laws of the statements\<close>

lemma find_row_Some: "find_row i s = Some r \<Longrightarrow> r \<in> set (rp_tasks s) \<and> c_task_id r = i"
  by (auto simp: find_row_def find_Some_iff)

lemma find_row_None: "find_row i s = None \<longleftrightarrow> i \<notin> set (task_ids s)"
  by (auto simp: find_row_def find_None_iff task_ids_def)

lemma find_row_cong: "rp_tasks s = rp_tasks t \<Longrightarrow> find_row i s = find_row i t"
  by (simp add: find_row_def)

lemma find_row_events [simp]: "find_row i (s\<lparr>rp_events := es, rp_last_seq := k\<rparr>) = find_row i s"
  by (simp add: find_row_def)

lemma find_row_mem:
  "repo_ok s \<Longrightarrow> r \<in> set (rp_tasks s) \<Longrightarrow> find_row (c_task_id r) s = Some r"
proof -
  assume ok: "repo_ok s" and r: "r \<in> set (rp_tasks s)"
  then obtain r' where r': "find_row (c_task_id r) s = Some r'"
    using find_row_None [of "c_task_id r" s] by (auto simp: task_ids_def)
  have "inj_on c_task_id (set (rp_tasks s))"
    using ok by (simp add: repo_ok_def task_ids_def distinct_map)
  then have "r' = r"
    using r r' find_row_Some [OF r'] by (auto dest: inj_onD)
  with r' show ?thesis by simp
qed

lemma insert_event_tx_Inr:
  assumes "insert_event_tx i et msg data now s = Inr t"
  shows "find_row i s \<noteq> None" "rp_tasks t = rp_tasks s" "rp_last_seq t = rp_last_seq s + 1"
    "rp_events t = rp_events s @
       [\<lparr>el_seq = rp_last_seq s + 1, el_task_id = i, el_event_type = encode_event_type et,
         el_timestamp_ms = now, el_message = msg, el_data_json = map_option to_json data\<rparr>]"
  using assms by (auto simp: insert_event_tx_def add_event_def split: if_splits)

lemma insert_event_tx_ok:
  "find_row i s = Some r \<Longrightarrow> insert_event_tx i et m d now s = Inr (add_event i et m d now s)"
  by (simp add: insert_event_tx_def)

lemma add_event_simps [simp]:
  "find_row j (add_event i et m d now s) = find_row j s"
  "rp_tasks (add_event i et m d now s) = rp_tasks s"
  by (simp_all add: add_event_def find_row_def)

lemma event_ok_new:
  "i \<in> ids \<Longrightarrow> event_ok ids k
     \<lparr>el_seq = k, el_task_id = i, el_event_type = encode_event_type et, el_timestamp_ms = now,
      el_message = msg, el_data_json = map_option to_json data\<rparr>"
  by (cases data) (simp_all add: event_ok_def row_to_event_record_def evt.dec_enc from_json_def to_json_def)

lemma event_ok_mono: "event_ok ids k e \<Longrightarrow> ids \<subseteq> ids' \<Longrightarrow> k \<le> k' \<Longrightarrow> event_ok ids' k' e"
  by (auto simp: event_ok_def)

lemma repo_ok_event:
  assumes "insert_event_tx i et msg data now s = Inr t" "repo_ok s"
  shows "repo_ok t"
proof -
  note t = insert_event_tx_Inr [OF assms(1)]
  have ids: "task_ids t = task_ids s" by (simp add: task_ids_def t)
  have i: "i \<in> set (task_ids s)" using t(1) by (simp add: find_row_None)
  have old: "event_ok (set (task_ids s)) (rp_last_seq s) e" "el_seq e \<le> rp_last_seq s"
    if "e \<in> set (rp_events s)" for e
    using assms(2) that by (auto simp: repo_ok_def list_all_iff event_ok_def)
  have "list_all (event_ok (set (task_ids t)) (rp_last_seq t)) (rp_events t)"
    unfolding list_all_iff ids t
    using old i by (auto intro: event_ok_new event_ok_mono [OF old(1)])
  moreover have "sorted_wrt (<) (map el_seq (rp_events t))"
    using assms(2) old by (auto simp: t(4) repo_ok_def sorted_wrt_append dest: old(2))
  ultimately show ?thesis
    using assms(2) by (simp add: repo_ok_def ids t(2))
qed

lemma release_event_cases:
  assumes "release_event i active msg now s = Inr t"
  shows "(active = None \<and> t = s) \<or>
    (\<exists>rv. active = Some (JsonText rv) \<and>
          insert_event_tx i EvResourceReleased (Some msg) (Some (JReservation rv)) now s = Inr t)"
  using assms
  by (auto simp: release_event_def parse_reservation_def res_bind_eq_Inr split: option.splits json_text.splits)

lemma repo_ok_release_event:
  "release_event i active msg now s = Inr t \<Longrightarrow> repo_ok s \<Longrightarrow> repo_ok t"
  using release_event_cases repo_ok_event by metis

subsection \<open>The interface of a row edit\<close>

text \<open>
  An edit of the rows that satisfy a condition: it keeps the key of the row and its well-formedness.
\<close>

locale row_edit =
  fixes guard :: "task_row \<Rightarrow> bool"
    and edit :: "task_row \<Rightarrow> task_row"
  assumes edit_id: "c_task_id (edit r) = c_task_id r"
    and edit_ok: "guard r \<Longrightarrow> row_ok r \<Longrightarrow> row_ok (edit r)"
begin

lemma task_ids_update [simp]: "task_ids (update_task i guard edit s) = task_ids s"
  by (simp add: task_ids_def update_task_def edit_id)

lemma find_row_update:
  "find_row j (update_task i guard edit s) =
     (if j = i then map_option (\<lambda>r. if guard r then edit r else r) (find_row i s) else find_row j s)"
proof -
  have "find (\<lambda>r. c_task_id r = j) (map (\<lambda>r. if c_task_id r = i \<and> guard r then edit r else r) rs) =
     (if j = i then map_option (\<lambda>r. if guard r then edit r else r) (find (\<lambda>r. c_task_id r = i) rs)
      else find (\<lambda>r. c_task_id r = j) rs)" for rs
    by (induction rs) (auto simp: edit_id)
  then show ?thesis by (simp add: find_row_def update_task_def)
qed

lemma repo_ok_update: "repo_ok s \<Longrightarrow> repo_ok (update_task i guard edit s)"
proof -
  assume ok: "repo_ok s"
  have "list_all row_ok (rp_tasks (update_task i guard edit s))"
    using ok by (auto simp: repo_ok_def update_task_def list_all_iff intro: edit_ok)
  with ok show ?thesis by (simp add: repo_ok_def) (simp add: update_task_def)
qed

end

lemmas row_ok_unfold = row_ok_def is_ok_row_to_task_record row_terminal_def

lemma decode_status_strings [simp]:
  "is_ok (decode_status ''running'')" "is_ok (decode_status ''cancelled'')"
  "is_ok (decode_status (encode_status st))" "is_ok (decode_error_code (encode_error_code c))"
  using status.dec_enc [of Running] status.dec_enc [of Cancelled]
  by (simp_all add: status.dec_enc code.dec_enc)

interpretation dispatched: row_edit "\<lambda>r. c_status r = ''accepted''" "dispatched_row shim_pid now"
  for shim_pid now
  by unfold_locales (simp_all add: dispatched_row_def row_ok_unfold)

interpretation started: row_edit "\<lambda>r. True" "started_row pid pgid script_path now"
  for pid pgid script_path now
  by unfold_locales (simp_all add: started_row_def row_ok_unfold)

interpretation reserved: row_edit "\<lambda>r. True" "reserved_row reservation now" for reservation now
  by unfold_locales (simp_all add: reserved_row_def row_ok_unfold)

interpretation released: row_edit "\<lambda>r. True" "released_row now" for now
  by unfold_locales (simp_all add: released_row_def row_ok_unfold)

interpretation cancel_requested: row_edit "\<lambda>r. True" "cancel_requested_row now" for now
  by unfold_locales (simp_all add: cancel_requested_row_def row_ok_unfold)

interpretation timeout: row_edit "\<lambda>r. True" "timeout_row now" for now
  by unfold_locales (simp_all add: timeout_row_def row_ok_unfold)

interpretation recovered: row_edit "\<lambda>r. c_status r = ''running''" "recovered_row now" for now
  by unfold_locales (simp_all add: recovered_row_def row_ok_unfold)

interpretation cancelled: row_edit "\<lambda>r. c_status r = ''accepted''" "cancelled_row error now"
  for error now
  by unfold_locales (simp_all add: cancelled_row_def row_ok_unfold)

interpretation completed: row_edit "\<lambda>r. True" "completed_row u" for u
  by unfold_locales (simp_all add: completed_row_def row_ok_unfold split: option.split)

subsection \<open>Every operation keeps the invariant\<close>

lemma transact_cases:
  "transact body s = (t, Inr u) \<longleftrightarrow> body s = Inr t"
  "transact body s = (t, Inl e) \<longleftrightarrow> body s = Inl e \<and> t = s"
  by (cases "body s"; auto simp: transact_def)+

lemma fst_transact: "fst (transact body s) = (case body s of Inl e \<Rightarrow> s | Inr t \<Rightarrow> t)"
  by (simp add: transact_def split: sum.split)

lemma transact_keeps: "P s \<Longrightarrow> (\<And>t. body s = Inr t \<Longrightarrow> P t) \<Longrightarrow> P (fst (transact body s))"
  by (simp add: fst_transact split: sum.split)

lemma row_ok_new_row: "row_ok (new_row n now)"
  using status.dec_enc [of Accepted]
  by (cases "nt_control_context n") (simp_all add: row_ok_unfold new_row_def)

lemma repo_ok_insert_row:
  assumes "insert_row r s = Inr t" "row_ok r" "repo_ok s"
  shows "repo_ok t"
proof -
  from assms(1) have new: "c_task_id r \<notin> set (task_ids s)" and t: "t = s\<lparr>rp_tasks := rp_tasks s @ [r]\<rparr>"
    by (auto simp: insert_row_def find_row_None split: if_splits)
  have "set (task_ids t) = insert (c_task_id r) (set (task_ids s))"
    by (auto simp: t task_ids_def)
  then have "list_all (event_ok (set (task_ids t)) (rp_last_seq t)) (rp_events t)"
    using assms(3) by (auto simp: t repo_ok_def list_all_iff intro: event_ok_mono)
  with new assms show ?thesis
    by (simp add: t repo_ok_def task_ids_def)
qed

lemmas repo_ok_intros =
  repo_ok_event repo_ok_release_event repo_ok_insert_row row_ok_new_row
  dispatched.repo_ok_update started.repo_ok_update reserved.repo_ok_update released.repo_ok_update
  cancel_requested.repo_ok_update timeout.repo_ok_update recovered.repo_ok_update
  cancelled.repo_ok_update completed.repo_ok_update

lemma delete_task_keeps_ok: "repo_ok s \<Longrightarrow> repo_ok (fst (delete_task i s))"
proof -
  assume "repo_ok s"
  moreover have "sorted_wrt (<) (map el_seq (filter p es))" if "sorted_wrt (<) (map el_seq es)"
    for p and es :: "event_row list"
    using that by (induction es) auto
  ultimately show ?thesis
    by (auto simp: delete_task_def repo_ok_def task_ids_def list_all_iff event_ok_def distinct_map
        intro: inj_on_subset)
qed

end
