(* ===== verification/Policy.thy ===== *)
theory Policy
  imports Types
begin

section \<open>Policy: \<open>src/policy.rs\<close>\<close>

text \<open>
  Negotiation of a request against the capabilities of the runtime. The two mutable variables
  \<open>degraded\<close> and \<open>fallback_reasons\<close> of the code are a pair threaded through the stages;
  a stage that cannot satisfy the request fails in strict mode and records a reason otherwise.
\<close>

type_synonym negotiation = "bool \<times> string list"

text \<open>\<open>degraded = true; fallback_reasons.push(reason)\<close>.\<close>

definition fall_back :: "string \<Rightarrow> negotiation \<Rightarrow> negotiation" where
  "fall_back reason n = (True, snd n @ [reason])"

definition effective_capability_mode :: "SubmitTaskRequest \<Rightarrow> CapabilityMode \<Rightarrow> CapabilityMode" where
  "effective_capability_mode request default_mode =
     unwrap_or (map_option tp_capability_mode (rq_policy request)) default_mode"

definition is_strict :: "SubmitTaskRequest \<Rightarrow> CapabilityMode \<Rightarrow> bool" where
  "is_strict request default_mode =
     (effective_capability_mode request default_mode = Strict \<or>
      unwrap_or (map_option cc_requires_strict_sandbox (rq_control_context request)) False)"

definition namespace_or_fallback ::
    "bool \<Rightarrow> bool \<Rightarrow> bool \<Rightarrow> negotiation \<Rightarrow> string \<Rightarrow> (bool \<times> negotiation) app_result" where
  "namespace_or_fallback requested supported strict n namespace =
     (if \<not> requested then Inr (False, n)
      else if supported then Inr (True, n)
      else if strict then
        Inl (UnsupportedCapability (namespace @ '' namespace is unavailable on this runtime''))
      else Inr (False, fall_back (namespace @ '' namespace is unavailable; running without it'') n))"

text \<open>Lines 29 to 44: the sandbox profile.\<close>

definition negotiate_profile ::
    "RuntimeCapabilities \<Rightarrow> bool \<Rightarrow> SandboxPolicy \<Rightarrow> negotiation \<Rightarrow> (SandboxPolicy \<times> negotiation) app_result" where
  "negotiate_profile caps strict sb n =
     (if sb_profile sb = LinuxSandbox \<and> \<not> sc_linux_sandbox (cp_sandbox caps) then
        if strict then
          Inl (UnsupportedCapability ''sandbox.profile=linux_sandbox is unavailable on this runtime'')
        else
          Inr (sb\<lparr>sb_profile := Process, sb_chroot := False, sb_rootfs := None, sb_namespaces := None\<rparr>,
               fall_back ''linux_sandbox is unavailable; falling back to process sandbox'' n)
      else Inr (sb, n))"

text \<open>Lines 46 to 56: chroot.\<close>

definition negotiate_chroot ::
    "RuntimeCapabilities \<Rightarrow> bool \<Rightarrow> SandboxPolicy \<Rightarrow> negotiation \<Rightarrow> (SandboxPolicy \<times> negotiation) app_result" where
  "negotiate_chroot caps strict sb n =
     (if sb_chroot sb \<and> \<not> sc_chroot (cp_sandbox caps) then
        if strict then
          Inl (UnsupportedCapability ''sandbox.chroot is unavailable on this runtime'')
        else
          Inr (sb\<lparr>sb_chroot := False, sb_rootfs := None\<rparr>,
               fall_back ''chroot is unavailable; running without chroot'' n)
      else Inr (sb, n))"

text \<open>Lines 58 to 103: the namespaces, in the order mount, pid, uts, ipc, net.\<close>

definition negotiate_namespaces ::
    "RuntimeCapabilities \<Rightarrow> bool \<Rightarrow> SandboxPolicy \<Rightarrow> negotiation \<Rightarrow> (SandboxPolicy \<times> negotiation) app_result" where
  "negotiate_namespaces caps strict sb n =
     (if sb_profile sb = LinuxSandbox then
        (let req = effective_namespaces sb; cap = sc_namespaces (cp_sandbox caps)
         in res_bind (namespace_or_fallback (ns_mount req) (nc_mount cap) strict n ''mount'') (\<lambda>(mount, n).
            res_bind (namespace_or_fallback (ns_pid req) (nc_pid cap) strict n ''pid'') (\<lambda>(pid, n).
            res_bind (namespace_or_fallback (ns_uts req) (nc_uts cap) strict n ''uts'') (\<lambda>(uts, n).
            res_bind (namespace_or_fallback (ns_ipc req) (nc_ipc cap) strict n ''ipc'') (\<lambda>(ipc, n).
            res_bind (namespace_or_fallback (ns_net req) (nc_net cap) strict n ''net'') (\<lambda>(net, n).
            Inr (sb\<lparr>sb_namespaces := Some \<lparr>ns_mount = mount, ns_pid = pid, ns_uts = uts,
                      ns_ipc = ipc, ns_net = net\<rparr>\<rparr>, n)))))))
      else Inr (sb, n))"

text \<open>Lines 117 to 145: one resource limit that may not be enforceable.\<close>

definition negotiate_limit ::
    "bool \<Rightarrow> bool \<Rightarrow> bool \<Rightarrow> string \<Rightarrow> string \<Rightarrow> negotiation \<Rightarrow> negotiation app_result" where
  "negotiate_limit requested enforced strict err reason n =
     (if requested \<and> \<not> enforced then
        if strict then Inl (UnsupportedCapability err) else Inr (fall_back reason n)
      else Inr n)"

text \<open>Lines 105 to 115: what will be enforced.\<close>

definition plan_cgroup_enforced :: "RuntimeCapabilities \<Rightarrow> SandboxPolicy \<Rightarrow> bool" where
  "plan_cgroup_enforced caps sb =
     (sb_profile sb = LinuxSandbox \<and> rs_cgroup_writable (cp_resources caps))"

definition plan_cpu_time_enforced :: "RuntimeCapabilities \<Rightarrow> ResourceLimits \<Rightarrow> bool" where
  "plan_cpu_time_enforced caps limits =
     (rl_cpu_time_sec limits = None \<or> rs_rlimit_cpu (cp_resources caps))"

definition plan_memory_enforced :: "RuntimeCapabilities \<Rightarrow> ResourceLimits \<Rightarrow> bool" where
  "plan_memory_enforced caps limits =
     (rl_memory_bytes limits = None \<or> rs_rlimit_memory (cp_resources caps))"

definition plan_pids_enforced :: "RuntimeCapabilities \<Rightarrow> SandboxPolicy \<Rightarrow> ResourceLimits \<Rightarrow> bool" where
  "plan_pids_enforced caps sb limits =
     (rl_pids_max limits = None \<or>
      (plan_cgroup_enforced caps sb \<and> rs_pids_limit (cp_resources caps)))"

definition plan_oom_detection :: "RuntimeCapabilities \<Rightarrow> SandboxPolicy \<Rightarrow> ResourceLimits \<Rightarrow> bool" where
  "plan_oom_detection caps sb limits =
     (rl_memory_bytes limits \<noteq> None \<and> plan_cgroup_enforced caps sb \<and>
      rs_oom_detection (cp_resources caps))"

text \<open>Lines 117 to 145: the three limits in order.\<close>

definition negotiate_limits ::
    "RuntimeCapabilities \<Rightarrow> bool \<Rightarrow> SandboxPolicy \<Rightarrow> ResourceLimits \<Rightarrow> negotiation \<Rightarrow> negotiation app_result" where
  "negotiate_limits caps strict sb limits n =
     res_bind (negotiate_limit (rl_cpu_time_sec limits \<noteq> None) (plan_cpu_time_enforced caps limits) strict
         ''cpu_time_sec enforcement is unavailable on this runtime''
         ''cpu_time_sec enforcement is unavailable'' n) (\<lambda>n.
     res_bind (negotiate_limit (rl_memory_bytes limits \<noteq> None) (plan_memory_enforced caps limits) strict
         ''memory_bytes enforcement is unavailable on this runtime''
         ''memory_bytes enforcement is unavailable'' n) (\<lambda>n.
     negotiate_limit (rl_pids_max limits \<noteq> None) (plan_pids_enforced caps sb limits) strict
         ''pids_max enforcement requires writable cgroup support''
         ''pids_max enforcement requires writable cgroup support'' n))"

text \<open>Lines 147 to 165: the plan.\<close>

definition assemble_plan ::
    "SubmitTaskRequest \<Rightarrow> RuntimeCapabilities \<Rightarrow> CapabilityMode \<Rightarrow> SandboxPolicy \<Rightarrow> negotiation \<Rightarrow> ExecutionPlan" where
  "assemble_plan request caps default_mode sb n =
     (let limits = rq_limits request
      in \<lparr>pl_capability_mode = effective_capability_mode request default_mode,
          pl_requested_sandbox = rq_sandbox request,
          pl_effective_sandbox = sb,
          pl_resource_enforcement =
            \<lparr>ep_wall_time_ms = rl_wall_time_ms limits,
             ep_cpu_time_sec = rl_cpu_time_sec limits,
             ep_cpu_time_enforced = (rl_cpu_time_sec limits \<noteq> None \<and> plan_cpu_time_enforced caps limits),
             ep_memory_bytes = rl_memory_bytes limits,
             ep_memory_enforced = (rl_memory_bytes limits \<noteq> None \<and> plan_memory_enforced caps limits),
             ep_pids_max = rl_pids_max limits,
             ep_pids_enforced = (rl_pids_max limits \<noteq> None \<and> plan_pids_enforced caps sb limits),
             ep_cgroup_enforced = plan_cgroup_enforced caps sb,
             ep_oom_detection = plan_oom_detection caps sb limits\<rparr>,
          pl_degraded = fst n,
          pl_fallback_reasons = snd n,
          pl_capability_warnings = cp_warnings caps\<rparr>)"

definition resolve_execution_plan ::
    "SubmitTaskRequest \<Rightarrow> RuntimeCapabilities \<Rightarrow> CapabilityMode \<Rightarrow> ExecutionPlan app_result" where
  "resolve_execution_plan request caps default_mode =
     (let strict = is_strict request default_mode
      in res_bind (negotiate_profile caps strict (rq_sandbox request) (False, [])) (\<lambda>(sb, n).
         res_bind (negotiate_chroot caps strict sb n) (\<lambda>(sb, n).
         res_bind (negotiate_namespaces caps strict sb n) (\<lambda>(sb, n).
         res_bind (negotiate_limits caps strict sb (rq_limits request) n) (\<lambda>n.
         Inr (assemble_plan request caps default_mode sb n))))))"

subsection \<open>The specification: what the runtime can satisfy\<close>

definition namespaces_supported :: "NamespaceCapabilities \<Rightarrow> NamespaceConfig \<Rightarrow> bool" where
  "namespaces_supported cap ns =
     ((ns_mount ns \<longrightarrow> nc_mount cap) \<and> (ns_pid ns \<longrightarrow> nc_pid cap) \<and> (ns_uts ns \<longrightarrow> nc_uts cap) \<and>
      (ns_ipc ns \<longrightarrow> nc_ipc cap) \<and> (ns_net ns \<longrightarrow> nc_net cap))"

definition sandbox_supported :: "RuntimeCapabilities \<Rightarrow> SandboxPolicy \<Rightarrow> bool" where
  "sandbox_supported caps sb =
     ((sb_profile sb = LinuxSandbox \<longrightarrow>
         sc_linux_sandbox (cp_sandbox caps) \<and>
         namespaces_supported (sc_namespaces (cp_sandbox caps)) (effective_namespaces sb)) \<and>
      (sb_chroot sb \<longrightarrow> sc_chroot (cp_sandbox caps)))"

definition limits_supported :: "RuntimeCapabilities \<Rightarrow> SandboxPolicy \<Rightarrow> ResourceLimits \<Rightarrow> bool" where
  "limits_supported caps sb limits =
     ((rl_cpu_time_sec limits \<noteq> None \<longrightarrow> rs_rlimit_cpu (cp_resources caps)) \<and>
      (rl_memory_bytes limits \<noteq> None \<longrightarrow> rs_rlimit_memory (cp_resources caps)) \<and>
      (rl_pids_max limits \<noteq> None \<longrightarrow>
         sb_profile sb = LinuxSandbox \<and> rs_cgroup_writable (cp_resources caps) \<and>
         rs_pids_limit (cp_resources caps)))"

definition request_supported :: "RuntimeCapabilities \<Rightarrow> SubmitTaskRequest \<Rightarrow> bool" where
  "request_supported caps request =
     (sandbox_supported caps (rq_sandbox request) \<and>
      limits_supported caps (rq_sandbox request) (rq_limits request))"

text \<open>The sandbox the plan runs with when nothing has to be given up: namespaces made explicit.\<close>

definition explicit_sandbox :: "SandboxPolicy \<Rightarrow> SandboxPolicy" where
  "explicit_sandbox sb =
     (if sb_profile sb = LinuxSandbox then sb\<lparr>sb_namespaces := Some (effective_namespaces sb)\<rparr> else sb)"

text \<open>The namespaces of the request that the runtime has.\<close>

definition meet_namespaces :: "NamespaceCapabilities \<Rightarrow> NamespaceConfig \<Rightarrow> NamespaceConfig" where
  "meet_namespaces cap ns =
     \<lparr>ns_mount = (ns_mount ns \<and> nc_mount cap), ns_pid = (ns_pid ns \<and> nc_pid cap),
      ns_uts = (ns_uts ns \<and> nc_uts cap), ns_ipc = (ns_ipc ns \<and> nc_ipc cap),
      ns_net = (ns_net ns \<and> nc_net cap)\<rparr>"

text \<open>What is left of a sandbox on a runtime: the three fallbacks in order.\<close>

definition profile_fallback :: "RuntimeCapabilities \<Rightarrow> SandboxPolicy \<Rightarrow> SandboxPolicy" where
  "profile_fallback caps sb =
     (if sb_profile sb = LinuxSandbox \<longrightarrow> sc_linux_sandbox (cp_sandbox caps) then sb
      else sb\<lparr>sb_profile := Process, sb_chroot := False, sb_rootfs := None, sb_namespaces := None\<rparr>)"

definition chroot_fallback :: "RuntimeCapabilities \<Rightarrow> SandboxPolicy \<Rightarrow> SandboxPolicy" where
  "chroot_fallback caps sb =
     (if sb_chroot sb \<longrightarrow> sc_chroot (cp_sandbox caps) then sb
      else sb\<lparr>sb_chroot := False, sb_rootfs := None\<rparr>)"

definition namespaces_fallback :: "RuntimeCapabilities \<Rightarrow> SandboxPolicy \<Rightarrow> SandboxPolicy" where
  "namespaces_fallback caps sb =
     (if sb_profile sb = LinuxSandbox
      then sb\<lparr>sb_namespaces :=
             Some (meet_namespaces (sc_namespaces (cp_sandbox caps)) (effective_namespaces sb))\<rparr>
      else sb)"

definition effective_sandbox :: "RuntimeCapabilities \<Rightarrow> SandboxPolicy \<Rightarrow> SandboxPolicy" where
  "effective_sandbox caps sb = namespaces_fallback caps (chroot_fallback caps (profile_fallback caps sb))"

subsection \<open>The contract of a stage\<close>

text \<open>
  \<open>ok\<close> says whether the capability is there. If it is, the stage leaves the negotiation alone;
  otherwise it fails in strict mode and records a degradation in adaptive mode. Either way the
  value it computes is the same.
\<close>

definition noted :: "negotiation \<Rightarrow> bool" where
  "noted n = (fst n \<and> snd n \<noteq> [])"

definition stage :: "bool \<Rightarrow> bool \<Rightarrow> negotiation \<Rightarrow> 'a \<Rightarrow> ('a \<times> negotiation) app_result \<Rightarrow> bool" where
  "stage strict ok n x res =
     (if ok then res = Inr (x, n)
      else if strict then (\<exists>m. res = Inl (UnsupportedCapability m))
      else (case res of Inl _ \<Rightarrow> False | Inr p \<Rightarrow> fst p = x \<and> noted (snd p)))"

lemma noted_fall_back [simp]: "noted (fall_back m n)"
  by (simp add: noted_def fall_back_def)

lemma stage_return: "stage strict True n x (Inr (x, n))"
  by (simp add: stage_def)

lemma stage_bind:
  assumes "stage strict ok n x res"
    and "\<And>n'. stage strict ok' n' y (k (x, n'))"
  shows "stage strict (ok \<and> ok') n y (res_bind res k)"
proof (cases ok)
  case True
  with assms(1) have "res_bind res k = k (x, n)" by (simp add: stage_def)
  with True assms(2) [of n] show ?thesis by (simp only: simp_thms)
next
  case False
  show ?thesis
  proof (cases strict)
    case True
    with False assms(1) show ?thesis by (auto simp: stage_def)
  next
    case adaptive: False
    with False assms(1) obtain n' where "res = Inr (x, n')" "noted n'"
      by (cases res) (auto simp: stage_def)
    with False adaptive assms(2) [of n'] show ?thesis
      by (cases ok') (auto simp: stage_def)
  qed
qed

lemma stage_bind_case:
  assumes "stage strict ok n x res"
    and "\<And>n'. stage strict ok' n' y (k x n')"
  shows "stage strict (ok \<and> ok') n y (res_bind res (\<lambda>(a, b). k a b))"
  using assms by (intro stage_bind) auto

lemma stage_profile:
  "stage strict (sb_profile sb = LinuxSandbox \<longrightarrow> sc_linux_sandbox (cp_sandbox caps)) n
     (profile_fallback caps sb) (negotiate_profile caps strict sb n)"
  unfolding stage_def negotiate_profile_def profile_fallback_def
  by auto

lemma stage_chroot:
  "stage strict (sb_chroot sb \<longrightarrow> sc_chroot (cp_sandbox caps)) n
     (chroot_fallback caps sb) (negotiate_chroot caps strict sb n)"
  by (auto simp: stage_def negotiate_chroot_def chroot_fallback_def)

lemma stage_namespace:
  "stage strict (requested \<longrightarrow> supported) n (requested \<and> supported)
     (namespace_or_fallback requested supported strict n name)"
  by (auto simp: stage_def namespace_or_fallback_def)

lemma stage_limit:
  "stage strict (requested \<longrightarrow> enforced) n ()
     (res_bind (negotiate_limit requested enforced strict err reason n) (\<lambda>n. Inr ((), n)))"
  by (auto simp: stage_def negotiate_limit_def)

lemma stage_namespaces:
  "stage strict
     (sb_profile sb = LinuxSandbox \<longrightarrow>
        namespaces_supported (sc_namespaces (cp_sandbox caps)) (effective_namespaces sb)) n
     (namespaces_fallback caps sb) (negotiate_namespaces caps strict sb n)"
proof (cases "sb_profile sb = LinuxSandbox")
  case True
  let ?req = "effective_namespaces sb" and ?cap = "sc_namespaces (cp_sandbox caps)"
  have "stage strict
      ((ns_mount ?req \<longrightarrow> nc_mount ?cap) \<and> (ns_pid ?req \<longrightarrow> nc_pid ?cap) \<and> (ns_uts ?req \<longrightarrow> nc_uts ?cap) \<and>
       (ns_ipc ?req \<longrightarrow> nc_ipc ?cap) \<and> (ns_net ?req \<longrightarrow> nc_net ?cap) \<and> True) n
      (namespaces_fallback caps sb) (negotiate_namespaces caps strict sb n)"
    unfolding negotiate_namespaces_def namespaces_fallback_def meet_namespaces_def Let_def
      if_P [OF True]
    by (rule stage_bind_case, rule stage_namespace)+ (rule stage_return)
  with True show ?thesis by (simp add: namespaces_supported_def)
next
  case False
  then show ?thesis by (simp add: negotiate_namespaces_def namespaces_fallback_def stage_def)
qed

lemma stage_limits:
  "stage strict (limits_supported caps sb limits) n ()
     (res_bind (negotiate_limits caps strict sb limits n) (\<lambda>n. Inr ((), n)))"
proof -
  let ?l = "\<lambda>requested enforced err reason n.
      res_bind (negotiate_limit requested enforced strict err reason n) (\<lambda>n. Inr ((), n))"
  have eq: "res_bind (negotiate_limits caps strict sb limits n) (\<lambda>n. Inr ((), n)) =
      res_bind (?l (rl_cpu_time_sec limits \<noteq> None) (plan_cpu_time_enforced caps limits)
          ''cpu_time_sec enforcement is unavailable on this runtime''
          ''cpu_time_sec enforcement is unavailable'' n) (\<lambda>(u, n).
      res_bind (?l (rl_memory_bytes limits \<noteq> None) (plan_memory_enforced caps limits)
          ''memory_bytes enforcement is unavailable on this runtime''
          ''memory_bytes enforcement is unavailable'' n) (\<lambda>(u, n).
      ?l (rl_pids_max limits \<noteq> None) (plan_pids_enforced caps sb limits)
          ''pids_max enforcement requires writable cgroup support''
          ''pids_max enforcement requires writable cgroup support'' n))"
    by (simp add: negotiate_limits_def res_bind_def split: sum.split)
  have "stage strict
      ((rl_cpu_time_sec limits \<noteq> None \<longrightarrow> plan_cpu_time_enforced caps limits) \<and>
       (rl_memory_bytes limits \<noteq> None \<longrightarrow> plan_memory_enforced caps limits) \<and>
       (rl_pids_max limits \<noteq> None \<longrightarrow> plan_pids_enforced caps sb limits)) n ()
      (res_bind (negotiate_limits caps strict sb limits n) (\<lambda>n. Inr ((), n)))"
    unfolding eq by (rule stage_bind_case, rule stage_limit)+ (rule stage_limit)
  moreover have "((rl_cpu_time_sec limits \<noteq> None \<longrightarrow> plan_cpu_time_enforced caps limits) \<and>
       (rl_memory_bytes limits \<noteq> None \<longrightarrow> plan_memory_enforced caps limits) \<and>
       (rl_pids_max limits \<noteq> None \<longrightarrow> plan_pids_enforced caps sb limits)) =
      limits_supported caps sb limits"
    by (auto simp: limits_supported_def plan_cpu_time_enforced_def plan_memory_enforced_def
        plan_pids_enforced_def plan_cgroup_enforced_def)
  ultimately show ?thesis by (simp only:)
qed

lemma fallbacks_keep [simp]:
  "sb_profile (chroot_fallback caps sb) = sb_profile sb"
  "sb_namespaces (chroot_fallback caps sb) = sb_namespaces sb"
  "sb_profile (namespaces_fallback caps sb) = sb_profile sb"
  "sb_chroot (namespaces_fallback caps sb) = sb_chroot sb"
  "effective_namespaces (chroot_fallback caps sb) = effective_namespaces sb"
  by (simp_all add: chroot_fallback_def namespaces_fallback_def effective_namespaces_def)

lemma stage_sandbox:
  "stage strict
     ((sb_profile sb = LinuxSandbox \<longrightarrow> sc_linux_sandbox (cp_sandbox caps)) \<and>
      (sb_chroot (profile_fallback caps sb) \<longrightarrow> sc_chroot (cp_sandbox caps)) \<and>
      (sb_profile (profile_fallback caps sb) = LinuxSandbox \<longrightarrow>
         namespaces_supported (sc_namespaces (cp_sandbox caps))
           (effective_namespaces (profile_fallback caps sb))) \<and>
      limits_supported caps (effective_sandbox caps sb) limits) n
     (effective_sandbox caps sb)
     (res_bind (negotiate_profile caps strict sb n) (\<lambda>(sb, n).
      res_bind (negotiate_chroot caps strict sb n) (\<lambda>(sb, n).
      res_bind (negotiate_namespaces caps strict sb n) (\<lambda>(sb, n).
      res_bind (negotiate_limits caps strict sb limits n) (\<lambda>n. Inr (sb, n))))))"
proof -
  have limits: "stage strict (limits_supported caps sb limits) n sb
      (res_bind (negotiate_limits caps strict sb limits n) (\<lambda>n. Inr (sb, n)))" for sb n
    using stage_limits [of strict caps sb limits n]
    by (cases "negotiate_limits caps strict sb limits n") (auto simp: stage_def split: if_splits)
  show ?thesis
    unfolding effective_sandbox_def
    by (rule stage_bind_case, rule stage_profile, rule stage_bind_case, rule stage_chroot,
        rule stage_bind_case, rule stage_namespaces [where sb = "chroot_fallback caps s" for s, simplified],
        rule limits)
qed

text \<open>The outcome of a negotiation, in all its cases.\<close>

lemma resolve_outcome:
  defines "sb' \<equiv> \<lambda>caps request. effective_sandbox caps (rq_sandbox request)"
  shows "if request_supported caps request
         then resolve_execution_plan request caps mode =
                Inr (assemble_plan request caps mode (sb' caps request) (False, []))
         else if is_strict request mode
         then \<exists>m. resolve_execution_plan request caps mode = Inl (UnsupportedCapability m)
         else \<exists>n. noted n \<and> resolve_execution_plan request caps mode =
                Inr (assemble_plan request caps mode (sb' caps request) n)"
proof -
  let ?sb = "rq_sandbox request" and ?strict = "is_strict request mode"
  let ?core = "res_bind (negotiate_profile caps ?strict ?sb (False, [])) (\<lambda>(sb, n).
      res_bind (negotiate_chroot caps ?strict sb n) (\<lambda>(sb, n).
      res_bind (negotiate_namespaces caps ?strict sb n) (\<lambda>(sb, n).
      res_bind (negotiate_limits caps ?strict sb (rq_limits request) n) (\<lambda>n. Inr (sb, n)))))"
  have split: "resolve_execution_plan request caps mode =
      res_bind ?core (\<lambda>(sb, n). Inr (assemble_plan request caps mode sb n))"
    by (simp add: resolve_execution_plan_def res_bind_def Let_def split: sum.split prod.split)
  have "stage ?strict (request_supported caps request) (False, []) (effective_sandbox caps ?sb) ?core"
  proof -
    have "(sb_profile ?sb = LinuxSandbox \<longrightarrow> sc_linux_sandbox (cp_sandbox caps)) \<and>
        (sb_chroot (profile_fallback caps ?sb) \<longrightarrow> sc_chroot (cp_sandbox caps)) \<and>
        (sb_profile (profile_fallback caps ?sb) = LinuxSandbox \<longrightarrow>
           namespaces_supported (sc_namespaces (cp_sandbox caps))
             (effective_namespaces (profile_fallback caps ?sb))) \<and>
        limits_supported caps (effective_sandbox caps ?sb) (rq_limits request) \<longleftrightarrow>
        request_supported caps request"
      by (auto simp: request_supported_def sandbox_supported_def profile_fallback_def
          limits_supported_def effective_sandbox_def)
    with stage_sandbox [of ?strict ?sb caps "rq_limits request" "(False, [])"] show ?thesis
      by simp
  qed
  then show ?thesis
    unfolding split sb'_def stage_def
    by (cases ?core) (auto split: if_splits, blast)
qed

lemma assemble_plan_sel [simp]:
  "pl_capability_mode (assemble_plan r c m sb n) = effective_capability_mode r m"
  "pl_requested_sandbox (assemble_plan r c m sb n) = rq_sandbox r"
  "pl_effective_sandbox (assemble_plan r c m sb n) = sb"
  "pl_degraded (assemble_plan r c m sb n) = fst n"
  "pl_fallback_reasons (assemble_plan r c m sb n) = snd n"
  by (simp_all add: assemble_plan_def Let_def)

lemma effective_sandbox_supported: "sandbox_supported caps (effective_sandbox caps sb)"
  by (auto simp: sandbox_supported_def effective_sandbox_def profile_fallback_def chroot_fallback_def
      namespaces_fallback_def namespaces_supported_def meet_namespaces_def effective_namespaces_def)

lemma meet_namespaces_id: "namespaces_supported cap ns \<Longrightarrow> meet_namespaces cap ns = ns"
  by (auto simp: namespaces_supported_def meet_namespaces_def)

lemma effective_sandbox_id:
  "sandbox_supported caps sb \<Longrightarrow> effective_sandbox caps sb = explicit_sandbox sb"
  by (auto simp: sandbox_supported_def effective_sandbox_def profile_fallback_def chroot_fallback_def
      namespaces_fallback_def explicit_sandbox_def meet_namespaces_id)

lemma explicit_sandbox_idem: "explicit_sandbox (effective_sandbox caps sb) = effective_sandbox caps sb"
  by (auto simp: explicit_sandbox_def effective_sandbox_def namespaces_fallback_def
      effective_namespaces_def)

lemma resolve_InrD:
  assumes "resolve_execution_plan request caps mode = Inr plan"
  shows "\<exists>n. plan = assemble_plan request caps mode (effective_sandbox caps (rq_sandbox request)) n \<and>
             (if request_supported caps request then n = (False, [])
              else \<not> is_strict request mode \<and> noted n)"
proof -
  let ?sb = "effective_sandbox caps (rq_sandbox request)"
  consider "request_supported caps request" "plan = assemble_plan request caps mode ?sb (False, [])"
    | n where "\<not> request_supported caps request" "\<not> is_strict request mode" "noted n"
        "plan = assemble_plan request caps mode ?sb n"
    using resolve_outcome [of caps request mode] assms by (auto split: if_splits)
  then show ?thesis by cases auto
qed

subsection \<open>Properties\<close>

text \<open>C22: in strict mode (by policy, by default or by the control context) a request is accepted
  exactly when the runtime has every capability it asks for, and is otherwise rejected with
  \<open>UnsupportedCapability\<close>; an accepted one runs undegraded in the sandbox it asked for.\<close>

theorem strict_resolution:
  assumes "is_strict request mode"
  shows "if request_supported caps request
         then \<exists>plan. resolve_execution_plan request caps mode = Inr plan \<and>
                pl_effective_sandbox plan = explicit_sandbox (rq_sandbox request) \<and>
                \<not> pl_degraded plan \<and> pl_fallback_reasons plan = []
         else \<exists>m. resolve_execution_plan request caps mode = Inl (UnsupportedCapability m)"
  using resolve_outcome [of caps request mode] assms
  by (auto simp: request_supported_def effective_sandbox_id split: if_splits)

text \<open>C23: in adaptive mode negotiation never fails, and the plan says truthfully whether anything
  was given up: it is marked degraded, with at least one reason, exactly when the runtime lacks
  a requested capability.\<close>

theorem adaptive_resolution:
  assumes "\<not> is_strict request mode"
  shows "\<exists>plan. resolve_execution_plan request caps mode = Inr plan \<and>
           pl_degraded plan = (\<not> request_supported caps request) \<and>
           (pl_fallback_reasons plan \<noteq> []) = (\<not> request_supported caps request) \<and>
           pl_requested_sandbox plan = rq_sandbox request"
  using resolve_outcome [of caps request mode] assms
  by (auto simp: noted_def split: if_splits)

text \<open>The same facts one by one, for the proofs about the processes that run under a plan.\<close>

lemma resolved_sandbox_supported:
  assumes "resolve_execution_plan request caps mode = Inr plan"
  shows "sandbox_supported caps (pl_effective_sandbox plan)"
  using resolve_InrD [OF assms] by (auto simp: effective_sandbox_supported)

lemma enforcement_exact:
  assumes "resolve_execution_plan request caps mode = Inr plan"
  defines "e \<equiv> pl_resource_enforcement plan" and "limits \<equiv> rq_limits request" and "rs \<equiv> cp_resources caps"
  shows "ep_cpu_time_enforced e = (rl_cpu_time_sec limits \<noteq> None \<and> rs_rlimit_cpu rs)"
    "ep_memory_enforced e = (rl_memory_bytes limits \<noteq> None \<and> rs_rlimit_memory rs)"
    "ep_pids_enforced e = (rl_pids_max limits \<noteq> None \<and> ep_cgroup_enforced e \<and> rs_pids_limit rs)"
    "ep_oom_detection e = (rl_memory_bytes limits \<noteq> None \<and> ep_cgroup_enforced e \<and> rs_oom_detection rs)"
    "ep_cgroup_enforced e = (sb_profile (pl_effective_sandbox plan) = LinuxSandbox \<and> rs_cgroup_writable rs)"
    "ep_wall_time_ms e = rl_wall_time_ms limits" "ep_cpu_time_sec e = rl_cpu_time_sec limits"
    "ep_memory_bytes e = rl_memory_bytes limits" "ep_pids_max e = rl_pids_max limits"
proof -
  obtain n where plan: "plan = assemble_plan request caps mode (effective_sandbox caps (rq_sandbox request)) n"
    using resolve_InrD [OF assms(1)] by blast
  note unfold = e_def limits_def rs_def plan assemble_plan_def plan_cpu_time_enforced_def plan_memory_enforced_def
    plan_pids_enforced_def plan_oom_detection_def plan_cgroup_enforced_def
  show "ep_cpu_time_enforced e = (rl_cpu_time_sec limits \<noteq> None \<and> rs_rlimit_cpu rs)"
    "ep_memory_enforced e = (rl_memory_bytes limits \<noteq> None \<and> rs_rlimit_memory rs)"
    "ep_pids_enforced e = (rl_pids_max limits \<noteq> None \<and> ep_cgroup_enforced e \<and> rs_pids_limit rs)"
    "ep_oom_detection e = (rl_memory_bytes limits \<noteq> None \<and> ep_cgroup_enforced e \<and> rs_oom_detection rs)"
    "ep_cgroup_enforced e = (sb_profile (pl_effective_sandbox plan) = LinuxSandbox \<and> rs_cgroup_writable rs)"
    "ep_wall_time_ms e = rl_wall_time_ms limits" "ep_cpu_time_sec e = rl_cpu_time_sec limits"
    "ep_memory_bytes e = rl_memory_bytes limits" "ep_pids_max e = rl_pids_max limits"
    by (auto simp: unfold Let_def)
qed

lemma resolved_enforcement:
  assumes "resolve_execution_plan request caps mode = Inr plan"
  defines "e \<equiv> pl_resource_enforcement plan"
  shows "ep_cpu_time_enforced e \<Longrightarrow> ep_cpu_time_sec e \<noteq> None \<and> rs_rlimit_cpu (cp_resources caps)"
    "ep_memory_enforced e \<Longrightarrow> ep_memory_bytes e \<noteq> None \<and> rs_rlimit_memory (cp_resources caps)"
    "ep_pids_enforced e \<Longrightarrow> ep_pids_max e \<noteq> None \<and> ep_cgroup_enforced e"
    "ep_oom_detection e \<Longrightarrow> ep_memory_bytes e \<noteq> None \<and> ep_cgroup_enforced e"
    "ep_cgroup_enforced e \<Longrightarrow>
       sb_profile (pl_effective_sandbox plan) = LinuxSandbox \<and> rs_cgroup_writable (cp_resources caps)"
  by (simp_all add: e_def enforcement_exact [OF assms(1)])

text \<open>C18: no plan asks for what the runtime does not have, and none leaves out what it could have
  enforced: the effective sandbox of every plan is supported; its limits are those of the request;
  the limit of processor time, that of memory, and that of processes are marked as enforced exactly
  when they were asked for and the runtime can enforce them, that of processes and the detection of
  out-of-memory kills only through a cgroup; and there is a cgroup exactly for a Linux sandbox on a
  runtime whose cgroup is writable.\<close>

theorem plan_is_enforceable:
  assumes "resolve_execution_plan request caps mode = Inr plan"
  shows "sandbox_supported caps (pl_effective_sandbox plan) \<and>
         (let e = pl_resource_enforcement plan; limits = rq_limits request; rs = cp_resources caps
          in ep_cpu_time_enforced e = (rl_cpu_time_sec limits \<noteq> None \<and> rs_rlimit_cpu rs) \<and>
             ep_memory_enforced e = (rl_memory_bytes limits \<noteq> None \<and> rs_rlimit_memory rs) \<and>
             ep_pids_enforced e = (rl_pids_max limits \<noteq> None \<and> ep_cgroup_enforced e \<and> rs_pids_limit rs) \<and>
             ep_oom_detection e = (rl_memory_bytes limits \<noteq> None \<and> ep_cgroup_enforced e \<and> rs_oom_detection rs) \<and>
             ep_cgroup_enforced e =
               (sb_profile (pl_effective_sandbox plan) = LinuxSandbox \<and> rs_cgroup_writable rs) \<and>
             ep_wall_time_ms e = rl_wall_time_ms limits \<and> ep_cpu_time_sec e = rl_cpu_time_sec limits \<and>
             ep_memory_bytes e = rl_memory_bytes limits \<and> ep_pids_max e = rl_pids_max limits)"
  using resolved_sandbox_supported [OF assms] enforcement_exact [OF assms] by (simp add: Let_def)

text \<open>Negotiation is stable: submitting a request again with the sandbox that was negotiated
  for it yields the same sandbox, and a sandbox that passed validation still passes it.\<close>

theorem renegotiation_stable:
  assumes "resolve_execution_plan request caps mode = Inr plan"
    and "resolve_execution_plan (request\<lparr>rq_sandbox := pl_effective_sandbox plan\<rparr>) caps mode = Inr plan'"
  shows "pl_effective_sandbox plan' = pl_effective_sandbox plan \<and>
         (validate_sandbox (rq_sandbox request) = Inr () \<longrightarrow>
          validate_sandbox (pl_effective_sandbox plan) = Inr ())"
proof -
  have eff: "pl_effective_sandbox plan = effective_sandbox caps (rq_sandbox request)"
    using resolve_InrD [OF assms(1)] by auto
  have "pl_effective_sandbox plan' = effective_sandbox caps (pl_effective_sandbox plan)"
    using resolve_InrD [OF assms(2)] by auto
  then have "pl_effective_sandbox plan' = pl_effective_sandbox plan"
    using effective_sandbox_supported [of caps "rq_sandbox request"]
    by (simp add: eff effective_sandbox_id explicit_sandbox_idem)
  moreover have "validate_sandbox (effective_sandbox caps sb) = Inr ()"
    if "validate_sandbox sb = Inr ()" for sb
    using that
    by (auto simp: validate_sandbox_def res_bind_eq_Inr effective_sandbox_def profile_fallback_def
        chroot_fallback_def namespaces_fallback_def trimmed_or_empty_def)
  ultimately show ?thesis by (simp add: eff)
qed

subsection \<open>Witnesses\<close>

text \<open>A request for a Linux sandbox with a process limit, and a runtime without and with the means.\<close>

definition sample_request :: SubmitTaskRequest where
  "sample_request =
     \<lparr>rq_task_id = Some ''t1'',
      rq_execution = \<lparr>es_kind = Command, es_program = Some ''/bin/echo'', es_args = [''ok''],
        es_script = None, es_interpreter = None, es_env = []\<rparr>,
      rq_limits = default_resource_limits\<lparr>rl_pids_max := Some 8\<rparr>,
      rq_sandbox = default_sandbox_policy\<lparr>sb_profile := LinuxSandbox\<rparr>,
      rq_policy = None, rq_control_context = None, rq_metadata = []\<rparr>"

definition sample_capabilities :: "bool \<Rightarrow> RuntimeCapabilities" where
  "sample_capabilities linux =
     \<lparr>cp_runtime_id = ''test'', cp_snapshot_version = ''v1'', cp_collected_at = 0,
      cp_platform = \<lparr>pf_os = ''linux'', pf_arch = ''x86_64'', pf_containerized = False,
        pf_kubernetes = False\<rparr>,
      cp_execution = \<lparr>xc_command = True, xc_script = True, xc_process_group = True\<rparr>,
      cp_sandbox = \<lparr>sc_process = True, sc_linux_sandbox = linux, sc_chroot = linux,
        sc_namespaces = \<lparr>nc_mount = linux, nc_pid = linux, nc_uts = linux, nc_ipc = linux,
          nc_net = linux\<rparr>\<rparr>,
      cp_storage = \<lparr>st_data_dir_writable = True\<rparr>,
      cp_resources = \<lparr>rs_rlimit_cpu = True, rs_rlimit_memory = True, rs_cgroup_v2 = linux,
        rs_cgroup_writable = linux, rs_memory_limit = True, rs_pids_limit = linux,
        rs_oom_detection = linux, rs_cpu_quota = False, rs_ledger = True,
        rs_capacity = \<lparr>rc_task_slots = 4, rc_memory_bytes = Some 1024, rc_pids = Some 64\<rparr>\<rparr>,
      cp_stable_semantics = [], cp_enhanced_semantics = [], cp_warnings = [],
      cp_degraded = False, cp_overrides = []\<rparr>"

lemmas sample_defs = sample_request_def sample_capabilities_def default_resource_limits_def
  default_sandbox_policy_def default_namespace_config_def effective_namespaces_def

lemma sample_supported: "request_supported (sample_capabilities linux) sample_request = linux"
  by (simp add: request_supported_def sandbox_supported_def limits_supported_def
      namespaces_supported_def sample_defs)

theorem strict_resolution_witness:
  "is_strict sample_request Strict \<and>
   (\<exists>m. resolve_execution_plan sample_request (sample_capabilities False) Strict =
          Inl (UnsupportedCapability m)) \<and>
   (\<exists>plan. resolve_execution_plan sample_request (sample_capabilities True) Strict = Inr plan)"
proof -
  have s: "is_strict sample_request Strict"
    by (simp add: is_strict_def effective_capability_mode_def sample_request_def)
  show ?thesis
    using s strict_resolution [OF s, of "sample_capabilities False"]
      strict_resolution [OF s, of "sample_capabilities True"]
    by (auto simp: sample_supported)
qed

theorem adaptive_resolution_witness:
  "\<not> is_strict sample_request Adaptive \<and>
   (\<exists>plan. resolve_execution_plan sample_request (sample_capabilities False) Adaptive = Inr plan \<and>
      pl_degraded plan)"
proof -
  have s: "\<not> is_strict sample_request Adaptive"
    by (simp add: is_strict_def effective_capability_mode_def sample_request_def)
  show ?thesis
    using s adaptive_resolution [OF s, of "sample_capabilities False"]
    by (auto simp: sample_supported)
qed

text \<open>The plan the sample request gets on a runtime with a Linux sandbox.\<close>

definition sample_plan :: ExecutionPlan where
  "sample_plan = assemble_plan sample_request (sample_capabilities True) Adaptive
     (effective_sandbox (sample_capabilities True) (rq_sandbox sample_request)) (False, [])"

lemma sample_resolves:
  "resolve_execution_plan sample_request (sample_capabilities True) Adaptive = Inr sample_plan"
  using resolve_outcome [of "sample_capabilities True" sample_request Adaptive]
  by (simp add: sample_supported sample_plan_def)

theorem plan_is_enforceable_witness:
  "resolve_execution_plan sample_request (sample_capabilities True) Adaptive = Inr sample_plan \<and>
   sandbox_supported (sample_capabilities True) (pl_effective_sandbox sample_plan) \<and>
   ep_pids_enforced (pl_resource_enforcement sample_plan)"
proof -
  have "ep_pids_enforced (pl_resource_enforcement sample_plan)" by code_simp
  with sample_resolves plan_is_enforceable [OF sample_resolves] show ?thesis by blast
qed

theorem renegotiation_stable_witness:
  "\<exists>plan'. resolve_execution_plan (sample_request\<lparr>rq_sandbox := pl_effective_sandbox sample_plan\<rparr>)
      (sample_capabilities True) Adaptive = Inr plan' \<and>
    pl_effective_sandbox plan' = pl_effective_sandbox sample_plan"
proof -
  let ?r = "sample_request\<lparr>rq_sandbox := pl_effective_sandbox sample_plan\<rparr>"
  have "\<not> is_strict ?r Adaptive"
    by (simp add: is_strict_def effective_capability_mode_def sample_request_def)
  then obtain plan' where p: "resolve_execution_plan ?r (sample_capabilities True) Adaptive = Inr plan'"
    using resolve_outcome [of "sample_capabilities True" ?r Adaptive] by (auto split: if_splits)
  with renegotiation_stable [OF sample_resolves p] show ?thesis by blast
qed

end
