(* ===== verification/Repo_Ops.thy ===== *)
theory Repo_Ops
  imports Repo_Inv Policy
begin

section \<open>Histories of the repository\<close>

text \<open>
  A history is a sequence of repository operations, each with its clock readings, as the server,
  the shims and the background loops issue them in any order; it starts from an empty database.
  The properties here hold of every history.
\<close>

datatype repo_op =
    OpInsert NewTaskRecord
  | OpDispatched string u32
  | OpStarted string u32 int "string option"
  | OpReserve string TaskResourceReservation string
  | OpRelease string string
  | OpCancelRequested string
  | OpTimeout string
  | OpCancelAccepted string RuntimeErrorInfo
  | OpComplete string CompletionUpdate
  | OpRecovered string
  | OpRecoveryLost string
  | OpDelete string

fun run_op :: "repo_op \<times> clock \<Rightarrow> repo \<Rightarrow> repo" where
  "run_op (OpInsert n, clk) s = fst (insert_task n clk s)"
| "run_op (OpDispatched i shim, clk) s = fst (mark_dispatched i shim clk s)"
| "run_op (OpStarted i pid pgid path, clk) s = fst (mark_started i pid pgid path clk s)"
| "run_op (OpReserve i reservation msg, clk) s = fst (reserve_resources i reservation msg clk s)"
| "run_op (OpRelease i msg, clk) s = fst (release_resources i msg clk s)"
| "run_op (OpCancelRequested i, clk) s = fst (set_cancel_requested i clk s)"
| "run_op (OpTimeout i, clk) s = fst (mark_timeout_triggered i clk s)"
| "run_op (OpCancelAccepted i error, clk) s = fst (cancel_accepted_task i error clk s)"
| "run_op (OpComplete i u, clk) s = fst (complete_task i u clk s)"
| "run_op (OpRecovered i, clk) s = fst (mark_recovered i clk s)"
| "run_op (OpRecoveryLost i, clk) s = fst (mark_recovery_lost i clk s)"
| "run_op (OpDelete i, clk) s = fst (delete_task i s)"

type_synonym history = "(repo_op \<times> clock) list"

definition run_history :: "history \<Rightarrow> repo" where
  "run_history ops = fold run_op ops empty_repo"

lemma run_history_append: "run_history (ops @ ops') = fold run_op ops' (run_history ops)"
  by (simp add: run_history_def)

subsection \<open>Statements of an operation\<close>

text \<open>
  Every operation but \<open>delete_task\<close> is a sequence of statements on one task. A statement is guarded
  when its \<open>WHERE\<close> clause or its \<open>SET\<close> clause keeps the task on its way through the lifecycle; the
  unguarded ones are those of \<open>mark_started\<close> and \<open>complete_task\<close>. A relation between states needs
  only to be checked for the statements.
\<close>

inductive stmt :: "bool \<Rightarrow> string \<Rightarrow> repo \<Rightarrow> repo \<Rightarrow> bool" for g i where
  event: "insert_event_tx i et m d now s = Inr t \<Longrightarrow> stmt g i s t"
| insert: "insert_row (new_row n now) s = Inr t \<Longrightarrow> nt_task_id n = i \<Longrightarrow> stmt g i s t"
| dispatched: "stmt g i s (update_task i (\<lambda>r. c_status r = ''accepted'') (dispatched_row p now) s)"
| started: "\<not> g \<Longrightarrow> stmt g i s (update_task i (\<lambda>r. True) (started_row pid pgid sp now) s)"
| reserved: "stmt g i s (update_task i (\<lambda>r. True) (reserved_row rv now) s)"
| released: "stmt g i s (update_task i (\<lambda>r. True) (released_row now) s)"
| cancel_requested: "stmt g i s (update_task i (\<lambda>r. True) (cancel_requested_row now) s)"
| timeout: "stmt g i s (update_task i (\<lambda>r. True) (timeout_row now) s)"
| recovered: "stmt g i s (update_task i (\<lambda>r. c_status r = ''running'') (recovered_row now) s)"
| cancelled: "stmt g i s (update_task i (\<lambda>r. c_status r = ''accepted'') (cancelled_row e now) s)"
| completed: "\<not> g \<Longrightarrow> stmt g i s (update_task i (\<lambda>r. True) (completed_row u) s)"

inductive_cases stmtE: "stmt g i s t"

abbreviation stmts :: "bool \<Rightarrow> string \<Rightarrow> repo \<Rightarrow> repo \<Rightarrow> bool" where
  "stmts g i \<equiv> (stmt g i)\<^sup>*\<^sup>*"

lemma stmts_then: "stmts g i s t \<Longrightarrow> stmt g i t u \<Longrightarrow> stmts g i s u"
  by (rule rtranclp.rtrancl_into_rtrancl)

lemma stmts_release_event:
  "release_event i active m now t = Inr u \<Longrightarrow> stmts g i s t \<Longrightarrow> stmts g i s u"
  using release_event_cases stmts_then stmt.event by metis

lemma stmts_event: "insert_event_tx i et m d now t = Inr u \<Longrightarrow> stmts g i s t \<Longrightarrow> stmts g i s u"
  using stmts_then stmt.event by metis

lemmas stmts_update =
  stmt.dispatched stmt.started stmt.reserved stmt.released stmt.cancel_requested stmt.timeout
  stmt.recovered stmt.cancelled stmt.completed

lemmas stmts_update1 = stmts_update [THEN r_into_rtranclp [of "stmt g i" for g i]]

fun op_task :: "repo_op \<Rightarrow> string" where
  "op_task (OpInsert n) = nt_task_id n"
| "op_task (OpDispatched i _) = i"
| "op_task (OpStarted i _ _ _) = i"
| "op_task (OpReserve i _ _) = i"
| "op_task (OpRelease i _) = i"
| "op_task (OpCancelRequested i) = i"
| "op_task (OpTimeout i) = i"
| "op_task (OpCancelAccepted i _) = i"
| "op_task (OpComplete i _) = i"
| "op_task (OpRecovered i) = i"
| "op_task (OpRecoveryLost i) = i"
| "op_task (OpDelete i) = i"

fun is_delete :: "repo_op \<Rightarrow> bool" where
  "is_delete (OpDelete i) = True"
| "is_delete _ = False"

fun is_guarded :: "repo_op \<Rightarrow> bool" where
  "is_guarded (OpStarted _ _ _ _) = False"
| "is_guarded (OpComplete _ _) = False"
| "is_guarded (OpRecoveryLost _) = False"
| "is_guarded _ = True"

lemma stmts_insert_task: "stmts g (nt_task_id n) s (fst (insert_task n clk s))"
  unfolding insert_task_def Let_def
proof (rule transact_keeps, rule rtranclp.rtrancl_refl)
  fix t
  let ?i = "nt_task_id n"
  assume "res_bind (i64_try_from (rl_stdout_max_bytes (rq_limits (nt_request n))) ''stdout_max_bytes is too large'') (\<lambda>_.
       res_bind (i64_try_from (rl_stderr_max_bytes (rq_limits (nt_request n))) ''stderr_max_bytes is too large'') (\<lambda>_.
       res_bind (insert_row (new_row n (clk 0)) s) (\<lambda>s.
       res_bind (insert_event_tx ?i EvSubmitted (Some ''task submitted'') None (clk 1) s) (\<lambda>s.
       res_bind (insert_event_tx ?i EvAccepted (Some ''task accepted'') None (clk 2) s) (\<lambda>s.
       res_bind (insert_event_tx ?i EvPlanned (Some ''execution plan resolved'') (Some (JPlan (nt_execution_plan n))) (clk 3) s) (\<lambda>s.
       if pl_degraded (nt_execution_plan n)
       then insert_event_tx ?i EvDegraded (Some ''execution plan degraded'')
              (Some (JDegraded (pl_fallback_reasons (nt_execution_plan n)) (pl_effective_sandbox (nt_execution_plan n)))) (clk 4) s
       else Inr s)))))) = Inr t"
  then obtain s1 s2 s3 s4 where
    "insert_row (new_row n (clk 0)) s = Inr s1"
    "insert_event_tx ?i EvSubmitted (Some ''task submitted'') None (clk 1) s1 = Inr s2"
    "insert_event_tx ?i EvAccepted (Some ''task accepted'') None (clk 2) s2 = Inr s3"
    "insert_event_tx ?i EvPlanned (Some ''execution plan resolved'') (Some (JPlan (nt_execution_plan n))) (clk 3) s3 = Inr s4"
    and last: "s4 = t \<or> (\<exists>m d. insert_event_tx ?i EvDegraded m d (clk 4) s4 = Inr t)"
    unfolding res_bind_eq_Inr by (metis sum.inject(2))
  then have "stmts g ?i s s4"
    by (meson stmt.event stmt.insert stmts_then rtranclp.rtrancl_refl)
  with last show "stmts g ?i s t"
    using stmts_event by blast
qed

lemma stmts_mark_dispatched: "stmts g i s (fst (mark_dispatched i p clk s))"
  by (simp add: mark_dispatched_def r_into_rtranclp stmt.dispatched)

lemma stmts_mark_started: "stmts False i s (fst (mark_started i p pg sp clk s))"
  unfolding mark_started_def
  by (rule transact_keeps, rule rtranclp.rtrancl_refl, erule stmts_event)
    (simp add: r_into_rtranclp stmt.started)

lemma stmts_reserve_resources: "stmts g i s (fst (reserve_resources i rv m clk s))"
  unfolding reserve_resources_def
  by (rule transact_keeps, rule rtranclp.rtrancl_refl, erule stmts_event)
    (simp add: r_into_rtranclp stmt.reserved)

lemma stmts_release_resources: "stmts g i s (fst (release_resources i m clk s))"
  unfolding release_resources_def
proof (rule transact_keeps, rule rtranclp.rtrancl_refl)
  fix t
  assume step: "(case active_reservation_json i s of None \<Rightarrow> Inr s
     | Some raw \<Rightarrow> res_bind (parse_reservation raw) (\<lambda>rv.
         insert_event_tx i EvResourceReleased (Some m) (Some (JReservation rv)) (clk 1)
           (update_task i (\<lambda>r. True) (released_row (clk 0)) s))) = Inr t"
  show "stmts g i s t"
  proof (cases "active_reservation_json i s")
    case None
    with step show ?thesis by simp
  next
    case (Some raw)
    with step obtain rv where
      "insert_event_tx i EvResourceReleased (Some m) (Some (JReservation rv)) (clk 1)
         (update_task i (\<lambda>r. True) (released_row (clk 0)) s) = Inr t"
      unfolding Some option.case res_bind_eq_Inr by (elim exE conjE)
    then show ?thesis
      by (rule stmts_event) (simp add: r_into_rtranclp stmt.released)
  qed
qed

lemma stmts_mark_timeout_triggered: "stmts g i s (fst (mark_timeout_triggered i clk s))"
  unfolding mark_timeout_triggered_def
  by (rule transact_keeps, rule rtranclp.rtrancl_refl, erule stmts_event)
    (simp add: r_into_rtranclp stmt.timeout)

lemma stmts_cancel_accepted_task: "stmts g i s (fst (cancel_accepted_task i e clk s))"
  unfolding cancel_accepted_task_def Let_def
  by (rule transact_keeps, rule rtranclp.rtrancl_refl)
    (unfold res_bind_eq_Inr, elim exE conjE, erule stmts_event, erule stmts_release_event,
     simp add: r_into_rtranclp stmt.cancelled)

lemma stmts_complete_task: "stmts False i s (fst (complete_task i u clk s))"
  unfolding complete_task_def Let_def
  by (rule transact_keeps, rule rtranclp.rtrancl_refl)
    (unfold res_bind_eq_Inr, elim exE conjE, erule stmts_event, erule stmts_release_event,
     simp add: r_into_rtranclp stmt.completed)

lemma stmts_mark_recovered: "stmts g i s (fst (mark_recovered i clk s))"
  unfolding mark_recovered_def
  by (rule transact_keeps, rule rtranclp.rtrancl_refl, erule stmts_event)
    (simp add: r_into_rtranclp stmt.recovered)

lemma fst_set_cancel_requested:
  "fst (set_cancel_requested i clk s) =
     fst (transact (\<lambda>s. insert_event_tx i EvKillRequested (Some ''kill requested'') None (clk 1)
       (update_task i (\<lambda>r. True) (cancel_requested_row (clk 0)) s)) s)"
  by (auto simp: set_cancel_requested_def and_then_def split: prod.split sum.split)

lemma stmts_set_cancel_requested: "stmts g i s (fst (set_cancel_requested i clk s))"
  unfolding fst_set_cancel_requested
  by (rule transact_keeps, rule rtranclp.rtrancl_refl, erule stmts_event)
    (simp add: r_into_rtranclp stmt.cancel_requested)

lemma run_op_stmts:
  assumes "\<not> is_delete c"
  shows "stmts (is_guarded c) (op_task c) s (run_op (c, clk) s)"
  using assms
  by (cases c)
    (simp_all add: mark_recovery_lost_def stmts_insert_task stmts_mark_dispatched stmts_mark_started
      stmts_reserve_resources stmts_release_resources stmts_mark_timeout_triggered
      stmts_cancel_accepted_task stmts_complete_task stmts_mark_recovered stmts_set_cancel_requested)

lemma stmts_rel:
  assumes "stmts g i s t" "\<And>s. rel s s" "\<And>s t u. rel s t \<Longrightarrow> rel t u \<Longrightarrow> rel s u"
    "\<And>s t. stmt g i s t \<Longrightarrow> rel s t"
  shows "rel s t"
  using assms(1) by (induction rule: rtranclp_induct) (blast intro: assms)+

subsection \<open>The invariant of every history\<close>

lemma stmt_keeps_ok: "stmt g i s t \<Longrightarrow> repo_ok s \<Longrightarrow> repo_ok t"
  by (erule stmtE) (auto intro: repo_ok_intros)

lemma run_op_keeps_ok: "repo_ok s \<Longrightarrow> repo_ok (run_op cc s)"
proof -
  assume ok: "repo_ok s"
  obtain c clk where cc: "cc = (c, clk)" by (cases cc)
  show ?thesis
  proof (cases "is_delete c")
    case True
    then show ?thesis using ok by (cases c) (simp_all add: cc delete_task_keeps_ok)
  next
    case False
    then have "stmts (is_guarded c) (op_task c) s (run_op cc s)"
      unfolding cc by (rule run_op_stmts)
    then have "repo_ok s \<longrightarrow> repo_ok (run_op cc s)"
      by (rule stmts_rel) (auto intro: stmt_keeps_ok)
    with ok show ?thesis by simp
  qed
qed

interpretation repo_sys: op_system run_op repo_ok
  by unfold_locales (rule run_op_keeps_ok)

lemma empty_repo_ok: "repo_ok empty_repo"
  by (simp add: repo_ok_def empty_repo_def task_ids_def)

lemma run_history_ok: "repo_ok (run_history ops)"
  unfolding run_history_def by (rule repo_sys.fold_inv) (rule empty_repo_ok)

text \<open>
  C1: Whatever sequence of operations the server, the shims and the loops perform on a fresh
  database, with whatever arguments and clock readings, task identifiers stay unique, every event
  refers to an existing task, events are numbered in strictly ascending order, and every stored row
  and event decodes; a terminal row has an end time and a reservation has a reservation time.
\<close>

theorem every_history_is_well_formed: "repo_ok (run_history ops)"
  by (rule run_history_ok)

lemma is_ok_map_res: "(\<And>x. x \<in> set xs \<Longrightarrow> is_ok (f x)) \<Longrightarrow> is_ok (map_res f xs)"
proof (induction xs)
  case Nil
  show ?case by simp
next
  case (Cons x xs)
  then have "is_ok (f x)" "is_ok (map_res f xs)" by simp_all
  then show ?case by (auto simp: is_ok_conv)
qed

lemma set_sql_limit: "set (sql_limit n xs) \<subseteq> set xs"
  by (simp add: sql_limit_def set_take_subset)

lemma repo_ok_decodes: "repo_ok s \<Longrightarrow> r \<in> set (rp_tasks s) \<Longrightarrow> is_ok (row_to_task_record r)"
  by (auto simp: repo_ok_def list_all_iff row_ok_def)

lemma select_ok:
  "repo_ok s \<Longrightarrow> set rs \<subseteq> set (rp_tasks s) \<Longrightarrow> is_ok (map_res row_to_task_record rs)"
  by (rule is_ok_map_res) (auto intro: repo_ok_decodes)

lemma get_task_ok: "repo_ok s \<Longrightarrow> is_ok (get_task i s) \<longleftrightarrow> i \<in> set (task_ids s)"
proof (cases "find_row i s")
  case None
  then show ?thesis by (simp add: get_task_def find_row_None [symmetric])
next
  case (Some r)
  assume "repo_ok s"
  then have "is_ok (row_to_task_record r)"
    using find_row_Some [OF Some] by (auto intro: repo_ok_decodes)
  moreover have "i \<in> set (task_ids s)"
    using Some find_row_None [of i s] by auto
  ultimately show ?thesis by (simp add: get_task_def Some)
qed

lemma list_queries_ok:
  assumes "repo_ok s"
  shows "is_ok (list_accepted n s)" "is_ok (list_non_terminal s)" "is_ok (list_active_reservations s)"
    "is_ok (list_gc_candidates cutoff s)" "is_ok (list_events i s)"
proof -
  show "is_ok (list_accepted n s)" unfolding list_accepted_def
    using assms by (rule select_ok) (use set_sql_limit in fastforce)
  show "is_ok (list_non_terminal s)" unfolding list_non_terminal_def
    using assms by (rule select_ok) auto
  show "is_ok (list_active_reservations s)" unfolding list_active_reservations_def
    using assms by (rule select_ok) auto
  show "is_ok (list_gc_candidates cutoff s)" unfolding list_gc_candidates_def
    using assms by (rule select_ok) auto
  show "is_ok (list_events i s)" unfolding list_events_def
    using assms by (intro is_ok_map_res) (auto simp: repo_ok_def list_all_iff event_ok_def)
qed

text \<open>
  C20: In every history the queries never fail on stored data: a task is found exactly when its
  identifier is stored, the only error being that it is not found, and the list queries and the
  event stream always succeed.
\<close>

theorem queries_never_fail_on_stored_data:
  "let s = run_history ops in
     (get_task i s = Inl (NotFound i) \<or> is_ok (get_task i s)) \<and>
     (is_ok (get_task i s) = (i \<in> set (task_ids s))) \<and>
     is_ok (list_accepted n s) \<and> is_ok (list_non_terminal s) \<and> is_ok (list_active_reservations s) \<and>
     is_ok (list_gc_candidates cutoff s) \<and> is_ok (list_events i s)"
proof -
  have "get_task i s = Inl (NotFound i)" if "i \<notin> set (task_ids s)" for s
    using that by (simp add: get_task_def find_row_None [symmetric])
  then show ?thesis
    unfolding Let_def
    using run_history_ok [of ops] by (auto simp: get_task_ok list_queries_ok)
qed

subsection \<open>The event log\<close>

definition task_log :: "string \<Rightarrow> repo \<Rightarrow> event_row list" where
  "task_log i s = filter (\<lambda>e. el_task_id e = i) (rp_events s)"

definition log_extends :: "string \<Rightarrow> repo \<Rightarrow> repo \<Rightarrow> bool" where
  "log_extends i s t = prefix (task_log i s) (task_log i t)"

lemma log_extends_refl: "log_extends i s s"
  by (simp add: log_extends_def)

lemma log_extends_trans: "log_extends i s t \<Longrightarrow> log_extends i t u \<Longrightarrow> log_extends i s u"
  using prefix_order.order_trans by (auto simp: log_extends_def)

lemma stmt_log_extends: "stmt g j s t \<Longrightarrow> log_extends i s t"
  by (erule stmtE)
    (auto simp: log_extends_def task_log_def update_task_def insert_row_def
      dest: insert_event_tx_Inr(4) split: if_splits)

definition keeps_log :: "string \<Rightarrow> repo_op \<times> clock \<Rightarrow> bool" where
  "keeps_log i c = (fst c \<noteq> OpDelete i)"

lemma run_op_log_extends:
  assumes "keeps_log i cc"
  shows "log_extends i s (run_op cc s)"
proof -
  obtain c clk where cc: "cc = (c, clk)" by (cases cc)
  show ?thesis
  proof (cases "is_delete c")
    case True
    then obtain j where "c = OpDelete j" by (cases c) auto
    with assms have "cc = (OpDelete j, clk)" "j \<noteq> i"
      by (auto simp: cc keeps_log_def)
    then have "task_log i (run_op cc s) = task_log i s"
      by (auto simp: delete_task_def task_log_def intro: filter_cong)
    then show ?thesis by (simp add: log_extends_def)
  next
    case False
    then have "stmts (is_guarded c) (op_task c) s (run_op cc s)"
      unfolding cc by (rule run_op_stmts)
    then show ?thesis
      by (rule stmts_rel) (auto intro: log_extends_refl log_extends_trans stmt_log_extends)
  qed
qed

interpretation repo_log: monotone_ops run_op repo_ok "keeps_log i" "log_extends i" for i
  by unfold_locales (auto intro: log_extends_refl log_extends_trans run_op_log_extends)

lemma list_events_task_log:
  assumes "repo_ok s"
  shows "list_events i s = map_res row_to_event_record (task_log i s)"
proof -
  have "sorted_wrt (<) (map el_seq (filter p es))" if "sorted_wrt (<) (map el_seq es)"
    for p and es :: "event_row list"
    using that by (induction es) auto
  then have "sorted_wrt (<) (map el_seq (task_log i s))"
    using assms by (simp add: repo_ok_def task_log_def)
  then have "sorted (map el_seq (task_log i s))"
    by (rule sorted_wrt_mono_rel [rotated]) auto
  then show ?thesis
    by (simp add: list_events_def task_log_def [symmetric] sorted_sort_id sort_key_id_if_sorted)
qed

lemma map_res_append:
  "map_res f (xs @ ys) = res_bind (map_res f xs) (\<lambda>us. res_bind (map_res f ys) (\<lambda>vs. Inr (us @ vs)))"
proof (induction xs)
  case Nil
  show ?case by (cases "map_res f ys") simp_all
next
  case (Cons x xs)
  then show ?case
    by (cases "f x"; cases "map_res f xs"; cases "map_res f ys") simp_all
qed

text \<open>
  C21: The event stream of a task is append-only: whatever happens later in the history, short of
  deleting the task itself, the stream read later is the stream read earlier with events appended.
\<close>

theorem event_stream_is_append_only:
  "list_all (keeps_log i) later \<Longrightarrow>
   case (list_events i (run_history ops), list_events i (run_history (ops @ later))) of
     (Inr es, Inr es') \<Rightarrow> prefix es es'
   | _ \<Rightarrow> False"
proof -
  let ?s = "run_history ops" and ?t = "run_history (ops @ later)"
  assume "list_all (keeps_log i) later"
  then have "log_extends i ?s ?t"
    unfolding run_history_append by (rule repo_log.fold_rel [OF run_history_ok])
  then obtain ys where ys: "task_log i ?t = task_log i ?s @ ys"
    by (auto simp: log_extends_def prefix_def)
  have logs: "list_events i ?s = map_res row_to_event_record (task_log i ?s)"
    "list_events i ?t = map_res row_to_event_record (task_log i ?s @ ys)"
    by (simp_all add: list_events_task_log run_history_ok ys)
  have "is_ok (list_events i ?s)" "is_ok (list_events i ?t)"
    by (simp_all add: list_queries_ok run_history_ok)
  then show ?thesis
    unfolding logs map_res_append
    by (auto simp: is_ok_conv res_bind_eq_Inr)
qed

text \<open>Sample data: a task, and a history in which it is inserted, started and completed.\<close>

definition sample_new :: "string \<Rightarrow> NewTaskRecord" where
  "sample_new i =
     \<lparr>nt_task_id = i, nt_request = sample_request, nt_task_dir = ''/d/t'', nt_workspace_dir = ''/d/t/workspace'',
      nt_request_path = ''/d/t/request.json'', nt_result_path = ''/d/t/result.json'',
      nt_stdout_path = ''/d/t/stdout.log'', nt_stderr_path = ''/d/t/stderr.log'', nt_script_path = None,
      nt_execution_plan = legacy_plan default_sandbox_policy default_resource_limits,
      nt_control_context = None\<rparr>"

definition sample_completion :: CompletionUpdate where
  "sample_completion =
     \<lparr>cu_status = Success, cu_finished_at = 9, cu_duration_ms = Some 4, cu_exit_code = Some 0,
      cu_exit_signal = None, cu_error = None, cu_usage = None, cu_result_json = None\<rparr>"

definition sample_clock :: clock where
  "sample_clock k = 5 + int k"

definition sample_history :: history where
  "sample_history =
     [(OpInsert (sample_new ''t1''), sample_clock), (OpDispatched ''t1'' 77, sample_clock),
      (OpStarted ''t1'' 78 78 None, sample_clock)]"

theorem event_stream_is_append_only_witness:
  "case (list_events ''t1'' (run_history sample_history),
         list_events ''t1'' (run_history (sample_history @ [(OpComplete ''t1'' sample_completion, sample_clock)]))) of
     (Inr es, Inr es') \<Rightarrow> prefix es es'
   | _ \<Rightarrow> False"
  by (rule event_stream_is_append_only) (simp add: keeps_log_def)

end
