(* ===== verification/Repo_Effects.thy ===== *)
theory Repo_Effects
  imports Repo_Ops
begin

section \<open>Effects of the repository operations\<close>

text \<open>
  What each operation does to the task it names and to the others: frame, lifecycle, round trip
  of a stored task, completion with the release of its resources, and the selections of the queries.
\<close>

subsection \<open>Frame\<close>

lemma find_row_insert_row:
  "insert_row r s = Inr t \<Longrightarrow>
   find_row i t = (if i = c_task_id r then Some r else find_row i s)"
proof -
  assume a: "insert_row r s = Inr t"
  then have new: "find_row (c_task_id r) s = None" and t: "t = s\<lparr>rp_tasks := rp_tasks s @ [r]\<rparr>"
    by (auto simp: insert_row_def split: if_splits)
  have "find p (xs @ [r]) = (case find p xs of None \<Rightarrow> if p r then Some r else None | Some y \<Rightarrow> Some y)"
    for p and xs :: "task_row list"
    by (induction xs) auto
  with new show ?thesis
    by (auto simp: t find_row_def split: option.split)
qed

lemma insert_event_tx_find: "insert_event_tx j et m d now s = Inr t \<Longrightarrow> find_row i t = find_row i s"
  by (rule find_row_cong) (rule insert_event_tx_Inr)

lemma c_task_id_new_row [simp]: "c_task_id (new_row n now) = nt_task_id n"
  by (simp add: new_row_def)

definition same_task :: "string \<Rightarrow> repo \<Rightarrow> repo \<Rightarrow> bool" where
  "same_task i s t = (find_row i t = find_row i s \<and> task_log i t = task_log i s)"

lemma same_task_insert_row: "insert_row r s = Inr t \<Longrightarrow> c_task_id r \<noteq> i \<Longrightarrow> same_task i s t"
  by (simp add: same_task_def find_row_insert_row)
    (auto simp: task_log_def insert_row_def split: if_splits)

lemma same_task_event: "insert_event_tx j et m d now s = Inr t \<Longrightarrow> j \<noteq> i \<Longrightarrow> same_task i s t"
  by (auto simp: same_task_def insert_event_tx_find task_log_def dest: insert_event_tx_Inr(4))

context row_edit begin

lemma update_frame: "j \<noteq> i \<Longrightarrow> same_task i s (update_task j guard edit s)"
  by (simp add: same_task_def find_row_update) (simp add: task_log_def update_task_def)

end

lemma stmt_same_task: "stmt g j s t \<Longrightarrow> j \<noteq> i \<Longrightarrow> same_task i s t"
  by (erule stmtE)
    (auto intro: same_task_event same_task_insert_row dispatched.update_frame started.update_frame
      reserved.update_frame released.update_frame cancel_requested.update_frame timeout.update_frame
      recovered.update_frame cancelled.update_frame completed.update_frame)

lemma run_op_same_task: "op_task c \<noteq> i \<Longrightarrow> same_task i s (run_op (c, clk) s)"
proof (cases "is_delete c")
  case True
  assume other: "op_task c \<noteq> i"
  from True obtain j where c: "c = OpDelete j" by (cases c) auto
  have "find (\<lambda>r. c_task_id r = i) (filter (\<lambda>r. c_task_id r \<noteq> j) rs) = find (\<lambda>r. c_task_id r = i) rs"
    for rs
    using other c by (induction rs) auto
  then show ?thesis
    using other by (auto simp: same_task_def c delete_task_def find_row_def task_log_def intro: filter_cong)
next
  case False
  assume "op_task c \<noteq> i"
  then show ?thesis
    using stmts_rel [OF run_op_stmts [OF False], of "same_task i"] stmt_same_task
    by (auto simp: same_task_def)
qed

text \<open>
  An operation on one task leaves the row and the event stream of every other task as they were.
\<close>

theorem operations_touch_one_task:
  "op_task c \<noteq> i \<Longrightarrow>
   find_row i (run_op (c, clk) s) = find_row i s \<and> task_log i (run_op (c, clk) s) = task_log i s"
  using run_op_same_task by (simp add: same_task_def)

theorem operations_touch_one_task_witness:
  "find_row ''t1'' (run_op (OpDelete ''t2'', sample_clock) (run_history sample_history)) =
     find_row ''t1'' (run_history sample_history)"
  using operations_touch_one_task [of "OpDelete ''t2''" "''t1''"] by simp

subsection \<open>Lifecycle\<close>

definition task_status :: "string \<Rightarrow> repo \<Rightarrow> TaskStatus option" where
  "task_status i s =
     (case find_row i s of
        None \<Rightarrow> None
      | Some r \<Rightarrow> (case decode_status (c_status r) of Inl _ \<Rightarrow> None | Inr st \<Rightarrow> Some st))"

definition advances :: "string \<Rightarrow> repo \<Rightarrow> repo \<Rightarrow> bool" where
  "advances i s t =
     (case task_status i s of
        None \<Rightarrow> True
      | Some st \<Rightarrow> (case task_status i t of None \<Rightarrow> False | Some st' \<Rightarrow> st \<le> st'))"

text \<open>The operations that respect the lifecycle of a task: all but the unguarded ones on that task.\<close>

definition respects_lifecycle :: "string \<Rightarrow> repo_op \<times> clock \<Rightarrow> bool" where
  "respects_lifecycle i c =
     (op_task (fst c) \<noteq> i \<or> (is_guarded (fst c) \<and> \<not> is_delete (fst c)))"

lemma advances_refl: "advances i s s"
  by (simp add: advances_def split: option.split)

lemma advances_trans: "advances i s t \<Longrightarrow> advances i t u \<Longrightarrow> advances i s u"
  by (auto simp: advances_def split: option.splits)

lemma same_task_advances: "same_task i s t \<Longrightarrow> advances i s t"
  by (simp add: same_task_def advances_def task_status_def split: option.split)

lemma decode_status_fixed [simp]:
  "decode_status ''accepted'' = Inr Accepted" "decode_status ''running'' = Inr Running"
  "decode_status ''cancelled'' = Inr Cancelled"
  using status.dec_enc [of Accepted] status.dec_enc [of Running] status.dec_enc [of Cancelled]
  by simp_all

lemma accepted_le [simp]: "Accepted \<le> st"
  by (cases st) (simp_all add: less_eq_TaskStatus_def)

context row_edit begin

lemma update_advances:
  assumes "\<And>r. guard r \<Longrightarrow> c_status (edit r) = c_status r \<or>
    (c_status r = ''accepted'' \<and> is_ok (decode_status (c_status (edit r))))"
  shows "advances i s (update_task i guard edit s)"
proof (cases "find_row i s")
  case None
  then show ?thesis by (simp add: advances_def task_status_def)
next
  case (Some r)
  then have t: "find_row i (update_task i guard edit s) = Some (if guard r then edit r else r)"
    by (simp add: find_row_update)
  show ?thesis
    using assms [of r]
    by (auto simp: advances_def task_status_def Some t is_ok_conv split: option.split sum.splits)
qed

end

lemma advances_find: "find_row i t = find_row i s \<Longrightarrow> advances i s t"
  by (simp add: advances_def task_status_def split: option.split)

lemma guarded_stmt_advances: "stmt True i s t \<Longrightarrow> advances i s t"
proof (induction rule: stmt.cases)
  case (insert n now s t)
  then have "find_row i s = None"
    by (auto simp: insert_row_def split: if_splits)
  then show ?case using insert by (simp add: advances_def task_status_def)
next
  case (event et m d now s t)
  then show ?case by (simp add: advances_find insert_event_tx_find)
next
  case dispatched
  then show ?case by (simp add: dispatched.update_advances dispatched_row_def)
next
  case reserved
  then show ?case by (simp add: reserved.update_advances reserved_row_def)
next
  case released
  then show ?case by (simp add: released.update_advances released_row_def)
next
  case cancel_requested
  then show ?case by (simp add: cancel_requested.update_advances cancel_requested_row_def)
next
  case timeout
  then show ?case by (simp add: timeout.update_advances timeout_row_def)
next
  case recovered
  then show ?case by (simp add: recovered.update_advances recovered_row_def)
next
  case cancelled
  then show ?case by (simp add: cancelled.update_advances cancelled_row_def)
qed simp_all

lemma run_op_advances: "respects_lifecycle i cc \<Longrightarrow> advances i s (run_op cc s)"
proof -
  assume ok: "respects_lifecycle i cc"
  obtain c clk where cc: "cc = (c, clk)" by (cases cc)
  show ?thesis
  proof (cases "op_task c = i")
    case True
    with ok have "is_guarded c" "\<not> is_delete c" by (auto simp: respects_lifecycle_def cc)
    then have "stmts True i s (run_op cc s)"
      using run_op_stmts [of c s clk] by (simp add: cc True)
    then show ?thesis
      by (rule stmts_rel) (auto intro: advances_refl advances_trans guarded_stmt_advances)
  next
    case False
    then have "same_task i s (run_op cc s)"
      by (simp add: cc run_op_same_task)
    then show ?thesis by (rule same_task_advances)
  qed
qed

interpretation repo_life: monotone_ops run_op repo_ok "respects_lifecycle i" "advances i" for i
  by unfold_locales (auto intro: advances_refl advances_trans run_op_advances)

text \<open>
  A task never goes back in its lifecycle: along any history in which no unguarded operation
  (\<open>mark_started\<close>, \<open>complete_task\<close>) is applied to it, its status stays or moves up in the order accepted,
  running, terminal; a terminal status stays for good.
\<close>

theorem guarded_operations_respect_lifecycle:
  "list_all (respects_lifecycle i) later \<Longrightarrow> task_status i (run_history ops) = Some st \<Longrightarrow>
   \<exists>st'. task_status i (run_history (ops @ later)) = Some st' \<and> st \<le> st' \<and> (is_terminal st \<longrightarrow> st' = st)"
proof -
  assume "list_all (respects_lifecycle i) later" and st: "task_status i (run_history ops) = Some st"
  then have "advances i (run_history ops) (run_history (ops @ later))"
    unfolding run_history_append by (intro repo_life.fold_rel [OF run_history_ok])
  then obtain st' where "task_status i (run_history (ops @ later)) = Some st'" "st \<le> st'"
    by (auto simp: advances_def st split: option.splits)
  then show ?thesis by (auto simp: is_terminal_iff_maximal)
qed

theorem guarded_operations_respect_lifecycle_witness:
  "\<exists>st'. task_status ''t1'' (run_history (sample_history @ [(OpCancelRequested ''t1'', sample_clock)])) = Some st' \<and>
     Running \<le> st' \<and> (is_terminal Running \<longrightarrow> st' = Running)"
proof (rule guarded_operations_respect_lifecycle)
  show "list_all (respects_lifecycle ''t1'') [(OpCancelRequested ''t1'', sample_clock)]"
    by (simp add: respects_lifecycle_def)
  show "task_status ''t1'' (run_history sample_history) = Some Running"
    by code_simp
qed

text \<open>
  The guard matters: \<open>mark_started\<close> has no condition on the status, so a task that was cancelled
  between its dispatch and the start of its process goes back from cancelled to running, with the
  end time and the error of its cancellation still stored.
\<close>

theorem mark_started_revives_a_cancelled_task:
  "let inserted = [(OpInsert (sample_new ''t1''), sample_clock)];
       cancelled = inserted @ [(OpCancelAccepted ''t1'' (RuntimeErrorInfo EcCancelled ''c'' None), sample_clock)];
       started = cancelled @ [(OpStarted ''t1'' 78 78 None, sample_clock)]
   in task_status ''t1'' (run_history cancelled) = Some Cancelled \<and>
      task_status ''t1'' (run_history started) = Some Running \<and>
      map_option c_finished_at_ms (find_row ''t1'' (run_history started)) = Some (Some 5)"
  by code_simp

subsection \<open>Insertion\<close>

lemma insert_event_tx_outcome:
  "find_row i s \<noteq> None \<Longrightarrow> insert_event_tx i et m d now s = Inr (add_event i et m d now s)"
  by (simp add: insert_event_tx_def)

text \<open>The repository after a successful insertion.\<close>

definition inserted :: "NewTaskRecord \<Rightarrow> clock \<Rightarrow> repo \<Rightarrow> repo" where
  "inserted n clk s =
     (let i = nt_task_id n; plan = nt_execution_plan n;
          s = s\<lparr>rp_tasks := rp_tasks s @ [new_row n (clk 0)]\<rparr>;
          s = add_event i EvSubmitted (Some ''task submitted'') None (clk 1) s;
          s = add_event i EvAccepted (Some ''task accepted'') None (clk 2) s;
          s = add_event i EvPlanned (Some ''execution plan resolved'') (Some (JPlan plan)) (clk 3) s
      in if pl_degraded plan
         then add_event i EvDegraded (Some ''execution plan degraded'')
                (Some (JDegraded (pl_fallback_reasons plan) (pl_effective_sandbox plan))) (clk 4) s
         else s)"

definition insert_error :: "NewTaskRecord \<Rightarrow> repo \<Rightarrow> AppError option" where
  "insert_error n s =
     (if i64_max < uint (rl_stdout_max_bytes (rq_limits (nt_request n)))
      then Some (InvalidInput ''stdout_max_bytes is too large'')
      else if i64_max < uint (rl_stderr_max_bytes (rq_limits (nt_request n)))
      then Some (InvalidInput ''stderr_max_bytes is too large'')
      else if nt_task_id n \<in> set (task_ids s)
      then Some (Conflict (''task '' @ nt_task_id n @ '' already exists''))
      else None)"

lemma find_row_append_row:
  "find_row i s = None \<Longrightarrow> c_task_id r = i \<Longrightarrow> find_row i (s\<lparr>rp_tasks := rp_tasks s @ [r]\<rparr>) = Some r"
proof -
  assume "find_row i s = None" and r: "c_task_id r = i"
  moreover have "find (\<lambda>r. c_task_id r = i) (xs @ [r]) = Some r"
    if "find (\<lambda>r. c_task_id r = i) xs = None" for xs
    using that r by (induction xs) (auto split: if_splits)
  ultimately show ?thesis by (simp add: find_row_def)
qed

lemma insert_task_eq:
  "insert_task n clk s =
     (case insert_error n s of Some e \<Rightarrow> (s, Inl e) | None \<Rightarrow> (inserted n clk s, Inr ()))"
proof (cases "insert_error n s")
  case (Some e)
  then show ?thesis
    by (auto simp: insert_error_def insert_task_def transact_def Let_def i64_try_from_def insert_row_def
        find_row_None res_bind_def split: if_splits)
next
  case None
  then have limits: "i64_try_from (rl_stdout_max_bytes (rq_limits (nt_request n))) m =
        Inr (uint (rl_stdout_max_bytes (rq_limits (nt_request n))))"
      "i64_try_from (rl_stderr_max_bytes (rq_limits (nt_request n))) m =
        Inr (uint (rl_stderr_max_bytes (rq_limits (nt_request n))))" for m
    by (auto simp: insert_error_def i64_try_from_def split: if_splits)
  from None have new: "find_row (nt_task_id n) s = None"
    by (simp add: insert_error_def find_row_None split: if_splits)
  have row: "insert_row (new_row n (clk 0)) s = Inr (s\<lparr>rp_tasks := rp_tasks s @ [new_row n (clk 0)]\<rparr>)"
    by (simp add: insert_row_def new)
  have "find_row (nt_task_id n) (s\<lparr>rp_tasks := rp_tasks s @ [new_row n (clk 0)]\<rparr>) = Some (new_row n (clk 0))"
    by (rule find_row_append_row [OF new]) simp
  then show ?thesis
    unfolding None option.case insert_task_def Let_def inserted_def transact_def limits row
    by (simp only: res_bind_simps insert_event_tx_outcome add_event_simps option.distinct not_False_eq_True
        simp_thms split: if_split) simp
qed

text \<open>The record a client reads of a task that was just inserted.\<close>

definition fresh_record :: "NewTaskRecord \<Rightarrow> int \<Rightarrow> TaskRecord" where
  "fresh_record n now =
     (let r = nt_request n
      in \<lparr>tr_task_id = nt_task_id n, tr_handle_id = nt_task_id n, tr_status = Accepted,
          tr_execution = rq_execution r, tr_limits = rq_limits r, tr_sandbox = rq_sandbox r,
          tr_metadata = rq_metadata r, tr_created_at = now, tr_updated_at = now,
          tr_started_at = None, tr_finished_at = None, tr_duration_ms = None, tr_shim_pid = None,
          tr_pid = None, tr_pgid = None, tr_exit_code = None, tr_exit_signal = None,
          tr_error_code = None, tr_error = None, tr_usage = None, tr_task_dir = nt_task_dir n,
          tr_workspace_dir = nt_workspace_dir n, tr_request_path = nt_request_path n,
          tr_result_path = nt_result_path n, tr_stdout_path = nt_stdout_path n,
          tr_stderr_path = nt_stderr_path n, tr_script_path = nt_script_path n,
          tr_stdout_max_bytes = rl_stdout_max_bytes (rq_limits r),
          tr_stderr_max_bytes = rl_stderr_max_bytes (rq_limits r),
          tr_kill_requested = False, tr_kill_requested_at = None, tr_timeout_triggered = False,
          tr_result_json = None, tr_execution_plan = Some (nt_execution_plan n),
          tr_control_context = nt_control_context n, tr_reservation = None, tr_reserved_at = None,
          tr_released_at = None\<rparr>)"

lemma from_to_json [simp]: "from_json (to_json v) = Inr v"
  by (simp add: from_json_def to_json_def)

lemma i64_to_u64_uint [simp]: "i64_to_u64 (uint w) = w"
  by (simp add: i64_to_u64_def max_def)

lemma i64_to_u32_uint [simp]: "i64_to_u32 (uint w) = w"
  by (simp add: i64_to_u32_def)

lemma decode_new_row: "row_to_task_record (new_row n now) = Inr (fresh_record n now)"
  by (cases "nt_control_context n")
    (simp_all add: row_to_task_record_def new_row_def fresh_record_def Let_def)

lemma find_row_inserted:
  "insert_error n s = None \<Longrightarrow> find_row (nt_task_id n) (inserted n clk s) = Some (new_row n (clk 0))"
  by (simp add: inserted_def Let_def find_row_append_row find_row_None insert_error_def split: if_splits)

lemma rp_tasks_inserted: "rp_tasks (inserted n clk s) = rp_tasks s @ [new_row n (clk 0)]"
  by (simp add: inserted_def Let_def)

text \<open>
  An insertion fails exactly when an output limit does not fit a signed 64-bit column or the
  identifier is taken, with the error of the first of these, and then stores nothing.
\<close>

theorem insertion_outcome:
  "insert_task n clk s =
     (case insert_error n s of Some e \<Rightarrow> (s, Inl e) | None \<Rightarrow> (inserted n clk s, Inr ()))"
  by (rule insert_task_eq)

lemma inserted_record:
  assumes "insert_task n clk s = (t, Inr ())"
  shows "get_task (nt_task_id n) t = Inr (fresh_record n (clk 0))"
    "count_accepted t = count_accepted s + 1" "count_accepted_waiting t = count_accepted_waiting s + 1"
proof -
  have none: "insert_error n s = None" and t: "t = inserted n clk s"
    using assms by (auto simp: insert_task_eq split: option.splits)
  show "get_task (nt_task_id n) t = Inr (fresh_record n (clk 0))"
    by (simp add: t get_task_def find_row_inserted [OF none] decode_new_row)
  show "count_accepted t = count_accepted s + 1" "count_accepted_waiting t = count_accepted_waiting s + 1"
    by (simp_all add: t count_accepted_def count_by_status_def count_accepted_waiting_def rp_tasks_inserted)
      (simp_all add: new_row_def)
qed

text \<open>
  A task that was inserted reads back as the request it was made from: the same execution,
  limits, sandbox, metadata, paths, plan and control context, accepted, without process,
  reservation, result or request to kill; exactly one more task is waiting in the queue.
\<close>

theorem inserted_task_reads_back:
  "insert_task n clk s = (t, Inr ()) \<Longrightarrow>
   get_task (nt_task_id n) t = Inr (fresh_record n (clk 0)) \<and>
   count_accepted t = count_accepted s + 1 \<and> count_accepted_waiting t = count_accepted_waiting s + 1"
  by (simp add: inserted_record)

theorem inserted_task_reads_back_witness:
  "get_task ''t1'' (fst (insert_task (sample_new ''t1'') sample_clock empty_repo)) =
     Inr (fresh_record (sample_new ''t1'') 5)"
proof -
  have "insert_task (sample_new ''t1'') sample_clock empty_repo =
      (fst (insert_task (sample_new ''t1'') sample_clock empty_repo), Inr ())"
    by code_simp
  from inserted_task_reads_back [OF this] show ?thesis
    by (simp add: sample_new_def sample_clock_def)
qed

subsection \<open>Completion\<close>

lemma record_fields:
  assumes "row_to_task_record r = Inr task"
  shows "tr_task_id task = c_task_id r" "decode_status (c_status r) = Inr (tr_status task)"
    "from_json (c_limits_json r) = Inr (tr_limits task)"
    "option_res decode_error_code (c_error_code r) = Inr (tr_error_code task)"
    "option_res from_json (c_error_json r) = Inr (tr_error task)"
    "option_res from_json (c_usage_json r) = Inr (tr_usage task)"
    "option_res from_json (c_reservation_json r) = Inr (tr_reservation task)"
    "option_res from_json (c_control_context_json r) = Inr (tr_control_context task)"
    "tr_created_at task = c_created_at_ms r" "tr_finished_at task = c_finished_at_ms r"
    "tr_duration_ms task = map_option i64_to_u64 (c_duration_ms r)"
    "tr_pid task = map_option i64_to_u32 (c_pid r)" "tr_pgid task = c_pgid r"
    "tr_shim_pid task = map_option i64_to_u32 (c_shim_pid r)"
    "tr_exit_code task = c_exit_code r" "tr_exit_signal task = c_exit_signal r"
    "tr_kill_requested task = (c_kill_requested r \<noteq> 0)"
    "tr_reserved_at task = c_reserved_at_ms r" "tr_released_at task = c_released_at_ms r"
  using assms unfolding row_to_task_record_def res_bind_eq_Inr by auto

lemma option_res_from_json_eq:
  "option_res from_json x = Inr y \<longleftrightarrow> x = map_option JsonText y"
  by (cases x; cases y) (auto simp: from_json_def split: json_text.splits)

lemma row_reserved_record:
  "row_to_task_record r = Inr task \<Longrightarrow> row_reserved r = has_active_reservation task"
  using record_fields(7,19) [of r task]
  by (auto simp: row_reserved_def has_active_reservation_def option_res_from_json_eq)

lemma get_task_row:
  "get_task i s = Inr task \<longleftrightarrow> (\<exists>r. find_row i s = Some r \<and> row_to_task_record r = Inr task)"
  by (auto simp: get_task_def split: option.splits)

lemma active_reservation_record:
  assumes "find_row i s = Some r" "row_to_task_record r = Inr task"
  shows "active_reservation_json i s =
    (if has_active_reservation task then map_option JsonText (tr_reservation task) else None)"
  using record_fields(7,19) [OF assms(2)]
  by (auto simp: active_reservation_json_def assms(1) has_active_reservation_def option_res_from_json_eq)

text \<open>The repository after the optional release event.\<close>

definition released_log :: "string \<Rightarrow> TaskRecord \<Rightarrow> string \<Rightarrow> int \<Rightarrow> repo \<Rightarrow> repo" where
  "released_log i task msg now s =
     (if has_active_reservation task
      then add_event i EvResourceReleased (Some msg) (map_option JReservation (tr_reservation task)) now s
      else s)"

lemma find_row_released_log [simp]: "find_row j (released_log i task msg now s) = find_row j s"
  by (simp add: released_log_def)

lemma release_event_outcome:
  assumes "find_row i s = Some r" "row_to_task_record r = Inr task" "find_row i s' \<noteq> None"
  shows "release_event i (active_reservation_json i s) msg now s' = Inr (released_log i task msg now s')"
  using assms(3)
  by (cases "tr_reservation task")
    (auto simp: active_reservation_record [OF assms(1,2)] release_event_def released_log_def
      has_active_reservation_def parse_reservation_def insert_event_tx_outcome)

definition duration_fits :: "u64 option \<Rightarrow> bool" where
  "duration_fits d = (case d of None \<Rightarrow> True | Some v \<Rightarrow> uint v \<le> i64_max)"

definition completed :: "string \<Rightarrow> CompletionUpdate \<Rightarrow> clock \<Rightarrow> TaskRecord \<Rightarrow> repo \<Rightarrow> repo" where
  "completed i u clk task s =
     add_event i (completion_event (cu_status u)) (Some (completion_message (cu_status u))) None (clk 2)
       (released_log i task ''task resources released'' (clk 1)
         (update_task i (\<lambda>r. True) (completed_row u) s))"

lemma complete_task_eq:
  assumes "find_row i s = Some r" "row_to_task_record r = Inr task" "duration_fits (cu_duration_ms u)"
  shows "complete_task i u clk s = (completed i u clk task s, Inr ())"
proof -
  have dur: "\<exists>d. option_res (\<lambda>d. i64_try_from d m) (cu_duration_ms u) = Inr d" for m
    using assms(3) by (cases "cu_duration_ms u") (simp_all add: duration_fits_def i64_try_from_def)
  let ?s = "update_task i (\<lambda>r. True) (completed_row u) s"
  have row: "find_row i ?s \<noteq> None"
    by (simp add: completed.find_row_update assms(1))
  obtain d where d: "option_res (\<lambda>d. i64_try_from d ''duration_ms is too large to persist'') (cu_duration_ms u) = Inr d"
    using dur by blast
  show ?thesis
    unfolding complete_task_def Let_def transact_def d res_bind_simps completed_def
      release_event_outcome [OF assms(1,2) row]
    using row by (simp add: insert_event_tx_outcome)
qed

lemma task_log_update [simp]: "task_log j (update_task i c e s) = task_log j s"
  by (simp add: task_log_def update_task_def)

lemma event_types_add_event:
  "map el_event_type (task_log j (add_event i et m d now s)) =
     map el_event_type (task_log j s) @ (if j = i then [encode_event_type et] else [])"
  by (simp add: task_log_def add_event_def)

text \<open>What a completed task reads back as.\<close>

lemma complete_task_record:
  assumes get: "get_task i s = Inr task" and dur: "duration_fits (cu_duration_ms u)"
  shows "complete_task i u clk s = (completed i u clk task s, Inr ()) \<and>
    (\<exists>task'. get_task i (completed i u clk task s) = Inr task' \<and>
       tr_status task' = cu_status u \<and> tr_finished_at task' = Some (cu_finished_at u) \<and>
       tr_duration_ms task' = cu_duration_ms u \<and> tr_exit_code task' = cu_exit_code u \<and>
       tr_exit_signal task' = cu_exit_signal u \<and> tr_error task' = cu_error u \<and>
       tr_error_code task' = map_option er_code (cu_error u) \<and> tr_usage task' = cu_usage u \<and>
       \<not> has_active_reservation task' \<and> tr_reservation task' = tr_reservation task)"
proof -
  obtain r where r: "find_row i s = Some r" "row_to_task_record r = Inr task"
    using get by (auto simp: get_task_row)
  let ?t = "completed i u clk task s"
  have eq: "complete_task i u clk s = (?t, Inr ())"
    by (rule complete_task_eq [OF r dur])
  have row: "find_row i ?t = Some (completed_row u r)"
    by (simp add: completed_def completed.find_row_update r)
  have "is_ok (row_to_task_record (completed_row u r))"
    using r(2) is_ok_row_to_task_record [of r]
    by (simp add: is_ok_row_to_task_record completed_row_def split: option.split)
  then obtain task' where task': "row_to_task_record (completed_row u r) = Inr task'"
    by (auto simp: is_ok_conv)
  have code: "option_res decode_error_code (map_option (\<lambda>e. encode_error_code (er_code e)) x) =
      Inr (map_option er_code x)" for x
    by (cases x) (simp_all add: code.dec_enc)
  have json: "option_res from_json (map_option to_json x) = Inr x" for x :: "'x option"
    by (cases x) simp_all
  note f = record_fields [OF r(2)] and f' = record_fields [OF task']
  have fields: "tr_status task' = cu_status u" "tr_finished_at task' = Some (cu_finished_at u)"
    "tr_duration_ms task' = cu_duration_ms u" "tr_exit_code task' = cu_exit_code u"
    "tr_exit_signal task' = cu_exit_signal u" "tr_error task' = cu_error u"
    "tr_error_code task' = map_option er_code (cu_error u)" "tr_usage task' = cu_usage u"
    "tr_reservation task' = tr_reservation task"
    using f' f(7) by (simp_all add: completed_row_def status.dec_enc code json map_option.compositionality comp_def option.map_ident)
  have "\<not> has_active_reservation task'"
    using row_reserved_record [OF task'] by (auto simp: row_reserved_def completed_row_def release_time_def split: if_splits)
  then show ?thesis
    by (simp add: eq get_task_def row task' fields)
qed

text \<open>
  C10: Completing a task stores the outcome, ends its reservation and logs both: when its duration
  fits the column, the task reads back with the given status, end, duration, exit, error and usage,
  holds no reservation any more, and its event stream grew by \<open>resource_released\<close> (when a reservation
  was active) and the event of the outcome, in this order.
\<close>

theorem completion_releases_and_logs:
  "get_task i s = Inr task \<Longrightarrow> duration_fits (cu_duration_ms u) \<Longrightarrow>
   (let (t, outcome) = complete_task i u clk s in
      outcome = Inr () \<and>
      (case get_task i t of
         Inl _ \<Rightarrow> False
       | Inr task' \<Rightarrow>
           tr_status task' = cu_status u \<and> tr_finished_at task' = Some (cu_finished_at u) \<and>
           tr_duration_ms task' = cu_duration_ms u \<and> tr_exit_code task' = cu_exit_code u \<and>
           tr_exit_signal task' = cu_exit_signal u \<and> tr_error task' = cu_error u \<and>
           tr_error_code task' = map_option er_code (cu_error u) \<and> tr_usage task' = cu_usage u \<and>
           \<not> has_active_reservation task' \<and> tr_reservation task' = tr_reservation task) \<and>
      map el_event_type (task_log i t) =
        map el_event_type (task_log i s) @
        (if has_active_reservation task then [''resource_released''] else []) @
        [encode_event_type (completion_event (cu_status u))])"
proof -
  assume get: "get_task i s = Inr task" and dur: "duration_fits (cu_duration_ms u)"
  have "map el_event_type (task_log i (completed i u clk task s)) = map el_event_type (task_log i s) @
      (if has_active_reservation task then [''resource_released''] else []) @
      [encode_event_type (completion_event (cu_status u))]"
    by (simp add: completed_def released_log_def event_types_add_event)
  with complete_task_record [OF get dur, of clk] show ?thesis
    by auto
qed

theorem completion_releases_and_logs_witness:
  "map el_event_type (task_log ''t1'' (fst (complete_task ''t1'' sample_completion sample_clock
      (run_history [(OpInsert (sample_new ''t1''), sample_clock)])))) =
     [''submitted'', ''accepted'', ''planned'', ''finished'']"
proof -
  let ?s = "run_history [(OpInsert (sample_new ''t1''), sample_clock)]"
  have get: "get_task ''t1'' ?s = Inr (fresh_record (sample_new ''t1'') 5)" by code_simp
  have log: "map el_event_type (task_log ''t1'' ?s) = [''submitted'', ''accepted'', ''planned'']" by code_simp
  have dur: "duration_fits (cu_duration_ms sample_completion)" by code_simp
  have "\<not> has_active_reservation (fresh_record (sample_new ''t1'') 5)" by code_simp
  with completion_releases_and_logs [OF get dur, of sample_clock] log show ?thesis
    by (simp add: sample_completion_def completion_event_def split: prod.splits)
qed

end
