(* ===== verification/Repo_Queries.thy ===== *)
theory Repo_Queries
  imports Repo_Effects "HOL-Library.Multiset"
begin

section \<open>Queries of the repository\<close>

text \<open>
  The selections, orders, counts and groupings of the queries, stated on the decoded records,
  and the migration of the schema.
\<close>

subsection \<open>Selections\<close>

lemma decoded_rows:
  "map_res row_to_task_record rs = Inr tasks \<Longrightarrow>
   set tasks = {task. \<exists>r \<in> set rs. row_to_task_record r = Inr task}"
proof (induction rs arbitrary: tasks)
  case Nil
  then show ?case by simp
next
  case (Cons r rs)
  then obtain t ts where "row_to_task_record r = Inr t" "map_res row_to_task_record rs = Inr ts" "tasks = t # ts"
    by (auto simp: res_bind_eq_Inr)
  with Cons.IH show ?case by auto
qed

lemma get_task_stored: "get_task i s = Inr task \<Longrightarrow> \<exists>r \<in> set (rp_tasks s). row_to_task_record r = Inr task"
  using find_row_Some by (fastforce simp: get_task_row)

lemma select_exact:
  assumes "map_res row_to_task_record (sort_key k (filter P (rp_tasks s))) = Inr tasks"
    and "get_task i s = Inr task"
    and "\<And>r. row_to_task_record r = Inr task \<Longrightarrow> P r = Q task"
  shows "(task \<in> set tasks) = Q task"
  using assms get_task_stored [OF assms(2)] by (auto simp: decoded_rows)

lemma status_column: "row_to_task_record r = Inr task \<Longrightarrow> c_status r = encode_status (tr_status task)"
  using record_fields(2) status.dec_sound by blast

lemma encode_status_eq [simp]:
  "(encode_status st = ''accepted'') = (st = Accepted)" "(encode_status st = ''running'') = (st = Running)"
  by (cases st; simp)+

lemma terminal_status_texts [simp]:
  "(encode_status st \<in> {''success'', ''failed'', ''cancelled''}) = is_terminal st"
  by (cases st) simp_all

text \<open>
  C24: The recovery list holds exactly the tasks that are not terminal, the reservation list exactly
  those with an active reservation, and the garbage-collection list exactly those that are terminal
  and ended at or before the cutoff.
\<close>

theorem queries_select_exactly:
  "get_task i (run_history ops) = Inr task \<Longrightarrow>
   (case list_non_terminal (run_history ops) of Inl _ \<Rightarrow> False
    | Inr tasks \<Rightarrow> (task \<in> set tasks) = (\<not> is_terminal (tr_status task))) \<and>
   (case list_active_reservations (run_history ops) of Inl _ \<Rightarrow> False
    | Inr tasks \<Rightarrow> (task \<in> set tasks) = has_active_reservation task) \<and>
   (case list_gc_candidates cutoff (run_history ops) of Inl _ \<Rightarrow> False
    | Inr tasks \<Rightarrow> (task \<in> set tasks) =
        (is_terminal (tr_status task) \<and> is_some_and (tr_finished_at task) (\<lambda>t. t \<le> cutoff)))"
proof -
  let ?s = "run_history ops"
  assume get: "get_task i ?s = Inr task"
  note ok = list_queries_ok [OF run_history_ok [of ops]]
  obtain xs ys zs where lists: "list_non_terminal ?s = Inr xs" "list_active_reservations ?s = Inr ys"
      "list_gc_candidates cutoff ?s = Inr zs"
    using ok(2,3) ok(4) [of cutoff] by (auto simp: is_ok_conv)
  have "(task \<in> set xs) = (\<not> is_terminal (tr_status task))"
    using lists(1) get unfolding list_non_terminal_def
    by (rule select_exact) (cases "tr_status task"; simp add: status_column)
  moreover have "(task \<in> set ys) = has_active_reservation task"
    using lists(2) get unfolding list_active_reservations_def
    by (rule select_exact) (rule row_reserved_record)
  moreover have "(task \<in> set zs) =
      (is_terminal (tr_status task) \<and> is_some_and (tr_finished_at task) (\<lambda>t. t \<le> cutoff))"
    using lists(3) get unfolding list_gc_candidates_def
    by (rule select_exact) (simp only: gc_row_def status_column terminal_status_texts record_fields(10))
  ultimately show ?thesis by (simp add: lists)
qed

theorem queries_select_exactly_witness:
  "(case list_gc_candidates 9 (run_history (sample_history @ [(OpComplete ''t1'' sample_completion, sample_clock)])) of
      Inl _ \<Rightarrow> False
    | Inr tasks \<Rightarrow> map tr_task_id tasks = [''t1'']) \<and>
   (\<exists>task. get_task ''t1'' (run_history sample_history) = Inr task \<and>
     (case list_non_terminal (run_history sample_history) of Inl _ \<Rightarrow> False | Inr tasks \<Rightarrow> task \<in> set tasks))"
proof -
  obtain task where t: "get_task ''t1'' (run_history sample_history) = Inr task"
    and st: "\<not> is_terminal (tr_status task)"
  proof -
    have "case get_task ''t1'' (run_history sample_history) of Inl _ \<Rightarrow> False
      | Inr task \<Rightarrow> \<not> is_terminal (tr_status task)"
      by code_simp
    then show thesis using that by (auto split: sum.splits)
  qed
  have "case list_gc_candidates 9 (run_history (sample_history @ [(OpComplete ''t1'' sample_completion, sample_clock)])) of
      Inl _ \<Rightarrow> False
    | Inr tasks \<Rightarrow> map tr_task_id tasks = [''t1'']"
    by code_simp
  with t st queries_select_exactly [OF t, of 0] show ?thesis
    by (auto split: sum.splits)
qed

subsection \<open>The dispatch queue\<close>

lemma map_res_rows:
  "map_res row_to_task_record rs = Inr tasks \<Longrightarrow>
   length tasks = length rs \<and> map tr_task_id tasks = map c_task_id rs \<and>
   map tr_created_at tasks = map c_created_at_ms rs \<and>
   map (encode_status \<circ> tr_status) tasks = map c_status rs"
  by (induction rs arbitrary: tasks) (auto simp: res_bind_eq_Inr record_fields status_column)

lemma sorted_take_le:
  assumes "sorted (map k xs)" "x \<in> set (take n xs)" "y \<in> set xs" "y \<notin> set (take n xs)"
  shows "k x \<le> k y"
proof -
  have "xs = take n xs @ drop n xs" by simp
  with assms have "y \<in> set (drop n xs)" by (metis Un_iff set_append)
  moreover have "sorted (map k (take n xs) @ map k (drop n xs))"
    using assms(1) by (simp flip: map_append)
  ultimately show ?thesis using assms(2) by (auto simp: sorted_append)
qed

text \<open>
  C19: The dispatch queue is first in, first out: it lists as many accepted tasks as the limit allows,
  without repetition, oldest first, and an accepted task that is left out is no older than any task
  that is listed.
\<close>

theorem dispatch_queue_is_fifo:
  "0 \<le> sint limit \<Longrightarrow>
   (case list_accepted limit (run_history ops) of
      Inl _ \<Rightarrow> False
    | Inr tasks \<Rightarrow>
        length tasks = min (unat limit) (count_accepted (run_history ops)) \<and>
        list_all (\<lambda>task. tr_status task = Accepted) tasks \<and>
        distinct (map tr_task_id tasks) \<and> sorted (map tr_created_at tasks) \<and>
        list_all (\<lambda>r. c_status r \<noteq> ''accepted'' \<or> c_task_id r \<in> set (map tr_task_id tasks) \<or>
                      list_all (\<lambda>task. tr_created_at task \<le> c_created_at_ms r) tasks)
          (rp_tasks (run_history ops)))"
proof -
  let ?s = "run_history ops"
  let ?q = "sort_key c_created_at_ms (filter (\<lambda>r. c_status r = ''accepted'') (rp_tasks ?s))"
  let ?rs = "take (unat limit) ?q"
  assume "0 \<le> sint limit"
  then have q: "list_accepted limit ?s = map_res row_to_task_record ?rs"
    by (simp add: list_accepted_def sql_limit_def)
  obtain tasks where tasks: "map_res row_to_task_record ?rs = Inr tasks"
    using list_queries_ok(1) [OF run_history_ok, of limit ops] by (auto simp: q is_ok_conv)
  note cols = map_res_rows [OF tasks]
  have "length tasks = min (unat limit) (count_accepted ?s)"
    using cols by (simp add: count_accepted_def count_by_status_def min.commute)
  moreover have "list_all (\<lambda>task. tr_status task = Accepted) tasks"
  proof -
    have "set (map (encode_status \<circ> tr_status) tasks) \<subseteq> {''accepted''}"
      using cols set_take_subset [of "unat limit" ?q] by auto
    then show ?thesis by (auto simp: list_all_iff)
  qed
  moreover have "distinct (map tr_task_id tasks)"
  proof -
    have "distinct (map c_task_id (rp_tasks ?s))"
      using run_history_ok [of ops] by (simp add: repo_ok_def task_ids_def)
    then have "distinct (map c_task_id (filter (\<lambda>r. c_status r = ''accepted'') (rp_tasks ?s)))"
      by (rule distinct_map_filter)
    then have "distinct (map c_task_id ?q)"
      by (simp add: distinct_map)
    then show ?thesis using cols by (simp add: distinct_take flip: take_map)
  qed
  moreover have "sorted (map tr_created_at tasks)"
    using cols by (simp add: sorted_wrt_take flip: take_map)
  moreover have "list_all (\<lambda>r. c_status r \<noteq> ''accepted'' \<or> c_task_id r \<in> set (map tr_task_id tasks) \<or>
                      list_all (\<lambda>task. tr_created_at task \<le> c_created_at_ms r) tasks) (rp_tasks ?s)"
  proof -
    have "c \<le> c_created_at_ms r"
      if r: "r \<in> set ?q" "c_task_id r \<notin> set (map tr_task_id tasks)"
        and c: "c \<in> set (map tr_created_at tasks)" for r c
    proof -
      from c cols obtain x where x: "x \<in> set ?rs" "c = c_created_at_ms x" by auto
      moreover have "r \<notin> set ?rs" using r(2) cols by force
      ultimately show ?thesis
        using sorted_take_le [of c_created_at_ms ?q x "unat limit" r] r(1) by simp
    qed
    then show ?thesis unfolding list_all_iff by fastforce
  qed
  ultimately show ?thesis by (simp add: q tasks)
qed

theorem dispatch_queue_is_fifo_witness:
  "case list_accepted 1 (run_history
      [(OpInsert (sample_new ''b''), \<lambda>_. 9), (OpInsert (sample_new ''a''), \<lambda>_. 4)]) of
     Inl _ \<Rightarrow> False
   | Inr tasks \<Rightarrow> map tr_task_id tasks = [''a''] \<and> sorted (map tr_created_at tasks)"
proof -
  let ?ops = "[(OpInsert (sample_new ''b''), \<lambda>_. 9), (OpInsert (sample_new ''a''), \<lambda>_. 4)]"
  have "case list_accepted 1 (run_history ?ops) of
     Inl _ \<Rightarrow> False
   | Inr tasks \<Rightarrow> map tr_task_id tasks = [''a'']"
    by code_simp
  moreover have "0 \<le> sint (1 :: u64)" by simp
  ultimately show ?thesis
    using dispatch_queue_is_fifo [of 1 ?ops] by (auto split: sum.splits)
qed

subsection \<open>Aggregates\<close>

lemma group_count_get:
  "map_of (group_count ks) k = (if k \<in> set ks then Some (length (filter (\<lambda>k'. k' = k) ks)) else None)"
proof -
  have "map_of (fold (\<lambda>k. bt_insert k (f k)) xs m) k = (if k \<in> set xs then Some (f k) else map_of m k)"
    for f :: "string \<Rightarrow> nat" and xs m
    by (induction xs arbitrary: m) (auto simp: map_of_bt_insert)
  then show ?thesis by (simp add: group_count_def)
qed

lemma group_count_invar: "bt_invar (group_count ks)"
proof -
  have "bt_invar m \<Longrightarrow> bt_invar (fold (\<lambda>k. bt_insert k (f k)) xs m)" for f :: "string \<Rightarrow> nat" and xs m
    by (induction xs arbitrary: m) (auto intro: bt_invar_insert)
  then show ?thesis by (simp add: group_count_def bt_invar_Nil)
qed

lemma sum_list_group_count: "sum_list (map snd (group_count ks)) = length ks"
proof -
  have inv: "distinct (map fst (group_count ks))"
    using group_count_invar by (auto simp: bt_invar_def)
  have keys: "fst ` set (group_count ks) = set ks"
  proof -
    have "fst ` set (group_count ks) = dom (map_of (group_count ks))" by (simp add: dom_map_of_conv_image_fst)
    also have "\<dots> = set ks" by (auto simp: group_count_get dom_def)
    finally show ?thesis .
  qed
  have "sum_list (map snd (group_count ks)) = sum_list (map (\<lambda>k. the (map_of (group_count ks) k)) (map fst (group_count ks)))"
    using inv by (intro arg_cong [where f = sum_list]) (auto simp: map_of_is_SomeI)
  also have "\<dots> = (\<Sum>k \<in> set ks. the (map_of (group_count ks) k))"
    using inv keys by (subst sum_list_distinct_conv_sum_set) simp_all
  also have "\<dots> = (\<Sum>k \<in> set ks. length (filter (\<lambda>k'. k' = k) ks))"
    by (intro sum.cong) (simp_all add: group_count_get)
  also have "\<dots> = length ks"
    using sum_count_set [of ks "set ks"]
    by (simp add: count_list_eq_length_filter) (simp add: eq_commute)
  finally show ?thesis .
qed

text \<open>
  The metrics snapshot is exact: the count under each status is the number of tasks in it (no
  entry for none), the counts together are the number of tasks, and the two maps are well formed.
\<close>

theorem metrics_snapshot_is_exact:
  "case metrics_snapshot (Inr ()) s of
     Inl _ \<Rightarrow> False
   | Inr m \<Rightarrow>
       map_of (ms_by_status m) (encode_status st) =
         (if count_by_status st s = 0 then None else Some (count_by_status st s)) \<and>
       sum_list (map snd (ms_by_status m)) = length (rp_tasks s) \<and>
       bt_invar (ms_by_status m) \<and> bt_invar (ms_by_error_code m)"
proof -
  have "map_of (group_count (map c_status (rp_tasks s))) (encode_status st) =
     (if count_by_status st s = 0 then None else Some (count_by_status st s))"
    by (force simp: group_count_get count_by_status_def filter_map comp_def filter_empty_conv)
  then show ?thesis
    by (simp add: metrics_snapshot_def sum_list_group_count group_count_invar)
qed

subsection \<open>Schema\<close>

lemma ensure_task_column_simps:
  "name \<in> set cols \<Longrightarrow> ensure_task_column name cols = cols"
  "name \<notin> set cols \<Longrightarrow> ensure_task_column name cols = cols @ [name]"
  by (auto simp: ensure_task_column_def list_ex_iff)

lemma set_ensure_task_column: "set (ensure_task_column name cols) = insert name (set cols)"
  by (auto simp: ensure_task_column_def list_ex_iff)

lemma prefix_ensure_task_column: "prefix cols cols' \<Longrightarrow> prefix cols (ensure_task_column name cols')"
  by (auto simp: ensure_task_column_def)

lemma insert5: "insert e (insert d (insert c (insert b (insert a X)))) = {a, b, c, d, e} \<union> X"
  by blast

lemma set_init_columns:
  "set (init_columns existing) =
     {''execution_plan_json'', ''control_context_json'', ''reservation_json'', ''reserved_at_ms'', ''released_at_ms''}
     \<union> set (case existing of None \<Rightarrow> tasks_columns | Some cols \<Rightarrow> cols)"
  by (simp only: init_columns_def Let_def set_ensure_task_column) (rule insert5)

text \<open>
  Starting up is a safe migration: a new table gets its full list of columns, an old table keeps
  its columns and their order and gains whichever of the five newer columns it lacks, and starting
  again changes nothing.
\<close>

theorem schema_migration:
  "init_columns None = tasks_columns \<and>
   prefix cols (init_columns (Some cols)) \<and>
   set (init_columns (Some cols)) = set cols \<union>
     {''execution_plan_json'', ''control_context_json'', ''reservation_json'', ''reserved_at_ms'', ''released_at_ms''} \<and>
   init_columns (Some (init_columns existing)) = init_columns existing"
proof (intro conjI)
  show "init_columns None = tasks_columns" by code_simp
  show "prefix cols (init_columns (Some cols))"
    by (simp only: init_columns_def Let_def option.case prefix_ensure_task_column prefix_order.order_refl)
  show "set (init_columns (Some cols)) = set cols \<union>
     {''execution_plan_json'', ''control_context_json'', ''reservation_json'', ''reserved_at_ms'', ''released_at_ms''}"
    by (simp only: set_init_columns option.case Un_commute)
  have "ensure_task_column name (init_columns existing) = init_columns existing"
    if "name \<in> {''execution_plan_json'', ''control_context_json'', ''reservation_json'', ''reserved_at_ms'', ''released_at_ms''}"
    for name
  proof (rule ensure_task_column_simps)
    show "name \<in> set (init_columns existing)"
      unfolding set_init_columns using that by (rule UnI1)
  qed
  then show "init_columns (Some (init_columns existing)) = init_columns existing"
    by (simp only: init_columns_def [of "Some _"] Let_def option.case insert_iff simp_thms)
qed

end
