(* ===== verification/Settings.thy ===== *)
theory Settings
  imports Types
begin

section \<open>Settings: the configuration of the server, \<open>src/runtime.rs\<close> and \<open>src/cli.rs\<close>\<close>

text \<open>
  The command-line arguments of the server, the settings derived from them, the parser of tenant
  quotas and the default identity. Values that \<open>clap\<close> parses are already typed; the environment
  variable \<open>HOSTNAME\<close> is an argument. A \<open>Duration\<close> is kept as the number it was built from.
\<close>

record ServeArgs =
  sa_listen_addr :: string
  sa_data_dir :: string
  sa_max_running_tasks :: u64
  sa_max_queued_tasks :: u64
  sa_termination_grace_ms :: u64
  sa_result_retention_secs :: u64
  sa_gc_interval_ms :: u64
  sa_dispatch_poll_interval_ms :: u64
  sa_cgroup_root :: string
  sa_runtime_id :: "string option"
  sa_default_capability_mode :: CapabilityMode
  sa_disable_linux_sandbox :: bool
  sa_disable_cgroup :: bool
  sa_capacity_memory_bytes :: "u64 option"
  sa_capacity_pids :: "u64 option"
  sa_tenant_quota :: "string list"

record Settings =
  se_runtime_id :: string
  se_listen_addr :: string
  se_data_dir :: string
  se_tasks_dir :: string
  se_database_path :: string
  se_max_running_tasks :: u64
  se_max_queued_tasks :: u64
  se_termination_grace_ms :: u64
  se_result_retention_secs :: u64
  se_gc_interval_ms :: u64
  se_dispatch_poll_interval_ms :: u64
  se_cgroup_root :: string
  se_default_capability_mode :: CapabilityMode
  se_disable_linux_sandbox :: bool
  se_disable_cgroup :: bool
  se_capacity_memory_bytes :: "u64 option"
  se_capacity_pids :: "u64 option"
  se_tenant_quotas :: "ResourceCapacity btree"

subsection \<open>Tenant quotas\<close>

definition quota_error :: "string \<Rightarrow> string \<Rightarrow> AppError" where
  "quota_error raw what = InvalidInput (''tenant-quota '' @ quoted raw @ '': '' @ what)"

definition quota_value :: "string \<Rightarrow> string \<Rightarrow> string \<Rightarrow> u64 app_result" where
  "quota_value raw key val =
     ok_or (parse_u64 val) (quota_error raw (key @ '' value '' @ quoted val @ '' is not a valid u64''))"

text \<open>The loop over \<open>spec_part.split(',')\<close> with its three accumulators.\<close>

fun quota_loop ::
    "string \<Rightarrow> u64 option \<Rightarrow> u64 option \<Rightarrow> u64 option \<Rightarrow> string list \<Rightarrow>
     (u64 option \<times> u64 option \<times> u64 option) app_result" where
  "quota_loop raw task_slots memory_bytes pids [] = Inr (task_slots, memory_bytes, pids)"
| "quota_loop raw task_slots memory_bytes pids (item # items) =
     (let kv = trim item
      in if kv = [] then quota_loop raw task_slots memory_bytes pids items
         else
           res_bind (ok_or (split_once CHR '':'' kv)
               (quota_error raw (''malformed key-value '' @ quoted kv))) (\<lambda>(key, val).
           let val = trim val; key = trim key
           in if key = ''slots'' then
                res_bind (quota_value raw ''slots'' val) (\<lambda>v.
                quota_loop raw (Some v) memory_bytes pids items)
              else if key = ''memory'' then
                res_bind (quota_value raw ''memory'' val) (\<lambda>v.
                quota_loop raw task_slots (Some v) pids items)
              else if key = ''pids'' then
                res_bind (quota_value raw ''pids'' val) (\<lambda>v.
                quota_loop raw task_slots memory_bytes (Some v) items)
              else Inl (quota_error raw (''unknown key '' @ quoted key))))"

definition parse_tenant_quota :: "string \<Rightarrow> (string \<times> ResourceCapacity) app_result" where
  "parse_tenant_quota raw =
     res_bind (ok_or (split_once CHR ''='' raw)
         (quota_error raw ''expected format name=slots:N[,memory:BYTES][,pids:N]'')) (\<lambda>(name_part, spec_part).
     let name = trim name_part
     in res_bind (ensure (name \<noteq> []) (InvalidInput ''tenant-quota: tenant name must not be empty'')) (\<lambda>_.
        res_bind (quota_loop raw None None None (split_on CHR '','' spec_part)) (\<lambda>(slots, memory, pids).
        res_bind (ok_or slots (quota_error raw (quoted ''slots'' @ '' is required''))) (\<lambda>task_slots.
        Inr (name, \<lparr>rc_task_slots = task_slots, rc_memory_bytes = memory, rc_pids = pids\<rparr>)))))"

subsection \<open>Identity\<close>

definition runtime_id_char :: "char \<Rightarrow> bool" where
  "runtime_id_char ch = (is_ascii_alphanumeric ch \<or> ch \<in> {CHR ''-'', CHR ''_'', CHR ''.''})"

definition sanitize_runtime_id :: "string \<Rightarrow> string" where
  "sanitize_runtime_id value = map (\<lambda>ch. if runtime_id_char ch then ch else CHR ''-'') value"

definition default_runtime_id :: "string option \<Rightarrow> string \<Rightarrow> string" where
  "default_runtime_id hostname listen_addr =
     (let host = (case hostname of
                    Some value \<Rightarrow> if trim value \<noteq> [] then value else ''execgo-runtime''
                  | None \<Rightarrow> ''execgo-runtime'')
      in sanitize_runtime_id host @ ''-'' @ sanitize_runtime_id listen_addr)"

subsection \<open>From the arguments\<close>

fun collect_quotas :: "ResourceCapacity btree \<Rightarrow> string list \<Rightarrow> ResourceCapacity btree app_result" where
  "collect_quotas quotas [] = Inr quotas"
| "collect_quotas quotas (spec # specs) =
     res_bind (parse_tenant_quota spec) (\<lambda>(name, cap).
     collect_quotas (bt_insert name cap quotas) specs)"

definition from_args :: "string option \<Rightarrow> ServeArgs \<Rightarrow> Settings app_result" where
  "from_args hostname args =
     (let data_dir = sa_data_dir args
      in res_bind (collect_quotas [] (sa_tenant_quota args)) (\<lambda>tenant_quotas.
         Inr \<lparr>se_runtime_id = unwrap_or (sa_runtime_id args) (default_runtime_id hostname (sa_listen_addr args)),
              se_listen_addr = sa_listen_addr args,
              se_data_dir = data_dir,
              se_tasks_dir = path_join data_dir ''tasks'',
              se_database_path = path_join data_dir ''runtime.db'',
              se_max_running_tasks = sa_max_running_tasks args,
              se_max_queued_tasks = sa_max_queued_tasks args,
              se_termination_grace_ms = sa_termination_grace_ms args,
              se_result_retention_secs = sa_result_retention_secs args,
              se_gc_interval_ms = sa_gc_interval_ms args,
              se_dispatch_poll_interval_ms = sa_dispatch_poll_interval_ms args,
              se_cgroup_root = sa_cgroup_root args,
              se_default_capability_mode = sa_default_capability_mode args,
              se_disable_linux_sandbox = sa_disable_linux_sandbox args,
              se_disable_cgroup = sa_disable_cgroup args,
              se_capacity_memory_bytes = sa_capacity_memory_bytes args,
              se_capacity_pids = sa_capacity_pids args,
              se_tenant_quotas = tenant_quotas\<rparr>))"

subsection \<open>Lemmas\<close>

text \<open>The text of a quota, as the usage line of the flag describes it.\<close>

definition show_optional :: "string \<Rightarrow> u64 option \<Rightarrow> string" where
  "show_optional key v = (case v of None \<Rightarrow> [] | Some w \<Rightarrow> '','' @ key @ '':'' @ show_u64 w)"

definition show_tenant_quota :: "string \<Rightarrow> ResourceCapacity \<Rightarrow> string" where
  "show_tenant_quota name cap =
     name @ ''=slots:'' @ show_u64 (rc_task_slots cap) @
     show_optional ''memory'' (rc_memory_bytes cap) @ show_optional ''pids'' (rc_pids cap)"

lemma show_u64_chars: "c \<in> set (show_u64 w) \<Longrightarrow> is_ascii_digit c"
  by (simp add: show_u64_def show_nat_digits)

lemma show_u64_no_comma: "CHR '','' \<notin> set (show_u64 w)"
  using show_u64_chars [of "CHR '',''" w] by (auto simp: is_ascii_digit_def)

lemma trim_show_u64 [simp]: "trim (show_u64 w) = show_u64 w"
  by (simp add: show_u64_def trim_show_nat)

lemma quota_value_show [simp]: "quota_value raw key (show_u64 w) = Inr w"
  by (simp add: quota_value_def parse_show_u64)

definition quota_kv :: "string \<Rightarrow> u64 \<Rightarrow> string" where
  "quota_kv key w = key @ CHR '':'' # show_u64 w"

lemma trim_item:
  assumes "\<forall>c \<in> set key. \<not> is_whitespace c"
  shows "trim (quota_kv key w) = quota_kv key w"
  unfolding quota_kv_def using assms
  by (intro trim_id) (auto dest: show_u64_chars simp: digit_not_whitespace, simp add: is_whitespace_def)

lemma quota_loop_item:
  assumes "\<forall>c \<in> set key. \<not> is_whitespace c \<and> c \<noteq> CHR '':''"
  shows "quota_loop raw s m p (quota_kv key w # items) =
    (if key = ''slots'' then quota_loop raw (Some w) m p items
     else if key = ''memory'' then quota_loop raw s (Some w) p items
     else if key = ''pids'' then quota_loop raw s m (Some w) items
     else Inl (quota_error raw (''unknown key '' @ quoted key)))"
proof -
  have t: "trim (quota_kv key w) = quota_kv key w"
    using assms by (intro trim_item) auto
  have s: "split_once CHR '':'' (quota_kv key w) = Some (key, show_u64 w)"
    unfolding quota_kv_def using assms by (intro split_once_append) auto
  have k: "trim key = key" using assms by (intro trim_id) auto
  show ?thesis by (cases "quota_kv key w") (use t s k in \<open>simp_all add: Let_def quota_kv_def\<close>)
qed

lemma split_slots:
  "split_on CHR '','' (''slots:'' @ show_u64 a @ show_optional ''memory'' m @ show_optional ''pids'' p) =
     quota_kv ''slots'' a #
     (case m of None \<Rightarrow> [] | Some w \<Rightarrow> [quota_kv ''memory'' w]) @
     (case p of None \<Rightarrow> [] | Some w \<Rightarrow> [quota_kv ''pids'' w])"
proof -
  have none: "split_on CHR '','' (quota_kv key w) = [quota_kv key w]"
    if "CHR '','' \<notin> set key" for key w
    using that show_u64_no_comma unfolding quota_kv_def by (intro split_on_none) auto
  have more: "split_on CHR '','' (quota_kv key w @ CHR '','' # rest) =
      quota_kv key w # split_on CHR '','' rest"
    if "CHR '','' \<notin> set key" for key w rest
    using that show_u64_no_comma unfolding quota_kv_def by (intro split_on_append) auto
  show ?thesis
    using none [of "''slots''" a] none [of "''memory''"] none [of "''pids''"]
      more [of "''slots''" a] more [of "''memory''"]
    by (cases m; cases p) (simp_all add: show_optional_def quota_kv_def)
qed

text \<open>
  C25: The quota flag reads what it describes: for a trimmed, non-empty tenant name without an
  equals sign, the text \<open>name=slots:N[,memory:BYTES][,pids:N]\<close> parses to that name and exactly those
  limits, up to the largest 64-bit value.
\<close>

theorem tenant_quota_roundtrip:
  assumes "name \<noteq> []" "trim name = name" "CHR ''='' \<notin> set name"
  shows "parse_tenant_quota (show_tenant_quota name cap) = Inr (name, cap)"
proof -
  have once: "split_once CHR ''='' (name @ CHR ''='' # rest) = Some (name, rest)" for rest
    using assms(3) by (rule split_once_append)
  have loop: "quota_loop raw None None None
      (quota_kv ''slots'' a #
       (case m of None \<Rightarrow> [] | Some w \<Rightarrow> [quota_kv ''memory'' w]) @
       (case p of None \<Rightarrow> [] | Some w \<Rightarrow> [quota_kv ''pids'' w])) = Inr (Some a, m, p)" for raw a m p
  proof -
    have keys: "\<forall>c \<in> set key. \<not> is_whitespace c \<and> c \<noteq> CHR '':''"
      if "key \<in> {''slots'', ''memory'', ''pids''}" for key
      using that by (auto simp: is_whitespace_def)
    note items = quota_loop_item [OF keys [of "''slots''"]] quota_loop_item [OF keys [of "''memory''"]]
      quota_loop_item [OF keys [of "''pids''"]]
    show ?thesis
      by (cases m; cases p) (simp_all add: items del: quota_loop.simps(2))
  qed
  obtain a m p where cap: "cap = \<lparr>rc_task_slots = a, rc_memory_bytes = m, rc_pids = p\<rparr>"
    by (cases cap)
  have shown: "show_tenant_quota name cap =
      name @ CHR ''='' # (''slots:'' @ show_u64 a @ show_optional ''memory'' m @ show_optional ''pids'' p)"
    by (simp add: show_tenant_quota_def cap)
  show ?thesis
    unfolding parse_tenant_quota_def shown once ok_or_simps res_bind_simps prod.case Let_def split_slots loop
    by (simp add: assms cap)
qed

theorem tenant_quota_roundtrip_witness:
  "parse_tenant_quota (show_tenant_quota ''alice''
     \<lparr>rc_task_slots = 4, rc_memory_bytes = Some 2147483648, rc_pids = None\<rparr>) =
   Inr (''alice'', \<lparr>rc_task_slots = 4, rc_memory_bytes = Some 2147483648, rc_pids = None\<rparr>)"
  by (rule tenant_quota_roundtrip) (simp_all, code_simp)

lemma collect_quotas_eq:
  "collect_quotas m specs =
     res_bind (map_res parse_tenant_quota specs) (\<lambda>parsed.
       Inr (fold (\<lambda>(name, cap). bt_insert name cap) parsed m))"
proof (induction specs arbitrary: m)
  case Nil
  show ?case by simp
next
  case (Cons spec specs)
  show ?case
    by (cases "parse_tenant_quota spec"; cases "map_res parse_tenant_quota specs")
      (auto simp: Cons.IH)
qed

lemma fold_bt_insert:
  "map_of (fold (\<lambda>(name, cap). bt_insert name cap) parsed m) t = (map_of m ++ map_of (rev parsed)) t"
proof (induction parsed arbitrary: m)
  case Nil
  show ?case by simp
next
  case (Cons x parsed)
  obtain name cap where "x = (name, cap)" by (cases x)
  then show ?case by (simp add: Cons.IH map_of_bt_insert map_add_def split: option.split)
qed

lemma fold_bt_insert_invar:
  "bt_invar m \<Longrightarrow> bt_invar (fold (\<lambda>(name, cap). bt_insert name cap) parsed m)"
  by (induction parsed arbitrary: m) (auto intro: bt_invar_insert)

text \<open>
  The quota flags are read in order: the server starts exactly when every flag parses, the
  first bad flag gives the error, and a tenant named twice has the quota of its last flag.
\<close>

theorem quota_flags_last_wins:
  "case map_res parse_tenant_quota (sa_tenant_quota args) of
     Inl e \<Rightarrow> from_args hostname args = Inl e
   | Inr parsed \<Rightarrow>
       (case from_args hostname args of
          Inl _ \<Rightarrow> False
        | Inr settings \<Rightarrow>
            map_of (se_tenant_quotas settings) tenant = map_of (rev parsed) tenant \<and>
            bt_invar (se_tenant_quotas settings))"
proof (cases "map_res parse_tenant_quota (sa_tenant_quota args)")
  case (Inl e)
  then show ?thesis by (simp add: from_args_def collect_quotas_eq)
next
  case (Inr parsed)
  then show ?thesis
    by (simp add: from_args_def collect_quotas_eq Let_def fold_bt_insert fold_bt_insert_invar bt_invar_Nil)
qed

lemma runtime_id_char_dash: "runtime_id_char CHR ''-''"
  by (simp add: runtime_id_char_def)

lemma list_all_sanitize: "list_all runtime_id_char (sanitize_runtime_id value)"
  by (auto simp: sanitize_runtime_id_def list_all_iff runtime_id_char_dash)

text \<open>
  A generated identity is safe: it consists of letters, digits, dashes, underscores and dots
  only; sanitising keeps the length, leaves a safe text alone and is idempotent.
\<close>

theorem runtime_id_is_sanitized:
  "list_all runtime_id_char (default_runtime_id hostname listen_addr) \<and>
   length (sanitize_runtime_id value) = length value \<and>
   (sanitize_runtime_id value = value) = list_all runtime_id_char value \<and>
   sanitize_runtime_id (sanitize_runtime_id value) = sanitize_runtime_id value"
proof -
  have id: "(sanitize_runtime_id v = v) = list_all runtime_id_char v" for v
  proof (induction v)
    case Nil
    show ?case by (simp add: sanitize_runtime_id_def)
  next
    case (Cons c v)
    then show ?case by (auto simp: sanitize_runtime_id_def runtime_id_char_dash)
  qed
  show ?thesis
    using id [of "sanitize_runtime_id value"] list_all_sanitize [of "value"]
    by (simp add: id default_runtime_id_def Let_def list_all_sanitize runtime_id_char_dash)
      (simp add: sanitize_runtime_id_def)
qed

end
