(* ===== verification/Utf8.thy ===== *)
theory Utf8
  imports Prelude
begin

section \<open>Utf8: \<open>String::from_utf8_lossy\<close> of the standard library\<close>

text \<open>
  A text is the sequence of its UTF-8 bytes, one character for each byte. The outputs of a task are
  arbitrary bytes; where they are shown as text, every maximal part of an ill-formed sequence becomes
  one replacement character.
\<close>

definition byte :: "char \<Rightarrow> nat" where
  "byte c = of_char c"

text \<open>The length a first byte announces; zero when no character starts with it.\<close>

definition utf8_width :: "nat \<Rightarrow> nat" where
  "utf8_width b =
     (if b < 0x80 then 1
      else if 0xC2 \<le> b \<and> b \<le> 0xDF then 2
      else if 0xE0 \<le> b \<and> b \<le> 0xEF then 3
      else if 0xF0 \<le> b \<and> b \<le> 0xF4 then 4
      else 0)"

text \<open>The bytes that may follow; the second is restricted against overlong forms and surrogates.\<close>

definition continues :: "nat \<Rightarrow> nat \<Rightarrow> nat \<Rightarrow> bool" where
  "continues b n c =
     (let low = (if n = 1 \<and> b = 0xE0 then 0xA0 else if n = 1 \<and> b = 0xF0 then 0x90 else 0x80);
          high = (if n = 1 \<and> b = 0xED then 0x9F else if n = 1 \<and> b = 0xF4 then 0x8F else 0xBF)
      in low \<le> c \<and> c \<le> high)"

definition continuation :: "char \<Rightarrow> string \<Rightarrow> nat" where
  "continuation b rest =
     length (takeWhile (\<lambda>(n, c). continues (byte b) n (byte c)) (zip [1..<utf8_width (byte b)] rest))"

definition replacement :: string where
  "replacement = [CHR 0xEF, CHR 0xBF, CHR 0xBD]"

function from_utf8_lossy :: "string \<Rightarrow> string" where
  "from_utf8_lossy [] = []"
| "from_utf8_lossy (b # rest) =
     (let k = continuation b rest
      in (if Suc k = utf8_width (byte b) then b # take k rest else replacement) @ from_utf8_lossy (drop k rest))"
  by pat_completeness auto
termination by (relation "measure length") auto

subsection \<open>Well-formed texts\<close>

definition utf8_char :: "string \<Rightarrow> bool" where
  "utf8_char cs =
     (case cs of [] \<Rightarrow> False
      | b # rest \<Rightarrow> continuation b rest = length rest \<and> utf8_width (byte b) = Suc (length rest))"

definition valid_utf8 :: "string \<Rightarrow> bool" where
  "valid_utf8 s = (\<exists>css. list_all utf8_char css \<and> s = concat css)"

lemma valid_utf8_Nil: "valid_utf8 []"
  unfolding valid_utf8_def by (rule exI [of _ "[]"]) simp

lemma valid_utf8_append: "utf8_char cs \<Longrightarrow> valid_utf8 s \<Longrightarrow> valid_utf8 (cs @ s)"
proof -
  assume "utf8_char cs" "valid_utf8 s"
  then obtain css where "list_all utf8_char (cs # css)" "s = concat css" by (auto simp: valid_utf8_def)
  then show ?thesis unfolding valid_utf8_def by (intro exI [of _ "cs # css"]) simp
qed

lemma continuation_bound: "continuation b rest \<le> length rest" "continuation b rest \<le> utf8_width (byte b) - 1"
  using length_takeWhile_le [of "\<lambda>(n, c). continues (byte b) n (byte c)" "zip [1..<utf8_width (byte b)] rest"]
  by (simp_all add: continuation_def)

text \<open>A complete sequence is found whatever follows it, and what is found is complete by itself.\<close>

lemma continuation_append:
  "utf8_width (byte b) = Suc (length rest) \<Longrightarrow> continuation b (rest @ more) = continuation b rest"
  by (simp add: continuation_def zip_append2 del: upt_Suc)

lemma continuation_take:
  assumes "k = continuation b rest" "Suc k = utf8_width (byte b)"
  shows "continuation b (take k rest) = k"
proof -
  have "k \<le> length rest" using continuation_bound(1) [of b rest] assms(1) by simp
  then have "continuation b (take k rest @ drop k rest) = continuation b (take k rest)"
    using assms(2) by (intro continuation_append) (simp add: min_def)
  then show ?thesis using assms(1) by simp
qed

lemma utf8_char_found:
  "k = continuation b rest \<Longrightarrow> Suc k = utf8_width (byte b) \<Longrightarrow> utf8_char (b # take k rest)"
  using continuation_take [of k b rest] continuation_bound(1) [of b rest] by (simp add: utf8_char_def min_def)

lemma utf8_char_replacement: "utf8_char replacement"
  by (simp add: utf8_char_def replacement_def continuation_def utf8_width_def byte_def continues_def upt_rec)

lemma from_utf8_lossy_valid: "valid_utf8 (from_utf8_lossy s)"
proof (induction s rule: from_utf8_lossy.induct)
  case 1
  show ?case by (simp add: valid_utf8_Nil)
next
  case (2 b rest)
  then have "valid_utf8 (from_utf8_lossy (drop (continuation b rest) rest))" by simp
  from valid_utf8_append [OF utf8_char_found this] valid_utf8_append [OF utf8_char_replacement this]
  show ?case by (auto simp: Let_def simp del: append_Cons)
qed

lemma from_utf8_lossy_char:
  assumes "utf8_char cs"
  shows "from_utf8_lossy (cs @ s) = cs @ from_utf8_lossy s"
proof -
  obtain b rest where cs: "cs = b # rest" "continuation b rest = length rest"
      "utf8_width (byte b) = Suc (length rest)"
    using assms by (auto simp: utf8_char_def split: list.splits)
  then show ?thesis by (simp add: continuation_append Let_def)
qed

lemma from_utf8_lossy_id: "valid_utf8 s \<Longrightarrow> from_utf8_lossy s = s"
proof -
  have "list_all utf8_char css \<Longrightarrow> from_utf8_lossy (concat css) = concat css" for css
    by (induction css) (simp_all add: from_utf8_lossy_char del: from_utf8_lossy.simps(2))
  then show "valid_utf8 s \<Longrightarrow> from_utf8_lossy s = s" by (auto simp: valid_utf8_def)
qed

lemma valid_utf8_ascii: "list_all (\<lambda>c. byte c < 0x80) s \<Longrightarrow> valid_utf8 s"
proof (induction s)
  case (Cons c s)
  then have "utf8_char [c]" by (simp add: utf8_char_def continuation_def utf8_width_def)
  from valid_utf8_append [OF this] Cons show ?case by simp
qed (simp add: valid_utf8_Nil)

end
