(* ===== verification/Status.thy ===== *)
theory Status
  imports Repo_Queries Settings Utf8
begin

section \<open>Status: task files and status snapshots of \<open>src/runtime.rs\<close>\<close>

text \<open>
  The files of a task and the snapshot of its status. Files are kept by path, one map for each kind
  of content: directories, the output of the task, the submitted request, the result and the script.
  A \<open>faults\<close> argument gives the error, if any, with which the operating system refuses a path; a file
  whose directory could be created is taken to be creatable there.
  The output of a task is any sequence of bytes, of which a status shows the UTF-8 text.
\<close>

subsection \<open>Files\<close>

record files =
  fl_dirs :: "string list"
  fl_output :: "string \<Rightarrow> string option"
  fl_request :: "string \<Rightarrow> SubmitTaskRequest option"
  fl_result :: "string \<Rightarrow> TaskStatusResponse option"
  fl_script :: "string \<Rightarrow> string option"

type_synonym faults = "string \<Rightarrow> string option"

record world =
  wd_repo :: repo
  wd_files :: files

definition no_files :: files where
  "no_files = \<lparr>fl_dirs = [], fl_output = (\<lambda>_. None), fl_request = (\<lambda>_. None), fl_result = (\<lambda>_. None),
     fl_script = (\<lambda>_. None)\<rparr>"

text \<open>An access to a path: the fault of the path, or the effect on the files.\<close>

definition access :: "faults \<Rightarrow> string \<Rightarrow> (files \<Rightarrow> files) \<Rightarrow> files \<Rightarrow> files \<times> unit app_result" where
  "access faults path effect fs =
     (case faults path of Some e \<Rightarrow> (fs, Inl (Io e)) | None \<Rightarrow> (effect fs, Inr ()))"

definition create_dir_all :: "faults \<Rightarrow> string \<Rightarrow> files \<Rightarrow> files \<times> unit app_result" where
  "create_dir_all faults path fs =
     (if path = [] then (fs, Inr ())
      else access faults path
        (\<lambda>fs. if path \<in> set (fl_dirs fs) then fs else fs\<lparr>fl_dirs := fl_dirs fs @ [path]\<rparr>) fs)"

text \<open>\<open>Path::parent\<close> of a path whose last component is a name, as that of every file of a task is.\<close>

definition path_parent :: "string \<Rightarrow> string option" where
  "path_parent path =
     (let p = trim_end_matches CHR ''/'' path; d = rev (dropWhile (\<lambda>c. c \<noteq> CHR ''/'') (rev p))
      in if p = [] then None
         else if d \<noteq> [] \<and> trim_end_matches CHR ''/'' d = [] then Some ''/''
         else Some (trim_end_matches CHR ''/'' d))"

text \<open>\<open>if let Some(parent) = path.parent() { fs::create_dir_all(parent)?; }\<close>\<close>

definition create_parent :: "faults \<Rightarrow> string \<Rightarrow> files \<Rightarrow> files \<times> unit app_result" where
  "create_parent faults path fs =
     (case path_parent path of Some parent \<Rightarrow> create_dir_all faults parent fs | None \<Rightarrow> (fs, Inr ()))"

definition write_request_file :: "faults \<Rightarrow> string \<Rightarrow> SubmitTaskRequest \<Rightarrow> files \<Rightarrow> files \<times> unit app_result" where
  "write_request_file faults path request fs =
     and_then (create_parent faults path fs) (\<lambda>fs _.
     access faults path (\<lambda>fs. fs\<lparr>fl_request := (fl_request fs)(path \<mapsto> request)\<rparr>) fs)"

definition write_result_file :: "faults \<Rightarrow> string \<Rightarrow> TaskStatusResponse \<Rightarrow> files \<Rightarrow> files \<times> unit app_result" where
  "write_result_file faults path response fs =
     and_then (create_parent faults path fs) (\<lambda>fs _.
     access faults path (\<lambda>fs. fs\<lparr>fl_result := (fl_result fs)(path \<mapsto> response)\<rparr>) fs)"

text \<open>\<open>touch_file\<close> creates a missing file and keeps an existing one; \<open>open_output_file\<close> truncates.\<close>

definition touch_file :: "faults \<Rightarrow> string \<Rightarrow> files \<Rightarrow> files \<times> unit app_result" where
  "touch_file faults path fs =
     and_then (create_parent faults path fs) (\<lambda>fs _.
     access faults path
       (\<lambda>fs. if fl_output fs path = None then fs\<lparr>fl_output := (fl_output fs)(path \<mapsto> [])\<rparr> else fs) fs)"

definition open_output_file :: "faults \<Rightarrow> string \<Rightarrow> files \<Rightarrow> files \<times> unit app_result" where
  "open_output_file faults path fs =
     and_then (create_parent faults path fs) (\<lambda>fs _.
     access faults path (\<lambda>fs. fs\<lparr>fl_output := (fl_output fs)(path \<mapsto> [])\<rparr>) fs)"

definition write_script_file :: "faults \<Rightarrow> string \<Rightarrow> string \<Rightarrow> files \<Rightarrow> files \<times> unit app_result" where
  "write_script_file faults path script fs =
     and_then (create_parent faults path fs) (\<lambda>fs _.
     access faults path (\<lambda>fs. fs\<lparr>fl_script := (fl_script fs)(path \<mapsto> script)\<rparr>) fs)"

text \<open>
  One \<open>read\<close> of a regular file returns what is asked for up to the end of the file, but Linux never
  transfers more than \<open>max_read\<close> bytes at once. The buffer is allocated in full; running out of
  memory there is left out.
\<close>

definition max_read :: u64 where
  "max_read = 0x7FFFF000"

definition read_output_preview :: "faults \<Rightarrow> string \<Rightarrow> u64 \<Rightarrow> files \<Rightarrow> (string \<times> bool) app_result" where
  "read_output_preview faults path max_bytes fs =
     (case faults path of
        Some e \<Rightarrow> Inl (Io e)
      | None \<Rightarrow>
          (case fl_output fs path of
             Some out \<Rightarrow>
               Inr (from_utf8_lossy (take (unat (min max_bytes max_read)) out), length out > unat max_bytes)
           | None \<Rightarrow> Inr ([], False)))"

subsection \<open>Status snapshots\<close>

definition legacy_execution_plan :: "TaskRecord \<Rightarrow> ExecutionPlan" where
  "legacy_execution_plan task = legacy_plan (tr_sandbox task) (tr_limits task)"

definition status_duration :: "int \<Rightarrow> TaskRecord \<Rightarrow> u64 option" where
  "status_duration now task =
     option_or (tr_duration_ms task)
       (map_option (\<lambda>started_at. i64_to_u64 (now - started_at)) (tr_started_at task))"

definition build_status_response :: "faults \<Rightarrow> int \<Rightarrow> files \<Rightarrow> TaskRecord \<Rightarrow> TaskStatusResponse app_result" where
  "build_status_response faults now fs task =
     res_bind (read_output_preview faults (tr_stdout_path task) (tr_stdout_max_bytes task) fs) (\<lambda>(out, out_truncated).
     res_bind (read_output_preview faults (tr_stderr_path task) (tr_stderr_max_bytes task) fs) (\<lambda>(err, err_truncated).
     let duration = status_duration now task
     in Inr \<lparr>ts_task_id = tr_task_id task, ts_handle_id = tr_handle_id task, ts_status = tr_status task,
          ts_created_at = tr_created_at task, ts_updated_at = tr_updated_at task,
          ts_started_at = tr_started_at task, ts_finished_at = tr_finished_at task,
          ts_duration_ms = duration, ts_shim_pid = tr_shim_pid task, ts_pid = tr_pid task,
          ts_pgid = tr_pgid task, ts_exit_code = tr_exit_code task, ts_exit_signal = tr_exit_signal task,
          ts_stdout = out, ts_stderr = err, ts_stdout_truncated = out_truncated,
          ts_stderr_truncated = err_truncated, ts_error = tr_error task,
          ts_usage = option_or (tr_usage task)
            (map_option (\<lambda>v. \<lparr>us_duration_ms = v, us_user_cpu_ms = None, us_system_cpu_ms = None,
                              us_max_rss_bytes = None, us_memory_peak_bytes = None\<rparr>) duration),
          ts_execution_plan = option_or (tr_execution_plan task) (Some (legacy_execution_plan task)),
          ts_reservation = tr_reservation task,
          ts_artifacts = \<lparr>ta_task_dir = tr_task_dir task, ta_request_path = tr_request_path task,
            ta_result_path = tr_result_path task, ta_stdout_path = tr_stdout_path task,
            ta_stderr_path = tr_stderr_path task, ta_script_path = tr_script_path task\<rparr>,
          ts_metadata = tr_metadata task\<rparr>))"

text \<open>
  A call of the repository within a larger operation: the new repository is kept whether the call
  succeeds or fails.
\<close>

definition on_repo :: "(repo \<Rightarrow> repo \<times> 'a app_result) \<Rightarrow> world \<Rightarrow> world \<times> 'a app_result" where
  "on_repo f w = (case f (wd_repo w) of (s, r) \<Rightarrow> (w\<lparr>wd_repo := s\<rparr>, r))"

definition on_files :: "(files \<Rightarrow> files \<times> 'a app_result) \<Rightarrow> world \<Rightarrow> world \<times> 'a app_result" where
  "on_files f w = (case f (wd_files w) of (fs, r) \<Rightarrow> (w\<lparr>wd_files := fs\<rparr>, r))"

definition persist_latest_result :: "faults \<Rightarrow> int \<Rightarrow> string \<Rightarrow> world \<Rightarrow> world \<times> unit app_result" where
  "persist_latest_result faults now i w =
     (case get_task i (wd_repo w) of
        Inl e \<Rightarrow> (w, Inl e)
      | Inr task \<Rightarrow>
          (case build_status_response faults now (wd_files w) task of
             Inl e \<Rightarrow> (w, Inl e)
           | Inr response \<Rightarrow> on_files (write_result_file faults (tr_result_path task) response) w))"

definition get_task_status :: "faults \<Rightarrow> int \<Rightarrow> string \<Rightarrow> world \<Rightarrow> TaskStatusResponse app_result" where
  "get_task_status faults now i w =
     res_bind (get_task i (wd_repo w)) (build_status_response faults now (wd_files w))"

subsection \<open>Lemmas\<close>

lemma fst_on_repo [simp]: "wd_repo (fst (on_repo f w)) = fst (f (wd_repo w))"
  by (simp add: on_repo_def split: prod.split)

lemma snd_on_repo [simp]: "snd (on_repo f w) = snd (f (wd_repo w))"
  by (simp add: on_repo_def split: prod.split)

lemma wd_repo_on_files [simp]: "wd_repo (fst (on_files f w)) = wd_repo w"
  by (simp add: on_files_def split: prod.split)

lemma wd_repo_persist [simp]: "wd_repo (fst (persist_latest_result faults now i w)) = wd_repo w"
  by (simp add: persist_latest_result_def split: sum.split)

text \<open>What a status shows of an output: a valid text, and all of it when it is valid and short enough.\<close>

definition shows_output :: "string \<Rightarrow> u64 \<Rightarrow> string \<Rightarrow> bool \<Rightarrow> bool" where
  "shows_output out max_bytes shown truncated =
     (truncated = (unat max_bytes < length out) \<and>
      shown = from_utf8_lossy (take (unat (min max_bytes max_read)) out) \<and> valid_utf8 shown \<and>
      (valid_utf8 out \<and> length out \<le> unat (min max_bytes max_read) \<longrightarrow> shown = out))"

lemma read_output_preview_shows:
  assumes "faults path = None"
  shows "\<exists>shown truncated. read_output_preview faults path max_bytes fs = Inr (shown, truncated) \<and>
    shows_output (unwrap_or (fl_output fs path) []) max_bytes shown truncated"
  using assms
  by (cases "fl_output fs path")
    (auto simp: read_output_preview_def shows_output_def from_utf8_lossy_valid from_utf8_lossy_id valid_utf8_Nil)

text \<open>
  C26: The status of a task is readable whenever its output files are: of each output it shows the
  bytes up to the limit as UTF-8 text, with replacement characters for what is ill-formed or was cut
  within a character, so that a valid output within the limit is shown as it is; each is marked
  truncated exactly when the file is longer than the limit, a missing file is shown as empty, a plan
  is always shown, and a usage is shown whenever a duration is.
\<close>

theorem status_shows_output_and_plan:
  "get_task i (wd_repo w) = Inr task \<Longrightarrow>
   faults (tr_stdout_path task) = None \<Longrightarrow> faults (tr_stderr_path task) = None \<Longrightarrow>
   (case get_task_status faults now i w of
      Inl _ \<Rightarrow> False
    | Inr st \<Rightarrow>
        shows_output (unwrap_or (fl_output (wd_files w) (tr_stdout_path task)) []) (tr_stdout_max_bytes task)
          (ts_stdout st) (ts_stdout_truncated st) \<and>
        shows_output (unwrap_or (fl_output (wd_files w) (tr_stderr_path task)) []) (tr_stderr_max_bytes task)
          (ts_stderr st) (ts_stderr_truncated st) \<and>
        ts_status st = tr_status task \<and> ts_exit_code st = tr_exit_code task \<and> ts_error st = tr_error task \<and>
        ts_execution_plan st \<noteq> None \<and> (ts_duration_ms st = None \<or> ts_usage st \<noteq> None))"
proof -
  assume get: "get_task i (wd_repo w) = Inr task"
    and ok: "faults (tr_stdout_path task) = None" "faults (tr_stderr_path task) = None"
  obtain out out_truncated where out:
      "read_output_preview faults (tr_stdout_path task) (tr_stdout_max_bytes task) (wd_files w) = Inr (out, out_truncated)"
      "shows_output (unwrap_or (fl_output (wd_files w) (tr_stdout_path task)) []) (tr_stdout_max_bytes task) out out_truncated"
    using read_output_preview_shows [of faults "tr_stdout_path task", OF ok(1)] by blast
  obtain err err_truncated where err:
      "read_output_preview faults (tr_stderr_path task) (tr_stderr_max_bytes task) (wd_files w) = Inr (err, err_truncated)"
      "shows_output (unwrap_or (fl_output (wd_files w) (tr_stderr_path task)) []) (tr_stderr_max_bytes task) err err_truncated"
    using read_output_preview_shows [of faults "tr_stderr_path task", OF ok(2)] by blast
  have plan: "option_or x (Some y) \<noteq> None" for x :: "'x option" and y
    by (cases x) simp_all
  show ?thesis
    by (simp add: get_task_status_def get build_status_response_def out err Let_def plan)
      (cases "tr_usage task"; cases "status_duration now task"; simp)
qed

text \<open>A running task that wrote \<open>a\<close>, an ill-formed byte and \<open>b\<close>.\<close>

definition sample_output :: "string \<Rightarrow> files" where
  "sample_output path = no_files\<lparr>fl_output := [path \<mapsto> [CHR ''a'', CHR 0xFF, CHR ''b'']]\<rparr>"

theorem status_shows_output_and_plan_witness:
  "\<exists>task. get_task ''t1'' (run_history sample_history) = Inr task \<and>
     (case get_task_status (\<lambda>_. None) 9 ''t1''
          \<lparr>wd_repo = run_history sample_history, wd_files = sample_output (tr_stdout_path task)\<rparr> of
        Inl _ \<Rightarrow> False
      | Inr st \<Rightarrow> \<not> ts_stdout_truncated st \<and> ts_stdout st = CHR ''a'' # replacement @ [CHR ''b''])"
proof -
  have "case get_task ''t1'' (run_history sample_history) of Inl _ \<Rightarrow> False
    | Inr task \<Rightarrow> 3 \<le> tr_stdout_max_bytes task"
    by code_simp
  then obtain task where t: "get_task ''t1'' (run_history sample_history) = Inr task"
      "3 \<le> tr_stdout_max_bytes task"
    by (auto split: sum.splits)
  then have room: "3 \<le> unat (tr_stdout_max_bytes task)" "3 \<le> unat (min (tr_stdout_max_bytes task) max_read)"
    by (simp_all add: word_le_nat_alt max_read_def min_def)
  have shown: "from_utf8_lossy [CHR ''a'', CHR 0xFF, CHR ''b''] = CHR ''a'' # replacement @ [CHR ''b'']"
    by code_simp
  let ?out = "[CHR ''a'', CHR 0xFF, CHR ''b'']" and ?max = "tr_stdout_max_bytes task"
  let ?w = "\<lparr>wd_repo = run_history sample_history, wd_files = sample_output (tr_stdout_path task)\<rparr>"
  have get: "get_task ''t1'' (wd_repo ?w) = Inr task" using t(1) by simp
  have written: "unwrap_or (fl_output (wd_files ?w) (tr_stdout_path task)) [] = ?out" by (simp add: sample_output_def)
  have whole: "take (unat (min ?max max_read)) ?out = ?out" "\<not> unat ?max < length ?out"
    using room by simp_all
  obtain st where st: "get_task_status (\<lambda>_. None) 9 ''t1'' ?w = Inr st"
      "shows_output ?out ?max (ts_stdout st) (ts_stdout_truncated st)"
    using status_shows_output_and_plan [OF get, of "\<lambda>_. None" 9] unfolding written by (auto split: sum.splits)
  from st(2) have "\<not> ts_stdout_truncated st \<and> ts_stdout st = CHR ''a'' # replacement @ [CHR ''b'']"
    unfolding shows_output_def whole(1) shown using whole(2) by blast
  with t(1) st(1) show ?thesis by (intro exI [of _ task]) simp
qed

end
