(* ===== verification/Ledger.thy ===== *)
theory Ledger
  imports Types
begin

section \<open>Ledger: \<open>src/ledger.rs\<close> and the accounting of \<open>src/runtime.rs\<close>\<close>

text \<open>
  The resource ledger: capacity, tenant quotas, the checks made at submission and at dispatch,
  and the running account the dispatcher keeps (\<open>add_reservation\<close>, \<open>subtract_reservation\<close>).
  Every sum saturates at the largest 64-bit value. The abstract specification is a sum over
  natural numbers; the admission interface connects the two.
\<close>

record ResourceLedger =
  lg_capacity :: ResourceCapacity
  lg_tenant_quotas :: "ResourceCapacity btree"

definition with_tenant_quotas :: "ResourceCapacity \<Rightarrow> ResourceCapacity btree \<Rightarrow> ResourceLedger" where
  "with_tenant_quotas cap quotas = \<lparr>lg_capacity = cap, lg_tenant_quotas = quotas\<rparr>"

definition new_ledger :: "ResourceCapacity \<Rightarrow> ResourceLedger" where
  "new_ledger cap = with_tenant_quotas cap []"

definition tenant_quota :: "ResourceLedger \<Rightarrow> string \<Rightarrow> ResourceCapacity option" where
  "tenant_quota l tenant = map_of (lg_tenant_quotas l) tenant"

text \<open>\<open>if let (Some(requested), Some(limit)) = (r, c) { if requested > limit { return Err } }\<close>.\<close>

definition ensure_le :: "u64 option \<Rightarrow> u64 option \<Rightarrow> (u64 \<Rightarrow> u64 \<Rightarrow> AppError) \<Rightarrow> unit app_result" where
  "ensure_le r c err =
     (case (r, c) of
        (Some requested, Some limit) \<Rightarrow> ensure (\<not> requested > limit) (err requested limit)
      | _ \<Rightarrow> Inr ())"

definition ensure_within_capacity :: "ResourceLedger \<Rightarrow> TaskResourceReservation \<Rightarrow> unit app_result" where
  "ensure_within_capacity l r =
     (let cap = lg_capacity l
      in res_bind (ensure (\<not> rv_task_slots r > rc_task_slots cap)
             (InsufficientResources (''task requires '' @ show_u64 (rv_task_slots r) @
                '' task slots but runtime capacity is '' @ show_u64 (rc_task_slots cap)))) (\<lambda>_.
         res_bind (ensure_le (rv_memory_bytes r) (rc_memory_bytes cap)
             (\<lambda>requested capacity. InsufficientResources (''task requires '' @ show_u64 requested @
                '' memory_bytes but runtime capacity is '' @ show_u64 capacity))) (\<lambda>_.
         ensure_le (rv_pids r) (rc_pids cap)
             (\<lambda>requested capacity. InsufficientResources (''task requires '' @ show_u64 requested @
                '' pids but runtime capacity is '' @ show_u64 capacity)))))"

definition quota_of :: "ResourceLedger \<Rightarrow> string option \<Rightarrow> ResourceCapacity option" where
  "quota_of l tenant = Option.bind tenant (map_of (lg_tenant_quotas l))"

definition ensure_within_tenant_quota ::
    "ResourceLedger \<Rightarrow> string option \<Rightarrow> TaskResourceReservation \<Rightarrow> unit app_result" where
  "ensure_within_tenant_quota l tenant r =
     (case quota_of l tenant of
        None \<Rightarrow> Inr ()
      | Some quota \<Rightarrow>
          (let tenant_name = unwrap_or tenant [];
               prefix = ''tenant '' @ quoted tenant_name @ '': task requires ''
           in res_bind (ensure (\<not> rv_task_slots r > rc_task_slots quota)
                  (InsufficientResources (prefix @ show_u64 (rv_task_slots r) @
                     '' task slots but tenant quota is '' @ show_u64 (rc_task_slots quota)))) (\<lambda>_.
              res_bind (ensure_le (rv_memory_bytes r) (rc_memory_bytes quota)
                  (\<lambda>requested limit. InsufficientResources (prefix @ show_u64 requested @
                     '' memory_bytes but tenant quota is '' @ show_u64 limit))) (\<lambda>_.
              ensure_le (rv_pids r) (rc_pids quota)
                  (\<lambda>requested limit. InsufficientResources (prefix @ show_u64 requested @
                     '' pids but tenant quota is '' @ show_u64 limit))))))"

text \<open>The three-way match of the dispatch checks: false when the sum exceeds the limit.\<close>

definition sum_fits :: "u64 option \<Rightarrow> u64 option \<Rightarrow> u64 option \<Rightarrow> bool" where
  "sum_fits reserved requested limit =
     (case (reserved, requested, limit) of
        (Some x, Some y, Some c) \<Rightarrow> \<not> sat_add x y > c
      | _ \<Rightarrow> True)"

definition can_reserve :: "ResourceLedger \<Rightarrow> ResourceCapacity \<Rightarrow> TaskResourceReservation \<Rightarrow> bool" where
  "can_reserve l cur r =
     (if sat_add (rc_task_slots cur) (rv_task_slots r) > rc_task_slots (lg_capacity l) then False
      else if \<not> sum_fits (rc_memory_bytes cur) (rv_memory_bytes r) (rc_memory_bytes (lg_capacity l))
      then False
      else if \<not> sum_fits (rc_pids cur) (rv_pids r) (rc_pids (lg_capacity l)) then False
      else True)"

definition can_reserve_for_tenant ::
    "ResourceLedger \<Rightarrow> string option \<Rightarrow> ResourceCapacity \<Rightarrow> TaskResourceReservation \<Rightarrow> bool" where
  "can_reserve_for_tenant l tenant cur r =
     (case quota_of l tenant of
        None \<Rightarrow> True
      | Some quota \<Rightarrow>
          (if sat_add (rc_task_slots cur) (rv_task_slots r) > rc_task_slots quota then False
           else if \<not> sum_fits (rc_memory_bytes cur) (rv_memory_bytes r) (rc_memory_bytes quota)
           then False
           else if \<not> sum_fits (rc_pids cur) (rv_pids r) (rc_pids quota) then False
           else True))"

text \<open>\<open>reserved_capacity\<close>: the loop over the reservations with its three accumulators.\<close>

fun reserved_loop ::
    "u64 \<Rightarrow> u64 option \<Rightarrow> u64 option \<Rightarrow> TaskResourceReservation list \<Rightarrow> ResourceCapacity" where
  "reserved_loop slots memory pids [] =
     \<lparr>rc_task_slots = slots, rc_memory_bytes = memory, rc_pids = pids\<rparr>"
| "reserved_loop slots memory pids (r # rs) =
     reserved_loop
       (sat_add slots (rv_task_slots r))
       (case rv_memory_bytes r of None \<Rightarrow> memory | Some v \<Rightarrow> Some (sat_add (unwrap_or memory 0) v))
       (case rv_pids r of None \<Rightarrow> pids | Some v \<Rightarrow> Some (sat_add (unwrap_or pids 0) v))
       rs"

definition reserved_capacity :: "ResourceLedger \<Rightarrow> TaskResourceReservation list \<Rightarrow> ResourceCapacity" where
  "reserved_capacity l rs =
     reserved_loop 0
       (if rc_memory_bytes (lg_capacity l) \<noteq> None then Some 0 else None)
       (if rc_pids (lg_capacity l) \<noteq> None then Some 0 else None)
       rs"

definition available_capacity :: "ResourceLedger \<Rightarrow> ResourceCapacity \<Rightarrow> ResourceCapacity" where
  "available_capacity l reserved =
     \<lparr>rc_task_slots = sat_sub (rc_task_slots (lg_capacity l)) (rc_task_slots reserved),
      rc_memory_bytes = map_option (\<lambda>c. sat_sub c (unwrap_or (rc_memory_bytes reserved) 0))
                          (rc_memory_bytes (lg_capacity l)),
      rc_pids = map_option (\<lambda>c. sat_sub c (unwrap_or (rc_pids reserved) 0))
                  (rc_pids (lg_capacity l))\<rparr>"

definition tenant_available_capacity :: "ResourceCapacity \<Rightarrow> ResourceCapacity \<Rightarrow> ResourceCapacity" where
  "tenant_available_capacity quota reserved =
     \<lparr>rc_task_slots = sat_sub (rc_task_slots quota) (rc_task_slots reserved),
      rc_memory_bytes = map_option (\<lambda>q. sat_sub q (unwrap_or (rc_memory_bytes reserved) 0))
                          (rc_memory_bytes quota),
      rc_pids = map_option (\<lambda>q. sat_sub q (unwrap_or (rc_pids reserved) 0)) (rc_pids quota)\<rparr>"

definition empty_snapshot :: "ResourceLedger \<Rightarrow> string \<Rightarrow> RuntimeResourcesResponse" where
  "empty_snapshot l runtime_id =
     (let reserved = reserved_capacity l []
      in \<lparr>rr_runtime_id = runtime_id,
          rr_capacity = lg_capacity l,
          rr_reserved = reserved,
          rr_available = available_capacity l reserved,
          rr_active_reservations = [],
          rr_accepted_waiting_tasks = 0,
          rr_tenants = []\<rparr>)"

text \<open>\<open>add_reservation\<close> and \<open>subtract_reservation\<close> of \<open>src/runtime.rs\<close>.\<close>

definition add_reservation :: "ResourceCapacity \<Rightarrow> TaskResourceReservation \<Rightarrow> ResourceCapacity" where
  "add_reservation cur r =
     \<lparr>rc_task_slots = sat_add (rc_task_slots cur) (rv_task_slots r),
      rc_memory_bytes =
        (case rv_memory_bytes r of None \<Rightarrow> rc_memory_bytes cur
         | Some v \<Rightarrow> Some (sat_add (unwrap_or (rc_memory_bytes cur) 0) v)),
      rc_pids =
        (case rv_pids r of None \<Rightarrow> rc_pids cur
         | Some v \<Rightarrow> Some (sat_add (unwrap_or (rc_pids cur) 0) v))\<rparr>"

definition subtract_reservation :: "ResourceCapacity \<Rightarrow> TaskResourceReservation \<Rightarrow> ResourceCapacity" where
  "subtract_reservation cur r =
     \<lparr>rc_task_slots = sat_sub (rc_task_slots cur) (rv_task_slots r),
      rc_memory_bytes =
        (case rv_memory_bytes r of None \<Rightarrow> rc_memory_bytes cur
         | Some v \<Rightarrow> map_option (\<lambda>reserved. sat_sub reserved v) (rc_memory_bytes cur)),
      rc_pids =
        (case rv_pids r of None \<Rightarrow> rc_pids cur
         | Some v \<Rightarrow> map_option (\<lambda>reserved. sat_sub reserved v) (rc_pids cur))\<rparr>"

subsection \<open>The specification: sums of natural numbers\<close>

definition opt_nat :: "u64 option \<Rightarrow> nat" where
  "opt_nat x = (case x of None \<Rightarrow> 0 | Some v \<Rightarrow> unat v)"

definition total_slots :: "TaskResourceReservation list \<Rightarrow> nat" where
  "total_slots rs = (\<Sum>r\<leftarrow>rs. unat (rv_task_slots r))"

definition total_memory :: "TaskResourceReservation list \<Rightarrow> nat" where
  "total_memory rs = (\<Sum>r\<leftarrow>rs. opt_nat (rv_memory_bytes r))"

definition total_pids :: "TaskResourceReservation list \<Rightarrow> nat" where
  "total_pids rs = (\<Sum>r\<leftarrow>rs. opt_nat (rv_pids r))"

definition below_limit :: "nat \<Rightarrow> u64 option \<Rightarrow> bool" where
  "below_limit n limit = (case limit of None \<Rightarrow> True | Some c \<Rightarrow> n \<le> unat c)"

text \<open>The reservations together stay within the capacity, in every dimension it limits.\<close>

definition fits_capacity :: "ResourceCapacity \<Rightarrow> TaskResourceReservation list \<Rightarrow> bool" where
  "fits_capacity cap rs =
     (total_slots rs \<le> unat (rc_task_slots cap) \<and>
      below_limit (total_memory rs) (rc_memory_bytes cap) \<and>
      below_limit (total_pids rs) (rc_pids cap))"

text \<open>
  The largest 64-bit value as a limit cannot be told apart from a saturated sum; a capacity is
  proper when no limit is that value.
\<close>

definition proper_capacity :: "ResourceCapacity \<Rightarrow> bool" where
  "proper_capacity cap =
     (unat (rc_task_slots cap) < u64_max \<and>
      (case rc_memory_bytes cap of None \<Rightarrow> True | Some c \<Rightarrow> unat c < u64_max) \<and>
      (case rc_pids cap of None \<Rightarrow> True | Some c \<Rightarrow> unat c < u64_max))"

text \<open>An account holds the saturated totals in every dimension the capacity limits.\<close>

definition holds_total :: "u64 option \<Rightarrow> u64 option \<Rightarrow> nat \<Rightarrow> bool" where
  "holds_total limit acc n =
     (limit \<noteq> None \<longrightarrow> (\<exists>w. acc = Some w \<and> unat w = min n u64_max))"

definition represents ::
    "ResourceCapacity \<Rightarrow> ResourceCapacity \<Rightarrow> TaskResourceReservation list \<Rightarrow> bool" where
  "represents cap acc rs =
     (unat (rc_task_slots acc) = min (total_slots rs) u64_max \<and>
      holds_total (rc_memory_bytes cap) (rc_memory_bytes acc) (total_memory rs) \<and>
      holds_total (rc_pids cap) (rc_pids acc) (total_pids rs))"

definition admissible :: "ResourceCapacity \<Rightarrow> TaskResourceReservation list \<Rightarrow> bool" where
  "admissible cap rs = (proper_capacity cap \<and> fits_capacity cap rs)"

lemma totals_simps [simp]:
  "total_slots [] = 0" "total_memory [] = 0" "total_pids [] = 0"
  "total_slots (r # rs) = unat (rv_task_slots r) + total_slots rs"
  "total_memory (r # rs) = opt_nat (rv_memory_bytes r) + total_memory rs"
  "total_pids (r # rs) = opt_nat (rv_pids r) + total_pids rs"
  by (simp_all add: total_slots_def total_memory_def total_pids_def)

lemma totals_append [simp]:
  "total_slots (rs @ rs') = total_slots rs + total_slots rs'"
  "total_memory (rs @ rs') = total_memory rs + total_memory rs'"
  "total_pids (rs @ rs') = total_pids rs + total_pids rs'"
  by (simp_all add: total_slots_def total_memory_def total_pids_def)

lemma opt_nat_simps [simp]: "opt_nat None = 0" "opt_nat (Some v) = unat v"
  by (simp_all add: opt_nat_def)

lemma below_limit_simps [simp]: "below_limit n None" "below_limit n (Some c) = (n \<le> unat c)"
  by (simp_all add: below_limit_def)

lemma below_limit_mono: "below_limit n l \<Longrightarrow> m \<le> n \<Longrightarrow> below_limit m l"
  by (cases l) auto

text \<open>The aggregation loop is the repeated use of \<open>add_reservation\<close>.\<close>

lemma reserved_loop_fold:
  "reserved_loop s m p rs =
     fold (\<lambda>r acc. add_reservation acc r) rs
       \<lparr>rc_task_slots = s, rc_memory_bytes = m, rc_pids = p\<rparr>"
proof (induction rs arbitrary: s m p)
  case Nil
  then show ?case by simp
next
  case (Cons r rs)
  have "add_reservation \<lparr>rc_task_slots = s, rc_memory_bytes = m, rc_pids = p\<rparr> r =
      \<lparr>rc_task_slots = sat_add s (rv_task_slots r),
       rc_memory_bytes = (case rv_memory_bytes r of None \<Rightarrow> m | Some v \<Rightarrow> Some (sat_add (unwrap_or m 0) v)),
       rc_pids = (case rv_pids r of None \<Rightarrow> p | Some v \<Rightarrow> Some (sat_add (unwrap_or p 0) v))\<rparr>"
    by (simp add: add_reservation_def split: option.split)
  then show ?case by (simp add: Cons.IH)
qed

lemma sum_fits_simps [simp]:
  "sum_fits None b l" "sum_fits a None l" "sum_fits a b None"
  "sum_fits (Some x) (Some y) (Some c) = (min (unat x + unat y) u64_max \<le> unat c)"
  by (auto simp: sum_fits_def sat_simps word_less_nat_alt split: option.splits)

lemma ensure_le_ok [simp]: "(ensure_le r c e = Inr u) = below_limit (opt_nat r) c"
  by (cases r; cases c) (auto simp: ensure_le_def word_le_nat_alt linorder_not_less)

lemma ensure_within_capacity_ok:
  "(ensure_within_capacity l r = Inr u) = fits_capacity (lg_capacity l) [r]"
  unfolding ensure_within_capacity_def Let_def fits_capacity_def
  by (simp only: res_bind_eq_Inr ensure_eq_Inr ensure_le_ok)
    (auto simp: word_le_nat_alt linorder_not_less)

lemma ensure_within_tenant_quota_ok:
  "(ensure_within_tenant_quota l tenant r = Inr u) =
     (case quota_of l tenant of None \<Rightarrow> True | Some quota \<Rightarrow> fits_capacity quota [r])"
proof (cases "quota_of l tenant")
  case None
  then show ?thesis by (simp add: ensure_within_tenant_quota_def)
next
  case (Some quota)
  then show ?thesis
    unfolding ensure_within_tenant_quota_def Let_def fits_capacity_def option.case
    by (simp only: res_bind_eq_Inr ensure_eq_Inr ensure_le_ok option.case)
      (auto simp: word_le_nat_alt linorder_not_less)
qed

lemma sum_fits_zero [simp]: "sum_fits (Some 0) x limit = below_limit (opt_nat x) limit"
  by (cases limit; cases x) (auto simp: min_def)

subsection \<open>The admission interface\<close>

text \<open>
  What the dispatcher relies on: an account that represents the reservations held, a check that
  decides whether one more is allowed, and additions and removals that keep the account exact.
\<close>

locale admission =
  fixes add :: "'acc \<Rightarrow> 'd \<Rightarrow> 'acc"
    and fits :: "'acc \<Rightarrow> 'd \<Rightarrow> bool"
    and repr :: "'acc \<Rightarrow> 'd list \<Rightarrow> bool"
    and allowed :: "'d list \<Rightarrow> bool"
  assumes repr_add: "repr a ds \<Longrightarrow> repr (add a d) (d # ds)"
    and fits_iff: "repr a ds \<Longrightarrow> allowed ds \<Longrightarrow> fits a d = allowed (d # ds)"
begin

lemma admit:
  assumes "repr a ds" "allowed ds" "fits a d"
  shows "repr (add a d) (d # ds) \<and> allowed (d # ds)"
  using assms repr_add fits_iff by blast

lemma repr_fold: "repr a ds \<Longrightarrow> repr (fold (\<lambda>d acc. add acc d) es a) (rev es @ ds)"
  by (induction es arbitrary: a ds) (auto dest: repr_add)

text \<open>Greedy admission: each demand is added when it fits and skipped otherwise.\<close>

fun greedy :: "'acc \<Rightarrow> 'd list \<Rightarrow> 'd list \<Rightarrow> 'acc \<times> 'd list" where
  "greedy a ds [] = (a, ds)"
| "greedy a ds (e # es) = (if fits a e then greedy (add a e) (e # ds) es else greedy a ds es)"

lemma greedy_allowed:
  "repr a ds \<Longrightarrow> allowed ds \<Longrightarrow> greedy a ds es = (a', ds') \<Longrightarrow> repr a' ds' \<and> allowed ds'"
proof (induction a ds es rule: greedy.induct)
  case (1 a ds)
  then show ?case by simp
next
  case (2 a ds e es)
  then show ?case by (cases "fits a e") (auto dest: admit)
qed

lemma greedy_skips: "repr a ds \<Longrightarrow> allowed ds \<Longrightarrow> \<not> fits a e \<Longrightarrow> \<not> allowed (e # ds)"
  by (simp add: fits_iff)

end

locale revocable_admission = admission add fits repr allowed
  for add :: "'acc \<Rightarrow> 'd \<Rightarrow> 'acc"
    and fits :: "'acc \<Rightarrow> 'd \<Rightarrow> bool"
    and repr :: "'acc \<Rightarrow> 'd list \<Rightarrow> bool"
    and allowed :: "'d list \<Rightarrow> bool" +
  fixes sub :: "'acc \<Rightarrow> 'd \<Rightarrow> 'acc"
  assumes repr_sub: "repr a (d # ds) \<Longrightarrow> allowed (d # ds) \<Longrightarrow> repr (sub a d) ds"
    and allowed_tail: "allowed (d # ds) \<Longrightarrow> allowed ds"
begin

lemma admit_then_revoke:
  assumes "repr a ds" "allowed ds" "fits a d"
  shows "repr (sub (add a d) d) ds"
  using admit [OF assms] repr_sub by blast

end

subsection \<open>The interface on the ledger\<close>

lemma unat_limit: "n \<le> unat (c :: u64) \<Longrightarrow> n \<le> u64_max"
  by (rule order_trans [OF _ unat_le_u64_max])

lemma holds_total_add:
  "holds_total limit acc n \<Longrightarrow>
   holds_total limit
     (case x of None \<Rightarrow> acc | Some v \<Rightarrow> Some (sat_add (unwrap_or acc 0) v)) (opt_nat x + n)"
  by (auto simp: holds_total_def sat_simps split: option.split)

lemma holds_total_sub:
  assumes "holds_total limit acc (opt_nat x + n)" "below_limit (opt_nat x + n) limit"
  shows "holds_total limit
           (case x of None \<Rightarrow> acc | Some v \<Rightarrow> map_option (\<lambda>reserved. sat_sub reserved v) acc) n"
proof (cases limit)
  case None
  then show ?thesis by (simp add: holds_total_def)
next
  case (Some c)
  with assms(2) have "opt_nat x + n \<le> u64_max"
    by (auto intro: unat_limit)
  with assms Some obtain w where w: "acc = Some w" "unat w = opt_nat x + n"
    by (auto simp: holds_total_def min_def)
  have "n \<le> u64_max"
    using w(2) unat_le_u64_max [of w] by linarith
  then show ?thesis
    using w by (auto simp: holds_total_def sat_simps split: option.split)
qed

lemma represents_add: "represents cap a rs \<Longrightarrow> represents cap (add_reservation a r) (r # rs)"
  by (auto simp: represents_def add_reservation_def sat_simps intro: holds_total_add)

lemma represents_sub:
  assumes "represents cap a (r # rs)" "fits_capacity cap (r # rs)"
  shows "represents cap (subtract_reservation a r) rs"
proof -
  have "total_slots (r # rs) \<le> u64_max"
    using assms(2) by (auto simp: fits_capacity_def intro: unat_limit)
  with assms show ?thesis
    by (auto simp: represents_def fits_capacity_def subtract_reservation_def sat_simps
        intro: holds_total_sub)
qed

text \<open>The body of both dispatch checks.\<close>

definition within_limits :: "ResourceCapacity \<Rightarrow> ResourceCapacity \<Rightarrow> TaskResourceReservation \<Rightarrow> bool" where
  "within_limits cap cur r =
     (min (unat (rc_task_slots cur) + unat (rv_task_slots r)) u64_max \<le> unat (rc_task_slots cap) \<and>
      sum_fits (rc_memory_bytes cur) (rv_memory_bytes r) (rc_memory_bytes cap) \<and>
      sum_fits (rc_pids cur) (rv_pids r) (rc_pids cap))"

lemma can_reserve_within: "can_reserve l cur r = within_limits (lg_capacity l) cur r"
  by (auto simp: can_reserve_def within_limits_def word_less_nat_alt sat_simps)

lemma can_reserve_for_tenant_within:
  "can_reserve_for_tenant l tenant cur r =
     (case quota_of l tenant of None \<Rightarrow> True | Some quota \<Rightarrow> within_limits quota cur r)"
  by (auto simp: can_reserve_for_tenant_def within_limits_def word_less_nat_alt sat_simps
      split: option.split)

lemma sum_fits_total:
  assumes "holds_total limit acc n" "below_limit n limit"
    and "case limit of None \<Rightarrow> True | Some c \<Rightarrow> unat c < u64_max"
  shows "sum_fits acc x limit = below_limit (opt_nat x + n) limit"
proof (cases limit)
  case (Some c)
  with assms obtain w where "acc = Some w" "unat w = n"
    by (auto simp: holds_total_def min_def) 
  with assms(3) assms(2) Some show ?thesis
    by (cases x) (auto simp: min_def)
qed simp

lemma within_limits_iff:
  assumes "represents cap a rs" "admissible cap rs"
  shows "within_limits cap a r = admissible cap (r # rs)"
proof -
  have m: "sum_fits (rc_memory_bytes a) (rv_memory_bytes r) (rc_memory_bytes cap) =
      below_limit (opt_nat (rv_memory_bytes r) + total_memory rs) (rc_memory_bytes cap)"
    using assms by (intro sum_fits_total) (auto simp: represents_def admissible_def
        fits_capacity_def proper_capacity_def)
  have p: "sum_fits (rc_pids a) (rv_pids r) (rc_pids cap) =
      below_limit (opt_nat (rv_pids r) + total_pids rs) (rc_pids cap)"
    using assms by (intro sum_fits_total) (auto simp: represents_def admissible_def
        fits_capacity_def proper_capacity_def)
  have "min (unat (rc_task_slots a) + unat (rv_task_slots r)) u64_max \<le> unat (rc_task_slots cap) \<longleftrightarrow>
      unat (rv_task_slots r) + total_slots rs \<le> unat (rc_task_slots cap)"
    using assms by (auto simp: represents_def admissible_def proper_capacity_def fits_capacity_def
        min_def split: if_splits)
  with m p assms(2) show ?thesis
    by (auto simp: within_limits_def admissible_def fits_capacity_def)
qed

lemma admissible_tail: "admissible cap (r # rs) \<Longrightarrow> admissible cap rs"
  by (auto simp: admissible_def fits_capacity_def intro: below_limit_mono)

interpretation runtime_adm:
  revocable_admission add_reservation "can_reserve l" "represents (lg_capacity l)"
    "admissible (lg_capacity l)" subtract_reservation for l
proof unfold_locales
  show "represents (lg_capacity l) (add_reservation a d) (d # ds)"
    if "represents (lg_capacity l) a ds" for a d ds
    using that by (rule represents_add)
  show "can_reserve l a d = admissible (lg_capacity l) (d # ds)"
    if "represents (lg_capacity l) a ds" "admissible (lg_capacity l) ds" for a d ds
    using that by (simp add: can_reserve_within within_limits_iff)
  show "represents (lg_capacity l) (subtract_reservation a d) ds"
    if "represents (lg_capacity l) a (d # ds)" "admissible (lg_capacity l) (d # ds)" for a d ds
    using that by (auto intro: represents_sub simp: admissible_def)
  show "admissible (lg_capacity l) ds" if "admissible (lg_capacity l) (d # ds)" for d ds
    using that by (rule admissible_tail)
qed

text \<open>The same interface for the quota of a tenant; a tenant without quota is not limited.\<close>

definition tenant_admissible :: "ResourceLedger \<Rightarrow> string option \<Rightarrow> TaskResourceReservation list \<Rightarrow> bool" where
  "tenant_admissible l tenant rs =
     (case quota_of l tenant of None \<Rightarrow> True | Some quota \<Rightarrow> admissible quota rs)"

definition tenant_represents ::
    "ResourceLedger \<Rightarrow> string option \<Rightarrow> ResourceCapacity \<Rightarrow> TaskResourceReservation list \<Rightarrow> bool" where
  "tenant_represents l tenant acc rs =
     (case quota_of l tenant of None \<Rightarrow> True | Some quota \<Rightarrow> represents quota acc rs)"

interpretation tenant_adm:
  revocable_admission add_reservation "can_reserve_for_tenant l tenant"
    "tenant_represents l tenant" "tenant_admissible l tenant" subtract_reservation for l tenant
proof unfold_locales
  show "tenant_represents l tenant (add_reservation a d) (d # ds)"
    if "tenant_represents l tenant a ds" for a d ds
    using that by (auto simp: tenant_represents_def intro: represents_add split: option.splits)
  show "can_reserve_for_tenant l tenant a d = tenant_admissible l tenant (d # ds)"
    if "tenant_represents l tenant a ds" "tenant_admissible l tenant ds" for a d ds
    using that
    by (simp add: can_reserve_for_tenant_within tenant_represents_def tenant_admissible_def
        within_limits_iff split: option.splits)
  show "tenant_represents l tenant (subtract_reservation a d) ds"
    if "tenant_represents l tenant a (d # ds)" "tenant_admissible l tenant (d # ds)" for a d ds
    using that
    by (auto simp: tenant_represents_def tenant_admissible_def admissible_def intro: represents_sub
        split: option.splits)
  show "tenant_admissible l tenant ds" if "tenant_admissible l tenant (d # ds)" for d ds
    using that by (auto simp: tenant_admissible_def intro: admissible_tail split: option.splits)
qed

subsection \<open>The aggregate\<close>

lemma represents_empty:
  "represents cap
     \<lparr>rc_task_slots = 0,
      rc_memory_bytes = (if rc_memory_bytes cap \<noteq> None then Some 0 else None),
      rc_pids = (if rc_pids cap \<noteq> None then Some 0 else None)\<rparr> []"
  by (simp add: represents_def holds_total_def)

lemma represents_cong:
  assumes "total_slots rs = total_slots rs'" "total_memory rs = total_memory rs'"
    "total_pids rs = total_pids rs'"
  shows "represents cap a rs = represents cap a rs'" "fits_capacity cap rs = fits_capacity cap rs'"
  using assms by (simp_all add: represents_def fits_capacity_def)

lemma totals_rev [simp]:
  "total_slots (rev rs) = total_slots rs" "total_memory (rev rs) = total_memory rs"
  "total_pids (rev rs) = total_pids rs"
  by (simp_all add: total_slots_def total_memory_def total_pids_def rev_map [symmetric])

lemma reserved_capacity_represents: "represents (lg_capacity l) (reserved_capacity l rs) rs"
proof -
  have "represents (lg_capacity l) (reserved_capacity l rs) (rev rs @ [])"
    unfolding reserved_capacity_def reserved_loop_fold
    by (intro runtime_adm.repr_fold represents_empty)
  then show ?thesis by (simp add: represents_cong [of "rev rs" rs])
qed

subsection \<open>Properties\<close>

text \<open>
  C6: The dispatch check is exact: against the account aggregated from the active reservations it
  accepts one more reservation exactly when all of them together stay within the capacity as natural
  numbers, although every sum the code makes saturates. No limit may be the largest 64-bit number, at
  which a saturated sum would pass for an exact one.
\<close>

theorem can_reserve_exact:
  assumes "proper_capacity (lg_capacity l)" "fits_capacity (lg_capacity l) rs"
  shows "can_reserve l (reserved_capacity l rs) r = fits_capacity (lg_capacity l) (r # rs)"
proof -
  have "can_reserve l (reserved_capacity l rs) r = admissible (lg_capacity l) (r # rs)"
    using assms by (intro runtime_adm.fits_iff reserved_capacity_represents)
      (simp add: admissible_def)
  with assms(1) show ?thesis by (simp add: admissible_def)
qed

theorem can_reserve_exact_witness:
  "can_reserve
     (new_ledger \<lparr>rc_task_slots = 2, rc_memory_bytes = Some 100, rc_pids = None\<rparr>)
     (reserved_capacity
        (new_ledger \<lparr>rc_task_slots = 2, rc_memory_bytes = Some 100, rc_pids = None\<rparr>)
        [\<lparr>rv_task_slots = 1, rv_memory_bytes = Some 60, rv_pids = Some 7\<rparr>])
     \<lparr>rv_task_slots = 1, rv_memory_bytes = Some 40, rv_pids = None\<rparr>"
  by (subst can_reserve_exact)
    (simp_all add: new_ledger_def with_tenant_quotas_def proper_capacity_def fits_capacity_def
      u64_max_def)

text \<open>The submission check and the dispatch check agree: a single reservation passes
  submission exactly when it could be dispatched on an idle runtime, so no accepted task is
  too large to ever run.\<close>

theorem submit_check_iff_idle_dispatch:
  "(ensure_within_capacity l r = Inr ()) = can_reserve l (reserved_capacity l []) r"
  by (simp add: ensure_within_capacity_ok can_reserve_within within_limits_def
      reserved_capacity_def fits_capacity_def)

text \<open>
  C40: Whatever fits is accounted for without loss: for reservations whose totals stay within the
  capacity, the available capacity the runtime reports plus the sum of the reservations is the
  capacity, in every dimension the capacity limits, although the accounts saturate.
\<close>

theorem available_plus_reserved:
  assumes "fits_capacity (lg_capacity l) rs"
  shows "unat (rc_task_slots (available_capacity l (reserved_capacity l rs))) + total_slots rs =
           unat (rc_task_slots (lg_capacity l)) \<and>
         map_option (\<lambda>w. unat w + total_memory rs)
           (rc_memory_bytes (available_capacity l (reserved_capacity l rs))) =
           map_option unat (rc_memory_bytes (lg_capacity l)) \<and>
         map_option (\<lambda>w. unat w + total_pids rs)
           (rc_pids (available_capacity l (reserved_capacity l rs))) =
           map_option unat (rc_pids (lg_capacity l))"
proof -
  have dim: "map_option (\<lambda>w. unat w + n) (map_option (\<lambda>c. sat_sub c (unwrap_or acc 0)) limit) =
      map_option unat limit"
    if "holds_total limit acc n" "below_limit n limit" for limit acc n
    using that unat_limit
    by (cases limit) (auto simp: holds_total_def sat_simps min_def)
  have "total_slots rs \<le> u64_max"
    using assms by (auto simp: fits_capacity_def intro: unat_limit)
  with assms reserved_capacity_represents [of l rs] show ?thesis
    by (auto simp: available_capacity_def represents_def fits_capacity_def sat_simps intro!: dim)
qed

theorem available_plus_reserved_witness:
  "unat (rc_task_slots (available_capacity
     (new_ledger \<lparr>rc_task_slots = 4, rc_memory_bytes = None, rc_pids = Some 10\<rparr>)
     (reserved_capacity (new_ledger \<lparr>rc_task_slots = 4, rc_memory_bytes = None, rc_pids = Some 10\<rparr>)
       [\<lparr>rv_task_slots = 1, rv_memory_bytes = None, rv_pids = Some 3\<rparr>]))) + 1 = 4"
  using available_plus_reserved
    [of "new_ledger \<lparr>rc_task_slots = 4, rc_memory_bytes = None, rc_pids = Some 10\<rparr>"
        "[\<lparr>rv_task_slots = 1, rv_memory_bytes = None, rv_pids = Some 3\<rparr>]"]
  by (simp add: new_ledger_def with_tenant_quotas_def fits_capacity_def)

text \<open>Undoing an admission restores the account: after a reservation the check accepted is
  added and then subtracted again (a failed launch), the account again represents exactly the
  reservations held before.\<close>

theorem subtract_after_add_exact:
  assumes "represents (lg_capacity l) acc rs" "admissible (lg_capacity l) rs" "can_reserve l acc r"
  shows "represents (lg_capacity l) (subtract_reservation (add_reservation acc r) r) rs"
  using assms by (rule runtime_adm.admit_then_revoke)

theorem subtract_after_add_exact_witness:
  "represents \<lparr>rc_task_slots = 2, rc_memory_bytes = Some 100, rc_pids = None\<rparr>
     (subtract_reservation
       (add_reservation \<lparr>rc_task_slots = 0, rc_memory_bytes = Some 0, rc_pids = None\<rparr>
         \<lparr>rv_task_slots = 1, rv_memory_bytes = Some 40, rv_pids = None\<rparr>)
       \<lparr>rv_task_slots = 1, rv_memory_bytes = Some 40, rv_pids = None\<rparr>) []"
  using subtract_after_add_exact
    [of "new_ledger \<lparr>rc_task_slots = 2, rc_memory_bytes = Some 100, rc_pids = None\<rparr>"
        "\<lparr>rc_task_slots = 0, rc_memory_bytes = Some 0, rc_pids = None\<rparr>" "[]"
        "\<lparr>rv_task_slots = 1, rv_memory_bytes = Some 40, rv_pids = None\<rparr>"]
  by (simp add: new_ledger_def with_tenant_quotas_def represents_def holds_total_def
      admissible_def proper_capacity_def fits_capacity_def u64_max_def can_reserve_within
      within_limits_def)

end
