(* ===== verification/Dispatch.thy ===== *)
theory Dispatch
  imports Status Ledger
begin

section \<open>Dispatch: one cycle of the dispatcher, \<open>dispatch_once_sync\<close> of \<open>src/runtime.rs\<close>\<close>

text \<open>
  The dispatcher aggregates the active reservations, then walks the queue: a task to be killed is
  cancelled, a task that fits the capacity and the quota of its tenant is reserved and its shim is
  started. What the operating system answers is given for each task: the clock readings, the path
  of the executable or the error of \<open>current_exe\<close>, and the process id or the error of \<open>spawn\<close>.
\<close>

record dispatch_host =
  dh_cancel_clock :: clock
  dh_reserve_clock :: clock
  dh_dispatched_clock :: clock
  dh_complete_clock :: clock
  dh_failed_at :: int
  dh_now :: int
  dh_faults :: faults
  dh_exe :: "string + string"
  dh_spawn :: "string + u32"

record dispatcher =
  dp_world :: world
  dp_reserved :: ResourceCapacity
  dp_tenants :: "ResourceCapacity btree"
  dp_spawned :: "(string \<times> u32 \<times> string list) list"

definition task_tenant :: "TaskRecord \<Rightarrow> string option" where
  "task_tenant task = Option.bind (tr_control_context task) cc_tenant"

definition empty_tenant_capacity :: "ResourceLedger \<Rightarrow> string \<Rightarrow> ResourceCapacity" where
  "empty_tenant_capacity l tenant =
     \<lparr>rc_task_slots = 0,
      rc_memory_bytes = map_option (\<lambda>_. 0) (Option.bind (tenant_quota l tenant) rc_memory_bytes),
      rc_pids = map_option (\<lambda>_. 0) (Option.bind (tenant_quota l tenant) rc_pids)\<rparr>"

definition charge_tenant ::
    "ResourceLedger \<Rightarrow> string \<Rightarrow> TaskResourceReservation \<Rightarrow> ResourceCapacity btree \<Rightarrow> ResourceCapacity btree" where
  "charge_tenant l tenant r m =
     bt_entry tenant (empty_tenant_capacity l tenant) (\<lambda>entry. add_reservation entry r) m"

text \<open>The aggregation per tenant at the start of the cycle.\<close>

fun tenant_account :: "ResourceLedger \<Rightarrow> ResourceCapacity btree \<Rightarrow> TaskRecord list \<Rightarrow> ResourceCapacity btree" where
  "tenant_account l m [] = m"
| "tenant_account l m (task # tasks) =
     tenant_account l
       (case (tr_reservation task, task_tenant task) of
          (Some r, Some tenant) \<Rightarrow> charge_tenant l tenant r m
        | _ \<Rightarrow> m) tasks"

text \<open>The arguments of the shim process.\<close>

definition shim_args :: "Settings \<Rightarrow> string \<Rightarrow> string list" where
  "shim_args settings i =
     [''internal-shim'', ''--database'', se_database_path settings, ''--data-dir'', se_data_dir settings,
      ''--task-id'', i, ''--termination-grace-ms'', show_u64 (se_termination_grace_ms settings),
      ''--cgroup-root'', se_cgroup_root settings]"

definition in_world :: "(world \<Rightarrow> world \<times> 'a app_result) \<Rightarrow> dispatcher \<Rightarrow> dispatcher \<times> 'a app_result" where
  "in_world f d = (case f (dp_world d) of (w, r) \<Rightarrow> (d\<lparr>dp_world := w\<rparr>, r))"

definition killed_before_execution :: RuntimeErrorInfo where
  "killed_before_execution = RuntimeErrorInfo EcCancelled ''task cancelled before execution'' None"

definition spawn_failed_update :: "int \<Rightarrow> string \<Rightarrow> CompletionUpdate" where
  "spawn_failed_update now err =
     \<lparr>cu_status = Failed, cu_finished_at = now, cu_duration_ms = Some 0, cu_exit_code = None,
      cu_exit_signal = None,
      cu_error = Some (RuntimeErrorInfo EcLaunchFailed (''failed to spawn shim: '' @ err) None),
      cu_usage = None, cu_result_json = None\<rparr>"

text \<open>Reserve the resources, start the shim, and take the reservation back when it does not start.\<close>

definition launch_task ::
    "Settings \<Rightarrow> ResourceLedger \<Rightarrow> dispatch_host \<Rightarrow> TaskRecord \<Rightarrow> TaskResourceReservation \<Rightarrow> dispatcher \<Rightarrow>
     dispatcher \<times> unit app_result" where
  "launch_task settings l host task reservation d =
     (let i = tr_task_id task in
      and_then (in_world (on_repo
          (reserve_resources i reservation ''task resources reserved'' (dh_reserve_clock host))) d) (\<lambda>d _.
      let d = d\<lparr>dp_reserved := add_reservation (dp_reserved d) reservation,
                dp_tenants := (case task_tenant task of
                                 Some t \<Rightarrow> charge_tenant l t reservation (dp_tenants d)
                               | None \<Rightarrow> dp_tenants d)\<rparr>
      in case dh_exe host of
           Inl err \<Rightarrow> (d, Inl (LaunchFailed (''resolve current exe: '' @ err)))
         | Inr exe \<Rightarrow>
             (case dh_spawn host of
                Inr pid \<Rightarrow>
                  in_world (on_repo (mark_dispatched i pid (dh_dispatched_clock host)))
                    (d\<lparr>dp_spawned := dp_spawned d @ [(i, pid, exe # shim_args settings i)]\<rparr>)
              | Inl err \<Rightarrow>
                  and_then (in_world (on_repo (complete_task i
                      (spawn_failed_update (dh_failed_at host) err) (dh_complete_clock host))) d) (\<lambda>d _.
                  in_world (persist_latest_result (dh_faults host) (dh_now host) i)
                    (d\<lparr>dp_reserved := subtract_reservation (dp_reserved d) reservation\<rparr>)))))"

definition dispatch_task ::
    "Settings \<Rightarrow> ResourceLedger \<Rightarrow> dispatch_host \<Rightarrow> TaskRecord \<Rightarrow> dispatcher \<Rightarrow>
     dispatcher \<times> unit app_result" where
  "dispatch_task settings l host task d =
     (let i = tr_task_id task in
      if tr_kill_requested task then
        and_then (in_world (on_repo
            (cancel_accepted_task i killed_before_execution (dh_cancel_clock host))) d) (\<lambda>d _.
        in_world (persist_latest_result (dh_faults host) (dh_now host) i) d)
      else if has_active_reservation task then (d, Inr ())
      else
        let reservation = unwrap_or (tr_reservation task) (from_limits (tr_limits task)) in
        if \<not> can_reserve l (dp_reserved d) reservation then (d, Inr ())
        else
          let tenant = task_tenant task;
              tr = unwrap_or (Option.bind tenant (map_of (dp_tenants d)))
                     (empty_tenant_capacity l (unwrap_or tenant []))
          in if \<not> can_reserve_for_tenant l tenant tr reservation then (d, Inr ())
             else launch_task settings l host task reservation d)"

fun dispatch_tasks ::
    "Settings \<Rightarrow> ResourceLedger \<Rightarrow> (string \<Rightarrow> dispatch_host) \<Rightarrow> TaskRecord list \<Rightarrow> dispatcher \<Rightarrow>
     dispatcher \<times> unit app_result" where
  "dispatch_tasks settings l hosts [] d = (d, Inr ())"
| "dispatch_tasks settings l hosts (task # tasks) d =
     and_then (dispatch_task settings l (hosts (tr_task_id task)) task d) (\<lambda>d _.
     dispatch_tasks settings l hosts tasks d)"

definition dispatch_once_sync ::
    "Settings \<Rightarrow> ResourceLedger \<Rightarrow> (string \<Rightarrow> dispatch_host) \<Rightarrow> world \<Rightarrow> dispatcher \<times> unit app_result" where
  "dispatch_once_sync settings l hosts w =
     (let d = \<lparr>dp_world = w, dp_reserved = reserved_capacity l [], dp_tenants = [], dp_spawned = []\<rparr>
      in case list_active_reservations (wd_repo w) of
           Inl e \<Rightarrow> (d, Inl e)
         | Inr active \<Rightarrow>
             let d = d\<lparr>dp_reserved := reserved_capacity l (List.map_filter tr_reservation active),
                       dp_tenants := tenant_account l [] active\<rparr>
             in case list_accepted (se_max_queued_tasks settings) (wd_repo w) of
                  Inl e \<Rightarrow> (d, Inl e)
                | Inr tasks \<Rightarrow> dispatch_tasks settings l hosts tasks d)"

end
