(* ===== verification/Dispatch_Safety.thy ===== *)
theory Dispatch_Safety
  imports Dispatch
begin

section \<open>The dispatcher never over-commits\<close>

text \<open>
  The reservations the database holds active are a multiset; the accounts of the dispatcher cover
  it. An interface of accounts that cover a multiset carries the argument, once for the runtime and
  once for each tenant; an interface of row edits that keep the control context carries it across
  the statements.
\<close>

subsection \<open>Active reservations as multisets\<close>

definition row_reservation :: "task_row \<Rightarrow> TaskResourceReservation option" where
  "row_reservation r =
     (if c_released_at_ms r = None
      then (case c_reservation_json r of Some (JsonText v) \<Rightarrow> Some v | _ \<Rightarrow> None) else None)"

definition row_tenant :: "task_row \<Rightarrow> string option" where
  "row_tenant r = (case c_control_context_json r of Some (JsonText c) \<Rightarrow> cc_tenant c | _ \<Rightarrow> None)"

text \<open>The selection of the rows of one tenant, or of all rows.\<close>

definition selects :: "string option \<Rightarrow> task_row \<Rightarrow> bool" where
  "selects sel r = (sel = None \<or> row_tenant r = sel)"

definition active_reservations :: "string option \<Rightarrow> repo \<Rightarrow> TaskResourceReservation list" where
  "active_reservations sel s = List.map_filter row_reservation (filter (selects sel) (rp_tasks s))"

definition holding :: "string option \<Rightarrow> task_row \<Rightarrow> TaskResourceReservation multiset" where
  "holding sel r =
     (case row_reservation r of Some v \<Rightarrow> if selects sel r then {#v#} else {#} | None \<Rightarrow> {#})"

definition active :: "string option \<Rightarrow> repo \<Rightarrow> TaskResourceReservation multiset" where
  "active sel s = sum_list (map (holding sel) (rp_tasks s))"

lemma mset_active_reservations: "mset (active_reservations sel s) = active sel s"
proof -
  have "mset (List.map_filter row_reservation (filter (selects sel) rs)) = sum_list (map (holding sel) rs)" for rs
    by (induction rs) (auto simp: map_filter_simps holding_def split: option.split)
  then show ?thesis by (simp add: active_reservations_def active_def)
qed

lemma active_add_event [simp]: "active sel (add_event i et m d now s) = active sel s"
  by (simp add: active_def)

lemma active_released_log [simp]: "active sel (released_log i task m now s) = active sel s"
  by (simp add: released_log_def)

lemma holding_le: "row_reservation r = row_reservation r' \<or> row_reservation r = None \<Longrightarrow>
   row_tenant r = row_tenant r' \<Longrightarrow> holding sel r \<subseteq># holding sel r'"
  by (cases "row_reservation r"; cases "row_reservation r'") (auto simp: holding_def selects_def)

lemma holding_cong: "row_reservation r = row_reservation r' \<Longrightarrow> row_tenant r = row_tenant r' \<Longrightarrow>
   holding sel r = holding sel r'"
  by (simp add: holding_def selects_def split: option.split)

subsection \<open>Edits that keep the control context\<close>

locale context_edit = row_edit +
  assumes edit_context: "c_control_context_json (edit r) = c_control_context_json r"
begin

lemma row_tenant_edit [simp]: "row_tenant (edit r) = row_tenant r"
  by (simp add: row_tenant_def edit_context)

lemma active_update:
  assumes "repo_ok s" "find_row i s = Some r"
  shows "active sel (update_task i guard edit s) + holding sel r =
    active sel s + holding sel (if guard r then edit r else r)"
proof -
  let ?f = "\<lambda>r. if c_task_id r = i \<and> guard r then edit r else r"
  from assms(2) have r: "r \<in> set (rp_tasks s)" "c_task_id r = i"
    by (auto dest: find_row_Some)
  then obtain xs ys where rows: "rp_tasks s = xs @ r # ys"
    by (auto simp: in_set_conv_decomp)
  have "distinct (map c_task_id (xs @ r # ys))"
    using assms(1) by (simp add: repo_ok_def task_ids_def rows)
  then have "c_task_id x \<noteq> i" if "x \<in> set xs \<or> x \<in> set ys" for x
    using that r(2) by (auto simp: image_iff)
  then have "map ?f xs = xs" "map ?f ys = ys"
    by (simp_all add: map_idI)
  then show ?thesis
    using r(2) by (simp add: active_def update_task_def rows ac_simps)
qed

end

interpretation dispatched_ctx: context_edit "\<lambda>r. c_status r = ''accepted''" "dispatched_row shim_pid now"
  for shim_pid now
  by unfold_locales (simp add: dispatched_row_def)

interpretation reserved_ctx: context_edit "\<lambda>r. True" "reserved_row reservation now" for reservation now
  by unfold_locales (simp add: reserved_row_def)

interpretation cancelled_ctx: context_edit "\<lambda>r. c_status r = ''accepted''" "cancelled_row error now"
  for error now
  by unfold_locales (simp add: cancelled_row_def)

interpretation completed_ctx: context_edit "\<lambda>r. True" "completed_row u" for u
  by unfold_locales (simp add: completed_row_def)

text \<open>The control context of a stored task never changes.\<close>

definition keeps_context :: "string \<Rightarrow> repo \<Rightarrow> repo \<Rightarrow> bool" where
  "keeps_context i s t =
     (case find_row i s of
        None \<Rightarrow> True
      | Some r \<Rightarrow> is_some_and (find_row i t) (\<lambda>r'. row_tenant r' = row_tenant r))"

lemma keeps_context_refl: "keeps_context i s s"
  by (simp add: keeps_context_def split: option.split)

lemma keeps_context_trans: "keeps_context i s t \<Longrightarrow> keeps_context i t u \<Longrightarrow> keeps_context i s u"
  by (auto simp: keeps_context_def is_some_and_def split: option.splits)

lemma keeps_context_find: "find_row i t = find_row i s \<Longrightarrow> keeps_context i s t"
  by (simp add: keeps_context_def split: option.split)

lemma keeps_context_same: "same_task i s t \<Longrightarrow> keeps_context i s t"
  by (simp add: same_task_def keeps_context_find)

context row_edit begin

lemma update_keeps_context:
  "(\<And>r. row_tenant (edit r) = row_tenant r) \<Longrightarrow> keeps_context i s (update_task i guard edit s)"
  by (cases "find_row i s") (simp_all add: keeps_context_def find_row_update)

end

lemma stmt_keeps_context: "stmt g i s t \<Longrightarrow> keeps_context i s t"
proof (induction rule: stmt.cases)
  case (event et m d now s t)
  then show ?case by (simp add: keeps_context_find insert_event_tx_find)
next
  case (insert n now s t)
  then have "find_row i s = None"
    by (auto simp: insert_row_def split: if_splits)
  then show ?case using insert by (simp add: keeps_context_def)
next
  case dispatched
  then show ?case by (simp add: dispatched.update_keeps_context)
next
  case started
  then show ?case by (simp add: started.update_keeps_context started_row_def row_tenant_def)
next
  case reserved
  then show ?case by (simp add: reserved.update_keeps_context)
next
  case released
  then show ?case by (simp add: released.update_keeps_context released_row_def row_tenant_def)
next
  case cancel_requested
  then show ?case by (simp add: cancel_requested.update_keeps_context cancel_requested_row_def row_tenant_def)
next
  case timeout
  then show ?case by (simp add: timeout.update_keeps_context timeout_row_def row_tenant_def)
next
  case recovered
  then show ?case by (simp add: recovered.update_keeps_context recovered_row_def row_tenant_def)
next
  case cancelled
  then show ?case by (simp add: cancelled.update_keeps_context)
next
  case completed
  then show ?case by (simp add: completed.update_keeps_context)
qed

lemma run_op_keeps_context: "\<not> is_delete c \<Longrightarrow> keeps_context i s (run_op (c, clk) s)"
proof (cases "op_task c = i")
  case True
  assume "\<not> is_delete c"
  then have "stmts (is_guarded c) i s (run_op (c, clk) s)"
    using run_op_stmts [of c s clk] by (simp add: True)
  then show ?thesis
    by (rule stmts_rel) (auto intro: keeps_context_refl keeps_context_trans stmt_keeps_context)
next
  case False
  then show ?thesis by (intro keeps_context_same run_op_same_task)
qed

subsection \<open>The operations of the dispatcher on the active reservations\<close>

lemma reserve_resources_active:
  assumes "repo_ok s" "reserve_resources i rv m clk s = (t, Inr u)" "find_row i s = Some r"
  shows "active sel t + holding sel r = active sel s + (if selects sel r then {#rv#} else {#})"
proof -
  let ?s = "update_task i (\<lambda>r. True) (reserved_row rv (clk 0)) s"
  have "insert_event_tx i EvResourceReserved (Some m) (Some (JReservation rv)) (clk 1) ?s = Inr t"
    using assms(2) by (simp add: reserve_resources_def transact_cases)
  then have "active sel t = active sel ?s"
    by (simp add: active_def insert_event_tx_Inr(2))
  moreover have "holding sel (reserved_row rv (clk 0) r) = (if selects sel r then {#rv#} else {#})"
    using reserved_ctx.row_tenant_edit [of rv "clk 0" r]
    by (simp add: holding_def selects_def row_reservation_def reserved_row_def to_json_def row_tenant_def)
  ultimately show ?thesis
    using reserved_ctx.active_update [OF assms(1,3), of sel rv "clk 0"] by simp
qed

lemma active_release_event:
  "release_event i a m now s = Inr t \<Longrightarrow> active sel t = active sel s"
  using release_event_cases [of i a m now s t] by (auto simp: active_def insert_event_tx_Inr(2))

lemma complete_task_active:
  assumes "repo_ok s" "complete_task i u clk s = (t, Inr v)" "find_row i s = Some r"
  shows "active sel t + holding sel r = active sel s"
proof -
  let ?s = "update_task i (\<lambda>r. True) (completed_row u) s"
  from assms(2) obtain d s1 where
    "option_res (\<lambda>d. i64_try_from d ''duration_ms is too large to persist'') (cu_duration_ms u) = Inr d" and
    s1: "release_event i (active_reservation_json i s) ''task resources released'' (clk 1) ?s = Inr s1" and
    t: "insert_event_tx i (completion_event (cu_status u)) (Some (completion_message (cu_status u))) None (clk 2) s1 = Inr t"
    unfolding complete_task_def Let_def transact_cases res_bind_eq_Inr by (elim exE conjE)
  have "active sel t = active sel ?s"
    using active_release_event [OF s1] by (simp add: active_def insert_event_tx_Inr(2) [OF t])
  moreover have "holding sel (completed_row u r) = {#}"
    by (auto simp: holding_def row_reservation_def completed_row_def release_time_def split: option.split)
  ultimately show ?thesis
    using completed_ctx.active_update [OF assms(1,3), of sel u] by simp
qed

lemma cancel_accepted_task_active:
  assumes "repo_ok s" "cancel_accepted_task i e clk s = (t, Inr v)"
  shows "active sel t \<subseteq># active sel s"
proof -
  let ?s = "update_task i (\<lambda>r. c_status r = ''accepted'') (cancelled_row e (clk 0)) s"
  from assms(2) obtain s1 where
    s1: "release_event i (active_reservation_json i s) ''task resources released'' (clk 1) ?s = Inr s1" and
    t: "insert_event_tx i EvCancelled (Some ''task cancelled'') None (clk 2) s1 = Inr t"
    unfolding cancel_accepted_task_def Let_def transact_cases res_bind_eq_Inr by (elim exE conjE)
  have at: "active sel t = active sel ?s"
    using active_release_event [OF s1] by (simp add: active_def insert_event_tx_Inr(2) [OF t])
  have "find_row i ?s \<noteq> None"
    using insert_event_tx_Inr(1) [OF t] release_event_cases [OF s1]
    by (auto simp: find_row_None task_ids_def dest: insert_event_tx_Inr(2))
  then obtain r where r: "find_row i s = Some r"
    by (auto simp: cancelled.find_row_update)
  have "holding sel (if c_status r = ''accepted'' then cancelled_row e (clk 0) r else r) \<subseteq># holding sel r"
    by (cases "c_status r = ''accepted''"; simp only: if_True if_False)
      (rule holding_le; auto simp: row_reservation_def cancelled_row_def release_time_def row_tenant_def)+
  then show ?thesis
    using cancelled_ctx.active_update [OF assms(1) r, of sel e "clk 0"]
    by (metis at mset_subset_eq_mono_add_left_cancel mset_subset_eq_mono_add_right_cancel union_commute)
qed

lemma mark_dispatched_active:
  assumes "repo_ok s"
  shows "active sel (fst (mark_dispatched i p clk s)) \<subseteq># active sel s"
proof (cases "find_row i s")
  case None
  then have "map (\<lambda>r. if c_task_id r = i \<and> c_status r = ''accepted'' then dispatched_row p (clk 0) r else r) (rp_tasks s) =
      rp_tasks s"
    by (intro map_idI) (auto simp: find_row_None task_ids_def)
  then show ?thesis by (simp add: mark_dispatched_def active_def update_task_def)
next
  case (Some r)
  have "holding sel (if c_status r = ''accepted'' then dispatched_row p (clk 0) r else r) = holding sel r"
    by (cases "c_status r = ''accepted''"; simp only: if_True if_False)
      (rule holding_cong; simp add: row_reservation_def dispatched_row_def row_tenant_def)
  then show ?thesis
    using dispatched_ctx.active_update [OF assms Some, of sel p "clk 0"] by (simp add: mark_dispatched_def)
qed

subsection \<open>Accounts that cover the active reservations\<close>

locale covering_admission = revocable_admission add fits repr allowed sub
  for add :: "'acc \<Rightarrow> 'd \<Rightarrow> 'acc" and fits :: "'acc \<Rightarrow> 'd \<Rightarrow> bool"
    and repr :: "'acc \<Rightarrow> 'd list \<Rightarrow> bool" and allowed :: "'d list \<Rightarrow> bool"
    and sub :: "'acc \<Rightarrow> 'd \<Rightarrow> 'acc" +
  assumes allowed_sub: "mset ds' \<subseteq># mset ds \<Longrightarrow> allowed ds \<Longrightarrow> allowed ds'"
begin

definition covers :: "'acc \<Rightarrow> 'd multiset \<Rightarrow> bool" where
  "covers a A = (\<exists>ds. repr a ds \<and> allowed ds \<and> A \<subseteq># mset ds)"

lemma covers_mono: "covers a A \<Longrightarrow> A' \<subseteq># A \<Longrightarrow> covers a A'"
  unfolding covers_def using subset_mset.order_trans by blast

lemma covers_add:
  assumes "covers a A" "fits a d" "A' \<subseteq># add_mset d A"
  shows "covers (add a d) A'"
proof -
  from assms(1) obtain ds where ds: "repr a ds" "allowed ds" "A \<subseteq># mset ds"
    by (auto simp: covers_def)
  then have "A' \<subseteq># mset (d # ds)"
    using assms(3) by (auto intro: subset_mset.order_trans)
  with admit [OF ds(1,2) assms(2)] show ?thesis
    unfolding covers_def by blast
qed

lemma covers_undo: "covers a A \<Longrightarrow> fits a d \<Longrightarrow> A' \<subseteq># A \<Longrightarrow> covers (sub (add a d) d) A'"
  unfolding covers_def using admit_then_revoke subset_mset.order_trans by blast

lemma covers_allowed: "covers a (mset ds) \<Longrightarrow> allowed ds"
  unfolding covers_def using allowed_sub by blast

end

lemma totals_mset:
  assumes "mset rs' \<subseteq># mset rs"
  shows "total_slots rs' \<le> total_slots rs" "total_memory rs' \<le> total_memory rs" "total_pids rs' \<le> total_pids rs"
proof -
  have eq: "sum_list (map f xs) = sum_mset (image_mset f (mset xs))" for f :: "'a \<Rightarrow> nat" and xs
    by (simp flip: sum_mset_sum_list mset_map)
  have "sum_list (map f rs') \<le> sum_list (map f rs)" for f :: "TaskResourceReservation \<Rightarrow> nat"
    unfolding eq using assms
    by (metis image_mset_union le_add1 sum_mset.union subset_mset.add_diff_inverse)
  then show "total_slots rs' \<le> total_slots rs" "total_memory rs' \<le> total_memory rs" "total_pids rs' \<le> total_pids rs"
    by (simp_all add: total_slots_def total_memory_def total_pids_def)
qed

lemma admissible_sub: "mset ds' \<subseteq># mset ds \<Longrightarrow> admissible cap ds \<Longrightarrow> admissible cap ds'"
  using totals_mset [of ds' ds]
  by (auto simp: admissible_def fits_capacity_def intro: below_limit_mono order_trans)

interpretation runtime_acct: covering_admission add_reservation "can_reserve l"
    "represents (lg_capacity l)" "admissible (lg_capacity l)" subtract_reservation for l
  by unfold_locales (rule admissible_sub)

interpretation tenant_acct: covering_admission add_reservation "can_reserve_for_tenant l tenant"
    "tenant_represents l tenant" "tenant_admissible l tenant" subtract_reservation for l tenant
  by unfold_locales (auto simp: tenant_admissible_def intro: admissible_sub split: option.splits)

subsection \<open>The invariant of a cycle\<close>

text \<open>The account kept for the runtime (\<open>None\<close>) or for a tenant, and what it covers.\<close>

definition account :: "ResourceLedger \<Rightarrow> string option \<Rightarrow> dispatcher \<Rightarrow> ResourceCapacity" where
  "account l sel d =
     (case sel of
        None \<Rightarrow> dp_reserved d
      | Some t \<Rightarrow> unwrap_or (map_of (dp_tenants d) t) (empty_tenant_capacity l t))"

definition acct_covers ::
    "ResourceLedger \<Rightarrow> string option \<Rightarrow> ResourceCapacity \<Rightarrow> TaskResourceReservation multiset \<Rightarrow> bool" where
  "acct_covers l sel a A =
     (case sel of None \<Rightarrow> runtime_acct.covers l a A | Some t \<Rightarrow> tenant_acct.covers l sel a A)"

definition acct_fits :: "ResourceLedger \<Rightarrow> string option \<Rightarrow> ResourceCapacity \<Rightarrow> TaskResourceReservation \<Rightarrow> bool" where
  "acct_fits l sel a r = (case sel of None \<Rightarrow> can_reserve l a r | Some t \<Rightarrow> can_reserve_for_tenant l sel a r)"

lemma acct_covers_mono: "acct_covers l sel a A \<Longrightarrow> A' \<subseteq># A \<Longrightarrow> acct_covers l sel a A'"
  by (auto simp: acct_covers_def intro: runtime_acct.covers_mono tenant_acct.covers_mono split: option.splits)

lemma acct_covers_add:
  "acct_covers l sel a A \<Longrightarrow> acct_fits l sel a d \<Longrightarrow> A' \<subseteq># add_mset d A \<Longrightarrow>
   acct_covers l sel (add_reservation a d) A'"
  by (auto simp: acct_covers_def acct_fits_def intro: runtime_acct.covers_add tenant_acct.covers_add split: option.splits)

abbreviation dp_repo :: "dispatcher \<Rightarrow> repo" where
  "dp_repo d \<equiv> wd_repo (dp_world d)"

definition covered :: "ResourceLedger \<Rightarrow> string option \<Rightarrow> dispatcher \<Rightarrow> bool" where
  "covered l sel d = (repo_ok (dp_repo d) \<and> acct_covers l sel (account l sel d) (active sel (dp_repo d)))"

text \<open>The queue read at the start still names stored tasks, with the same tenants.\<close>

definition queued :: "TaskRecord list \<Rightarrow> repo \<Rightarrow> bool" where
  "queued tasks s =
     list_all (\<lambda>task. is_some_and (find_row (tr_task_id task) s) (\<lambda>r. row_tenant r = task_tenant task)) tasks"

lemma queued_keeps: "queued tasks s \<Longrightarrow> (\<And>i. keeps_context i s t) \<Longrightarrow> queued tasks t"
  by (fastforce simp: queued_def list_all_iff keeps_context_def is_some_and_def split: option.splits)

lemma dp_repo_in_world [simp]: "dp_repo (fst (in_world f d)) = wd_repo (fst (f (dp_world d)))"
  by (simp add: in_world_def split: prod.split)

lemma snd_in_world [simp]: "snd (in_world f d) = snd (f (dp_world d))"
  by (simp add: in_world_def split: prod.split)

lemma dp_reserved_in_world [simp]:
  "dp_reserved (fst (in_world f d)) = dp_reserved d" "dp_tenants (fst (in_world f d)) = dp_tenants d"
  by (simp_all add: in_world_def split: prod.split)

lemma account_in_world [simp]: "account l sel (fst (in_world f d)) = account l sel d"
  by (simp add: account_def split: option.split)

text \<open>The four repository calls of the dispatcher keep the repository well formed and every context.\<close>

lemma dispatch_ops:
  assumes "repo_ok s"
  shows "repo_ok (fst (cancel_accepted_task i e clk s))" "repo_ok (fst (reserve_resources i rv m clk s))"
    "repo_ok (fst (mark_dispatched i p clk s))" "repo_ok (fst (complete_task i u clk s))"
    "keeps_context j s (fst (cancel_accepted_task i e clk s))"
    "keeps_context j s (fst (reserve_resources i rv m clk s))"
    "keeps_context j s (fst (mark_dispatched i p clk s))" "keeps_context j s (fst (complete_task i u clk s))"
  using run_op_keeps_ok [OF assms, of "(OpCancelAccepted i e, clk)"] run_op_keeps_ok [OF assms, of "(OpReserve i rv m, clk)"]
    run_op_keeps_ok [OF assms, of "(OpDispatched i p, clk)"] run_op_keeps_ok [OF assms, of "(OpComplete i u, clk)"]
    run_op_keeps_context [of "OpCancelAccepted i e" j s clk] run_op_keeps_context [of "OpReserve i rv m" j s clk]
    run_op_keeps_context [of "OpDispatched i p" j s clk] run_op_keeps_context [of "OpComplete i u" j s clk]
  by simp_all

lemma failed_op: "snd (transact body s) = Inl e \<Longrightarrow> fst (transact body s) = s"
  by (cases "body s") (simp_all add: transact_def)

lemma cancel_shrinks:
  "repo_ok s \<Longrightarrow> active sel (fst (cancel_accepted_task i e clk s)) \<subseteq># active sel s"
proof (cases "snd (cancel_accepted_task i e clk s)")
  case (Inl err)
  then show ?thesis unfolding cancel_accepted_task_def by (simp add: failed_op)
next
  case (Inr u)
  assume ok: "repo_ok s"
  have "cancel_accepted_task i e clk s = (fst (cancel_accepted_task i e clk s), Inr u)"
    by (metis Inr prod.collapse)
  then show ?thesis
    by (rule cancel_accepted_task_active [OF ok])
qed

lemma covered_shrink:
  "covered l sel d \<Longrightarrow> account l sel d' = account l sel d \<Longrightarrow> repo_ok (dp_repo d') \<Longrightarrow>
   active sel (dp_repo d') \<subseteq># active sel (dp_repo d) \<Longrightarrow> covered l sel d'"
  by (auto simp: covered_def intro: acct_covers_mono)

lemma reserve_resources_find:
  assumes "reserve_resources i rv m clk s = (t, Inr u)" "find_row i s = Some r"
  shows "find_row i t = Some (reserved_row rv (clk 0) r)"
proof -
  have "insert_event_tx i EvResourceReserved (Some m) (Some (JReservation rv)) (clk 1)
      (update_task i (\<lambda>r. True) (reserved_row rv (clk 0)) s) = Inr t"
    using assms(1) by (simp add: reserve_resources_def transact_cases)
  then show ?thesis
    by (simp add: insert_event_tx_find reserved.find_row_update assms(2))
qed

text \<open>The dispatcher after a successful reservation.\<close>

definition charged :: "ResourceLedger \<Rightarrow> TaskRecord \<Rightarrow> TaskResourceReservation \<Rightarrow> dispatcher \<Rightarrow> dispatcher" where
  "charged l task rv d =
     d\<lparr>dp_reserved := add_reservation (dp_reserved d) rv,
       dp_tenants := (case task_tenant task of Some t \<Rightarrow> charge_tenant l t rv (dp_tenants d) | None \<Rightarrow> dp_tenants d)\<rparr>"

lemma account_charged:
  "account l sel (charged l task rv d) =
     (if sel = None \<or> sel = task_tenant task then add_reservation (account l sel d) rv else account l sel d)"
  by (cases sel; cases "task_tenant task")
    (auto simp: account_def charged_def charge_tenant_def bt_entry_def map_of_bt_insert)

lemma account_spawned [simp]: "account l sel (d\<lparr>dp_spawned := x\<rparr>) = account l sel d"
  by (cases sel) (simp_all add: account_def)

lemma dp_world_charged [simp]: "dp_world (charged l task rv d) = dp_world d"
  by (simp add: charged_def)

text \<open>
  The setting of a launch: the account covers the active reservations, the task is stored with its
  tenant, and its reservation fits every account it is charged to.
\<close>

definition launchable ::
    "ResourceLedger \<Rightarrow> string option \<Rightarrow> TaskRecord \<Rightarrow> TaskResourceReservation \<Rightarrow> task_row \<Rightarrow> dispatcher \<Rightarrow> bool" where
  "launchable l sel task rv r0 d =
     (covered l sel d \<and> find_row (tr_task_id task) (dp_repo d) = Some r0 \<and>
      row_tenant r0 = task_tenant task \<and>
      (sel = None \<or> sel = task_tenant task \<longrightarrow> acct_fits l sel (account l sel d) rv))"

lemma launchableD:
  assumes "launchable l sel task rv r0 d"
  shows "repo_ok (dp_repo d)" "acct_covers l sel (account l sel d) (active sel (dp_repo d))"
    "find_row (tr_task_id task) (dp_repo d) = Some r0"
    "selects sel r0 \<longleftrightarrow> sel = None \<or> sel = task_tenant task"
    "selects sel r0 \<Longrightarrow> acct_fits l sel (account l sel d) rv"
  using assms by (auto simp: launchable_def covered_def selects_def)

abbreviation reserving :: "dispatch_host \<Rightarrow> TaskRecord \<Rightarrow> TaskResourceReservation \<Rightarrow> repo \<Rightarrow> repo \<times> unit app_result" where
  "reserving host task rv \<equiv>
     reserve_resources (tr_task_id task) rv ''task resources reserved'' (dh_reserve_clock host)"

abbreviation failing :: "dispatch_host \<Rightarrow> TaskRecord \<Rightarrow> string \<Rightarrow> repo \<Rightarrow> repo \<times> unit app_result" where
  "failing host task err \<equiv>
     complete_task (tr_task_id task) (spawn_failed_update (dh_failed_at host) err) (dh_complete_clock host)"

lemma reserving_active:
  assumes "launchable l sel task rv r0 d" "reserving host task rv (dp_repo d) = (s1, Inr u)"
  shows "active sel s1 + holding sel r0 = active sel (dp_repo d) + (if selects sel r0 then {#rv#} else {#})"
    and "active sel s1 \<subseteq># active sel (dp_repo d) + (if selects sel r0 then {#rv#} else {#})"
proof -
  show "active sel s1 + holding sel r0 = active sel (dp_repo d) + (if selects sel r0 then {#rv#} else {#})"
    by (rule reserve_resources_active [OF launchableD(1) [OF assms(1)] assms(2) launchableD(3) [OF assms(1)]])
  then show "active sel s1 \<subseteq># active sel (dp_repo d) + (if selects sel r0 then {#rv#} else {#})"
    by (metis mset_subset_eq_add_left)
qed

text \<open>The account after the charge covers what is active after the reservation.\<close>

lemma charged_covered:
  assumes l: "launchable l sel task rv r0 d" and res: "reserving host task rv (dp_repo d) = (s1, Inr u)"
    and d1: "dp_repo d1 = s1" "account l sel d1 = account l sel d"
  shows "covered l sel (charged l task rv d1)"
proof -
  note D = launchableD [OF l]
  have ok1: "repo_ok s1"
    using dispatch_ops(2) [OF D(1), of "tr_task_id task" rv _ "dh_reserve_clock host"] res by (metis fst_conv)
  have "acct_covers l sel (account l sel (charged l task rv d1)) (active sel s1)"
  proof (cases "selects sel r0")
    case True
    with reserving_active(2) [OF l res] D(5)
    have "acct_covers l sel (add_reservation (account l sel d) rv) (active sel s1)"
      by (intro acct_covers_add [OF D(2)]) auto
    with True D(4) show ?thesis unfolding account_charged d1(2) by auto
  next
    case False
    with reserving_active(2) [OF l res] have "acct_covers l sel (account l sel d) (active sel s1)"
      by (intro acct_covers_mono [OF D(2)]) simp
    with False D(4) show ?thesis unfolding account_charged d1(2) by auto
  qed
  with ok1 d1(1) show ?thesis by (simp add: covered_def)
qed

text \<open>Taking the reservation back after a failed start.\<close>

lemma returned_covered:
  assumes l: "launchable l sel task rv r0 d" and res: "reserving host task rv (dp_repo d) = (s1, Inr u)"
    and fl: "failing host task err s1 = (s2, Inr v)"
    and d5: "dp_repo d5 = s2" "dp_reserved d5 = subtract_reservation (add_reservation (dp_reserved d) rv) rv"
      "dp_tenants d5 = dp_tenants (charged l task rv d)"
  shows "covered l sel d5"
proof -
  note D = launchableD [OF l]
  have ok1: "repo_ok s1"
    using dispatch_ops(2) [OF D(1), of "tr_task_id task" rv _ "dh_reserve_clock host"] res by (metis fst_conv)
  then have ok2: "repo_ok s2"
    using dispatch_ops(4) [OF ok1] fl by (metis fst_conv)
  have hold: "holding sel (reserved_row rv (dh_reserve_clock host 0) r0) = (if selects sel r0 then {#rv#} else {#})"
    by (simp add: holding_def selects_def row_reservation_def reserved_row_def to_json_def row_tenant_def)
  let ?X = "if selects sel r0 then {#rv#} else {#} :: TaskResourceReservation multiset"
  have "active sel s2 + ?X = active sel s1"
    using complete_task_active [OF ok1 fl reserve_resources_find [OF res D(3)], of sel] unfolding hold .
  with reserving_active(1) [OF l res] have "(active sel s2 + holding sel r0) + ?X = active sel (dp_repo d) + ?X"
    by (metis union_assoc union_commute)
  then have "active sel s2 + holding sel r0 = active sel (dp_repo d)"
    by (rule add_right_imp_eq)
  then have sub: "active sel s2 \<subseteq># active sel (dp_repo d)"
    by (metis mset_subset_eq_add_left)
  have "acct_covers l sel (account l sel d5) (active sel s2)"
  proof (cases sel)
    case None
    have "runtime_acct.covers l (subtract_reservation (add_reservation (dp_reserved d) rv) rv) (active sel s2)"
      by (rule runtime_acct.covers_undo [where A = "active sel (dp_repo d)"])
        (use D(2,4,5) sub None in \<open>simp_all add: acct_covers_def account_def acct_fits_def\<close>)
    then show ?thesis by (simp add: None acct_covers_def account_def d5)
  next
    case (Some t)
    then have same: "account l sel d5 = account l sel (charged l task rv d)"
      by (simp add: account_def d5)
    show ?thesis
    proof (cases "selects sel r0")
      case True
      then have "acct_covers l sel (add_reservation (account l sel d) rv) (active sel s2)"
        using sub D(5) by (intro acct_covers_add [OF D(2)]) (auto intro: subset_mset.order_trans)
      with True D(4) show ?thesis unfolding same account_charged by auto
    next
      case False
      with acct_covers_mono [OF D(2) sub] D(4) show ?thesis
        unfolding same account_charged by auto
    qed
  qed
  with ok2 d5(1) show ?thesis by (simp add: covered_def)
qed

lemma launch_covered:
  assumes l: "launchable l sel task rv r0 d"
  shows "covered l sel (fst (launch_task settings l host task rv d))"
proof -
  let ?i = "tr_task_id task" and ?s = "dp_repo d"
  let ?d1 = "fst (in_world (on_repo (reserving host task rv)) d)" and ?s1 = "fst (reserving host task rv ?s)"
  let ?d2 = "charged l task rv ?d1"
  note eq = launch_task_def Let_def fst_and_then charged_def [symmetric]
  show ?thesis
  proof (cases "snd (reserving host task rv ?s)")
    case (Inl e)
    then have "?s1 = ?s" unfolding reserve_resources_def by (rule failed_op)
    then have "covered l sel ?d1"
      using l by (simp add: launchable_def covered_def)
    with Inl show ?thesis by (simp add: eq)
  next
    case res: (Inr u)
    then have res': "reserving host task rv ?s = (?s1, Inr u)" by (metis prod.collapse)
    have cov: "covered l sel ?d2" by (rule charged_covered [OF l res']) simp_all
    then have ok1: "repo_ok ?s1" by (simp add: covered_def)
    show ?thesis
    proof (cases "dh_exe host")
      case (Inl e)
      with res cov show ?thesis by (simp add: eq)
    next
      case exe: (Inr exe)
      show ?thesis
      proof (cases "dh_spawn host")
        case (Inr pid)
        let ?d3 = "?d2\<lparr>dp_spawned := dp_spawned ?d2 @ [(?i, pid, exe # shim_args settings ?i)]\<rparr>"
        have "covered l sel (fst (in_world (on_repo (mark_dispatched ?i pid (dh_dispatched_clock host))) ?d3))"
          by (rule covered_shrink [OF cov])
            (use dispatch_ops(3) [OF ok1] mark_dispatched_active [OF ok1] in \<open>simp_all\<close>)
        with res exe Inr show ?thesis by (simp add: eq)
      next
        case spawn: (Inl err)
        let ?d3 = "fst (in_world (on_repo (failing host task err)) ?d2)"
        show ?thesis
        proof (cases "snd (failing host task err ?s1)")
          case (Inl e)
          then have "fst (failing host task err ?s1) = ?s1" unfolding complete_task_def by (rule failed_op)
          with cov have "covered l sel ?d3" by (simp add: covered_def)
          with Inl res exe spawn show ?thesis by (simp add: eq)
        next
          case (Inr v)
          then have "failing host task err ?s1 = (fst (failing host task err ?s1), Inr v)" by (metis prod.collapse)
          then have "covered l sel (fst (in_world (persist_latest_result (dh_faults host) (dh_now host) ?i)
              (?d3\<lparr>dp_reserved := subtract_reservation (dp_reserved ?d3) rv\<rparr>)))"
            by (rule returned_covered [OF l res']) (simp_all add: charged_def split: option.split)
          then show ?thesis
            using Inr res exe spawn by (simp add: eq)
        qed
      qed
    qed
  qed
qed

subsection \<open>A task, the queue, a cycle\<close>

lemma launch_keeps_context:
  assumes "repo_ok (dp_repo d)"
  shows "keeps_context i (dp_repo d) (dp_repo (fst (launch_task settings l host task rv d)))"
proof -
  let ?s1 = "fst (reserving host task rv (dp_repo d))"
  have ok1: "repo_ok ?s1" by (rule dispatch_ops(2) [OF assms])
  have k1: "keeps_context i (dp_repo d) ?s1" by (rule dispatch_ops(6) [OF assms])
  note k2 = keeps_context_trans [OF k1 dispatch_ops(7) [OF ok1]] keeps_context_trans [OF k1 dispatch_ops(8) [OF ok1]]
  show ?thesis
    by (simp add: launch_task_def Let_def fst_and_then k1 k2 split: sum.split)
qed

lemma dispatch_task_keeps_context:
  assumes "repo_ok (dp_repo d)"
  shows "keeps_context i (dp_repo d) (dp_repo (fst (dispatch_task settings l host task d)))"
  using launch_keeps_context [OF assms]
  by (simp add: dispatch_task_def Let_def fst_and_then keeps_context_refl dispatch_ops(5) [OF assms] split: sum.split)

lemma dispatch_task_covered:
  assumes cov: "covered l sel d"
    and row: "find_row (tr_task_id task) (dp_repo d) = Some r0" "row_tenant r0 = task_tenant task"
  shows "covered l sel (fst (dispatch_task settings l host task d))"
proof -
  have ok: "repo_ok (dp_repo d)" using cov by (simp add: covered_def)
  let ?rv = "unwrap_or (tr_reservation task) (from_limits (tr_limits task))"
  let ?tr = "unwrap_or (Option.bind (task_tenant task) (map_of (dp_tenants d)))
                     (empty_tenant_capacity l (unwrap_or (task_tenant task) []))"
  have cancel: "covered l sel (fst (in_world (on_repo
      (cancel_accepted_task (tr_task_id task) killed_before_execution (dh_cancel_clock host))) d))"
    by (rule covered_shrink [OF cov]) (simp_all add: dispatch_ops(1) [OF ok] cancel_shrinks [OF ok])
  have persist: "covered l sel (fst (in_world (persist_latest_result f n j) d'))" if "covered l sel d'" for f n j d'
    using that by (simp add: covered_def)
  have launch: "covered l sel (fst (launch_task settings l host task ?rv d))"
    if "can_reserve l (dp_reserved d) ?rv" "can_reserve_for_tenant l (task_tenant task) ?tr ?rv"
  proof (rule launch_covered)
    show "launchable l sel task ?rv r0 d"
      using that cov row
      by (cases sel; cases "task_tenant task") (auto simp: launchable_def acct_fits_def account_def)
  qed
  show ?thesis
    using launch cov cancel persist [OF cancel]
    by (simp add: dispatch_task_def Let_def fst_and_then split: sum.split)
qed

lemma dispatch_tasks_covered:
  "covered l sel d \<Longrightarrow> queued tasks (dp_repo d) \<Longrightarrow> covered l sel (fst (dispatch_tasks settings l hosts tasks d))"
proof (induction tasks arbitrary: d)
  case Nil
  then show ?case by simp
next
  case (Cons task tasks)
  let ?d1 = "fst (dispatch_task settings l (hosts (tr_task_id task)) task d)"
  from Cons.prems(2) obtain r0 where
    row: "find_row (tr_task_id task) (dp_repo d) = Some r0" "row_tenant r0 = task_tenant task"
    by (auto simp: queued_def is_some_and_def split: option.splits)
  have cov1: "covered l sel ?d1" by (rule dispatch_task_covered [OF Cons.prems(1) row])
  have "repo_ok (dp_repo d)" using Cons.prems(1) by (simp add: covered_def)
  then have "queued tasks (dp_repo ?d1)"
    using Cons.prems(2) by (intro queued_keeps [OF _ dispatch_task_keeps_context]) (auto simp: queued_def)
  with Cons.IH [OF cov1] cov1 show ?case
    by (simp add: fst_and_then split: sum.split)
qed

lemma row_record_tenant: "row_to_task_record r = Inr task \<Longrightarrow> row_tenant r = task_tenant task"
  using record_fields(8) [of r task]
  by (cases "tr_control_context task") (simp_all add: row_tenant_def task_tenant_def option_res_from_json_eq)

lemma row_record_reservation: "row_to_task_record r = Inr task \<Longrightarrow> row_reserved r \<Longrightarrow> row_reservation r = tr_reservation task"
  using record_fields(7) [of r task]
  by (cases "tr_reservation task") (simp_all add: row_reservation_def row_reserved_def option_res_from_json_eq)

lemma decoded_reservations:
  "map_res row_to_task_record rs = Inr tasks \<Longrightarrow> list_all row_reserved rs \<Longrightarrow>
   mset (List.map_filter tr_reservation (filter (\<lambda>task. sel = None \<or> task_tenant task = sel) tasks)) =
     sum_list (map (holding sel) rs)"
proof (induction rs arbitrary: tasks)
  case Nil
  then show ?case by (simp add: map_filter_simps)
next
  case (Cons r rs)
  then obtain task ts where step: "row_to_task_record r = Inr task" "map_res row_to_task_record rs = Inr ts" "tasks = task # ts"
    by (auto simp: res_bind_eq_Inr)
  have "holding sel r = (case tr_reservation task of
      Some v \<Rightarrow> if sel = None \<or> task_tenant task = sel then {#v#} else {#} | None \<Rightarrow> {#})"
    using row_record_reservation [OF step(1)] row_record_tenant [OF step(1)] Cons.prems(2)
    by (simp add: holding_def selects_def split: option.split)
  then show ?case
    using Cons.IH [OF step(2)] Cons.prems(2)
    by (auto simp: step(3) map_filter_simps split: option.split)
qed

lemma active_listed:
  assumes "list_active_reservations s = Inr tasks"
  shows "mset (List.map_filter tr_reservation (filter (\<lambda>task. sel = None \<or> task_tenant task = sel) tasks)) = active sel s"
proof -
  let ?rs = "sort_key (\<lambda>r. (c_reserved_at_ms r, c_created_at_ms r)) (filter row_reserved (rp_tasks s))"
  have "mset (List.map_filter tr_reservation (filter (\<lambda>task. sel = None \<or> task_tenant task = sel) tasks)) =
      sum_list (map (holding sel) ?rs)"
    using assms by (intro decoded_reservations) (auto simp: list_active_reservations_def list_all_iff)
  also have "\<dots> = sum_list (map (holding sel) (filter row_reserved (rp_tasks s)))"
    by (simp flip: sum_mset_sum_list)
  also have "\<dots> = active sel s"
  proof -
    have "sum_list (map (holding sel) (filter row_reserved rs)) = sum_list (map (holding sel) rs)" for rs
      by (induction rs) (auto simp: holding_def row_reservation_def row_reserved_def split: option.split)
    then show ?thesis by (simp add: active_def)
  qed
  finally show ?thesis .
qed

lemma account_start:
  "map_of (tenant_account l m tasks) t =
     (let rs = List.map_filter tr_reservation (filter (\<lambda>task. task_tenant task = Some t) tasks)
      in if rs = [] then map_of m t
         else Some (fold (\<lambda>r acc. add_reservation acc r) rs (unwrap_or (map_of m t) (empty_tenant_capacity l t))))"
proof (induction tasks arbitrary: m)
  case Nil
  then show ?case by (simp add: map_filter_simps)
next
  case (Cons task tasks)
  show ?case
    by (cases "tr_reservation task"; cases "task_tenant task")
      (auto simp: Cons.IH map_filter_simps charge_tenant_def bt_entry_def map_of_bt_insert Let_def)
qed

lemma empty_tenant_represents: "tenant_represents l (Some t) (empty_tenant_capacity l t) []"
  by (auto simp: tenant_represents_def quota_of_def empty_tenant_capacity_def tenant_quota_def represents_def
      holds_total_def split: option.splits)

text \<open>What is required of the runtime and of a tenant for the check to be meaningful.\<close>

definition limits_proper :: "ResourceLedger \<Rightarrow> string option \<Rightarrow> bool" where
  "limits_proper l sel =
     (case sel of
        None \<Rightarrow> proper_capacity (lg_capacity l)
      | Some t \<Rightarrow> (case quota_of l sel of None \<Rightarrow> True | Some quota \<Rightarrow> proper_capacity quota))"

definition within :: "ResourceLedger \<Rightarrow> string option \<Rightarrow> TaskResourceReservation list \<Rightarrow> bool" where
  "within l sel rs =
     (case sel of
        None \<Rightarrow> fits_capacity (lg_capacity l) rs
      | Some t \<Rightarrow> (case quota_of l sel of None \<Rightarrow> True | Some quota \<Rightarrow> fits_capacity quota rs))"

lemma covered_start:
  assumes "repo_ok (wd_repo w)" "limits_proper l sel" "within l sel (active_reservations sel (wd_repo w))"
    and "list_active_reservations (wd_repo w) = Inr listed"
    and "d = \<lparr>dp_world = w, dp_reserved = reserved_capacity l (List.map_filter tr_reservation listed),
              dp_tenants = tenant_account l [] listed, dp_spawned = []\<rparr>"
  shows "covered l sel d"
proof -
  let ?rs = "List.map_filter tr_reservation (filter (\<lambda>task. sel = None \<or> task_tenant task = sel) listed)"
  have ms: "mset ?rs = active sel (wd_repo w)" by (rule active_listed [OF assms(4)])
  then have eq: "mset ?rs = mset (active_reservations sel (wd_repo w))" by (simp add: mset_active_reservations)
  have "acct_covers l sel (account l sel d) (active sel (wd_repo w))"
  proof (cases sel)
    case None
    have "admissible (lg_capacity l) ?rs"
      by (rule admissible_sub [of _ "active_reservations sel (wd_repo w)"])
        (use assms(2,3) eq None in \<open>simp_all add: admissible_def limits_proper_def within_def\<close>)
    then show ?thesis
      using reserved_capacity_represents [of l ?rs] ms None
      by (auto simp: acct_covers_def account_def assms(5) runtime_acct.covers_def)
  next
    case (Some t)
    have "tenant_admissible l sel ?rs"
      by (rule tenant_acct.allowed_sub [of _ "active_reservations sel (wd_repo w)"])
        (use assms(2,3) eq Some in \<open>simp_all add: tenant_admissible_def admissible_def limits_proper_def within_def split: option.splits\<close>)
    moreover have "tenant_represents l sel (account l sel d) (rev ?rs)"
      using tenant_adm.repr_fold [OF empty_tenant_represents [of l t], of ?rs] empty_tenant_represents [of l t]
      by (simp add: Some account_def assms(5) account_start Let_def)
    moreover have "tenant_admissible l sel (rev ?rs)"
      by (rule tenant_acct.allowed_sub [OF _ calculation(1)]) simp
    ultimately show ?thesis
      using ms by (auto simp: acct_covers_def Some tenant_acct.covers_def)
  qed
  with assms(1) show ?thesis by (simp add: covered_def assms(5))
qed

lemma queued_listed:
  assumes "repo_ok s" "list_accepted n s = Inr tasks"
  shows "queued tasks s"
proof -
  have "set tasks \<subseteq> {task. \<exists>r \<in> set (rp_tasks s). row_to_task_record r = Inr task}"
    using decoded_rows [of _ tasks] assms(2) set_sql_limit [of n] unfolding list_accepted_def by fastforce
  then show ?thesis
    using find_row_mem [OF assms(1)]
    by (fastforce simp: queued_def list_all_iff is_some_and_def record_fields(1) row_record_tenant)
qed

lemma covered_within: "covered l sel d \<Longrightarrow> within l sel (active_reservations sel (dp_repo d))"
proof -
  assume "covered l sel d"
  then have "acct_covers l sel (account l sel d) (mset (active_reservations sel (dp_repo d)))"
    by (simp add: covered_def mset_active_reservations)
  then show ?thesis
    by (auto simp: acct_covers_def within_def tenant_admissible_def admissible_def
        dest!: runtime_acct.covers_allowed tenant_acct.covers_allowed split: option.splits)
qed

text \<open>
  One cycle of the dispatcher never over-commits: when the reservations active before the cycle
  stay within the capacity of the runtime (or within the quota of a tenant), so do those active after
  it, whatever is in the queue, whatever \<open>spawn\<close> and \<open>current_exe\<close> answer, and also when the cycle
  ends early with an error; all sums as natural numbers, for limits below the largest 64-bit value.
\<close>

theorem dispatch_never_overcommits:
  assumes "repo_ok (wd_repo w)" "limits_proper l sel"
    and "within l sel (active_reservations sel (wd_repo w))"
  shows "within l sel (active_reservations sel
           (wd_repo (dp_world (fst (dispatch_once_sync settings l hosts w)))))"
proof -
  obtain listed tasks where lists: "list_active_reservations (wd_repo w) = Inr listed"
      "list_accepted (se_max_queued_tasks settings) (wd_repo w) = Inr tasks"
    using list_queries_ok(1) [OF assms(1), of "se_max_queued_tasks settings"] list_queries_ok(3) [OF assms(1)]
    by (auto simp: is_ok_conv)
  let ?d = "\<lparr>dp_world = w, dp_reserved = reserved_capacity l (List.map_filter tr_reservation listed),
              dp_tenants = tenant_account l [] listed, dp_spawned = []\<rparr>"
  have "covered l sel ?d" by (rule covered_start [OF assms lists(1)]) simp
  then have "covered l sel (fst (dispatch_tasks settings l hosts tasks ?d))"
    using queued_listed [OF assms(1) lists(2)] by (intro dispatch_tasks_covered) simp_all
  then show ?thesis
    by (simp add: dispatch_once_sync_def Let_def lists covered_within)
qed

end
