(* ===== verification/Dispatch_Outcome.thy ===== *)
theory Dispatch_Outcome
  imports Dispatch_Safety
begin

section \<open>Outcomes of a dispatch cycle\<close>

text \<open>
  What happens to a single task of the queue, sample cycles, and two cycles that leave capacity
  unused.
\<close>

subsection \<open>A task that starts, a task that is killed\<close>

lemma dp_spawned_in_world [simp]: "dp_spawned (fst (in_world f d)) = dp_spawned d"
  by (simp add: in_world_def split: prod.split)

text \<open>The step of the dispatcher on a task that fits.\<close>

lemma dispatch_task_starts:
  assumes "get_task (tr_task_id task) (dp_repo d) = Inr task" "tr_status task = Accepted"
    and "\<not> tr_kill_requested task" "\<not> has_active_reservation task"
    and "rv = unwrap_or (tr_reservation task) (from_limits (tr_limits task))"
    and "can_reserve l (dp_reserved d) rv"
    and "can_reserve_for_tenant l (task_tenant task)
           (unwrap_or (Option.bind (task_tenant task) (map_of (dp_tenants d)))
             (empty_tenant_capacity l (unwrap_or (task_tenant task) []))) rv"
    and "dh_exe host = Inr exe" "dh_spawn host = Inr pid"
  shows "\<exists>d' task'. dispatch_task settings l host task d = (d', Inr ()) \<and>
      dp_spawned d' = dp_spawned d @ [(tr_task_id task, pid, exe # shim_args settings (tr_task_id task))] \<and>
      get_task (tr_task_id task) (dp_repo d') = Inr task' \<and>
      tr_status task' = Running \<and> tr_shim_pid task' = Some pid \<and>
      tr_reservation task' = Some rv \<and> has_active_reservation task' \<and>
      dp_repo d' = run_op (OpDispatched (tr_task_id task) pid, dh_dispatched_clock host)
        (run_op (OpReserve (tr_task_id task) rv ''task resources reserved'', dh_reserve_clock host) (dp_repo d))"
proof -
  let ?i = "tr_task_id task" and ?s = "dp_repo d"
  obtain r where r: "find_row ?i ?s = Some r" "row_to_task_record r = Inr task"
    using assms(1) by (auto simp: get_task_row)
  let ?c = "dh_reserve_clock host" and ?r1 = "reserved_row rv (dh_reserve_clock host 0) r"
  let ?r2 = "dispatched_row pid (dh_dispatched_clock host 0) ?r1"
  let ?s1 = "add_event ?i EvResourceReserved (Some ''task resources reserved'') (Some (JReservation rv)) (?c 1)
      (update_task ?i (\<lambda>r. True) (reserved_row rv (?c 0)) ?s)"
  let ?s2 = "update_task ?i (\<lambda>r. c_status r = ''accepted'') (dispatched_row pid (dh_dispatched_clock host 0)) ?s1"
  have row1: "find_row ?i (update_task ?i (\<lambda>r. True) (reserved_row rv (?c 0)) ?s) = Some ?r1"
    by (simp add: reserved.find_row_update r)
  have res: "reserve_resources ?i rv ''task resources reserved'' ?c ?s = (?s1, Inr ())"
    by (simp add: reserve_resources_def transact_def insert_event_tx_ok [OF row1])
  have st: "c_status ?r1 = ''accepted''"
    using status_column [OF r(2)] assms(2) by (simp add: reserved_row_def)
  have row2: "find_row ?i ?s2 = Some ?r2"
    by (simp add: dispatched.find_row_update row1 st)
  have "is_ok (row_to_task_record ?r2)"
    using r(2) is_ok_row_to_task_record [of r]
    by (simp add: is_ok_row_to_task_record dispatched_row_def reserved_row_def)
  then obtain task' where t: "row_to_task_record ?r2 = Inr task'" by (auto simp: is_ok_conv)
  have fields: "tr_status task' = Running" "tr_shim_pid task' = Some pid" "tr_reservation task' = Some rv"
    "tr_released_at task' = None"
    using record_fields(2,7,14,19) [OF t] by (simp_all add: dispatched_row_def reserved_row_def)
  then have "has_active_reservation task'" by (simp add: has_active_reservation_def)
  with fields show ?thesis
    using assms(3,4,6-9)
    by (simp add: dispatch_task_def launch_task_def Let_def assms(5) [symmetric]
        res in_world_def on_repo_def mark_dispatched_def get_task_def row2 t del: One_nat_def)
qed

text \<open>
  A waiting task whose reservation fits is started: when it is stored as accepted, not to be killed
  and holds no reservation, when its reservation fits the capacity and the quota of its tenant, and
  when the process starts, the task is afterwards running under the shim that was spawned, holds
  exactly that reservation, and exactly one shim was spawned, for this task.
\<close>

theorem fitting_task_is_started:
  assumes "get_task (tr_task_id task) (dp_repo d) = Inr task" "tr_status task = Accepted"
    and "\<not> tr_kill_requested task" "\<not> has_active_reservation task"
    and "rv = unwrap_or (tr_reservation task) (from_limits (tr_limits task))"
    and "can_reserve l (dp_reserved d) rv"
    and "can_reserve_for_tenant l (task_tenant task)
           (unwrap_or (Option.bind (task_tenant task) (map_of (dp_tenants d)))
             (empty_tenant_capacity l (unwrap_or (task_tenant task) []))) rv"
    and "dh_exe host = Inr exe" "dh_spawn host = Inr pid"
  shows "let (d', outcome) = dispatch_task settings l host task d in
      outcome = Inr () \<and>
      dp_spawned d' = dp_spawned d @ [(tr_task_id task, pid, exe # shim_args settings (tr_task_id task))] \<and>
      (case get_task (tr_task_id task) (dp_repo d') of
         Inl _ \<Rightarrow> False
       | Inr task' \<Rightarrow> tr_status task' = Running \<and> tr_shim_pid task' = Some pid \<and>
                      tr_reservation task' = Some rv \<and> has_active_reservation task')"
  using dispatch_task_starts [OF assms, of settings] by (elim exE conjE) (simp del: not_Some_eq not_None_eq)

text \<open>
  C7: A task to be killed is never started: the cycle cancels it instead, whatever the accounts say,
  no process is spawned for it, and it reads back cancelled without a reservation.
\<close>

theorem killed_task_is_never_started:
  assumes "get_task (tr_task_id task) (dp_repo d) = Inr task" "tr_status task = Accepted"
    and "tr_kill_requested task"
  shows "let d' = fst (dispatch_task settings l host task d) in
      dp_spawned d' = dp_spawned d \<and>
      (case get_task (tr_task_id task) (dp_repo d') of
         Inl _ \<Rightarrow> False
       | Inr task' \<Rightarrow> tr_status task' = Cancelled \<and> \<not> has_active_reservation task' \<and>
                      tr_error_code task' = Some EcCancelled)"
proof -
  let ?i = "tr_task_id task" and ?s = "dp_repo d" and ?c = "dh_cancel_clock host"
  let ?e = killed_before_execution
  obtain r where r: "find_row ?i ?s = Some r" "row_to_task_record r = Inr task"
    using assms(1) by (auto simp: get_task_row)
  have st: "c_status r = ''accepted''"
    using status_column [OF r(2)] assms(2) by simp
  let ?s1 = "update_task ?i (\<lambda>r. c_status r = ''accepted'') (cancelled_row ?e (?c 0)) ?s"
  have row1: "find_row ?i ?s1 = Some (cancelled_row ?e (?c 0) r)"
    by (simp add: cancelled.find_row_update r st)
  have rel: "release_event ?i (active_reservation_json ?i ?s) m now ?s1 = Inr (released_log ?i task m now ?s1)" for m now
    by (rule release_event_outcome [OF r]) (simp add: row1)
  let ?s2 = "add_event ?i EvCancelled (Some ''task cancelled'') None (?c 2)
      (released_log ?i task ''task resources released'' (?c 1) ?s1)"
  have cancel: "cancel_accepted_task ?i ?e ?c ?s = (?s2, Inr ())"
    unfolding cancel_accepted_task_def Let_def transact_def rel res_bind_simps
    by (simp add: insert_event_tx_outcome row1)
  have "is_ok (row_to_task_record (cancelled_row ?e (?c 0) r))"
    using r(2) is_ok_row_to_task_record [of r]
    by (simp add: is_ok_row_to_task_record cancelled_row_def)
  then obtain task' where t: "row_to_task_record (cancelled_row ?e (?c 0) r) = Inr task'" by (auto simp: is_ok_conv)
  have "tr_status task' = Cancelled" "tr_error_code task' = Some EcCancelled"
    using record_fields(2,4) [OF t] code.dec_enc [of EcCancelled]
    by (simp_all add: cancelled_row_def killed_before_execution_def)
  moreover have "\<not> has_active_reservation task'"
    using row_reserved_record [OF t] by (auto simp: row_reserved_def cancelled_row_def release_time_def split: if_splits)
  moreover have "in_world (on_repo (cancel_accepted_task ?i ?e ?c)) d =
      (d\<lparr>dp_world := (dp_world d)\<lparr>wd_repo := ?s2\<rparr>\<rparr>, Inr ())"
    by (simp add: in_world_def on_repo_def cancel del: One_nat_def)
  ultimately show ?thesis
    using assms(3)
    by (simp add: dispatch_task_def Let_def get_task_def row1 t del: One_nat_def)
qed

subsection \<open>Sample cycles\<close>

definition sample_settings :: Settings where
  "sample_settings =
     \<lparr>se_runtime_id = ''rt'', se_listen_addr = ''l'', se_data_dir = ''/d'', se_tasks_dir = ''/d/tasks'',
      se_database_path = ''/d/runtime.db'', se_max_running_tasks = 2, se_max_queued_tasks = 8,
      se_termination_grace_ms = 5, se_result_retention_secs = 60, se_gc_interval_ms = 9,
      se_dispatch_poll_interval_ms = 9, se_cgroup_root = ''/c'', se_default_capability_mode = Adaptive,
      se_disable_linux_sandbox = False, se_disable_cgroup = False, se_capacity_memory_bytes = None,
      se_capacity_pids = None, se_tenant_quotas = []\<rparr>"

definition sample_dispatch_host :: "string + string \<Rightarrow> string + u32 \<Rightarrow> dispatch_host" where
  "sample_dispatch_host exe spawn =
     \<lparr>dh_cancel_clock = sample_clock, dh_reserve_clock = sample_clock, dh_dispatched_clock = sample_clock,
      dh_complete_clock = sample_clock, dh_failed_at = 9, dh_now = 9, dh_faults = (\<lambda>_. None),
      dh_exe = exe, dh_spawn = spawn\<rparr>"

definition good_host :: dispatch_host where
  "good_host = sample_dispatch_host (Inr ''x'') (Inr 77)"

text \<open>A task of the tenant \<open>a\<close>.\<close>

definition tenant_task :: "string \<Rightarrow> NewTaskRecord" where
  "tenant_task i = (sample_new i)
     \<lparr>nt_control_context := Some \<lparr>cc_control_plane_mode = None, cc_tenant = Some ''a'', cc_owner = None,
        cc_expected_runtime_profile = None, cc_requires_strict_sandbox = False,
        cc_requires_resource_reservation = False, cc_labels = []\<rparr>\<rparr>"

definition two_tenant_tasks :: world where
  "two_tenant_tasks =
     \<lparr>wd_repo = run_history [(OpInsert (tenant_task ''t1''), sample_clock), (OpInsert (tenant_task ''t2''), sample_clock)],
      wd_files = no_files\<rparr>"

definition sample_ledger :: ResourceLedger where
  "sample_ledger = with_tenant_quotas \<lparr>rc_task_slots = 2, rc_memory_bytes = None, rc_pids = None\<rparr>
     [(''a'', \<lparr>rc_task_slots = 1, rc_memory_bytes = None, rc_pids = None\<rparr>)]"

theorem dispatch_never_overcommits_witness:
  "within sample_ledger (Some ''a'') (active_reservations (Some ''a'')
     (wd_repo (dp_world (fst (dispatch_once_sync sample_settings sample_ledger (\<lambda>_. good_host) two_tenant_tasks))))) \<and>
   map fst (dp_spawned (fst (dispatch_once_sync sample_settings sample_ledger (\<lambda>_. good_host) two_tenant_tasks))) = [''t1'']"
proof
  have "repo_ok (wd_repo two_tenant_tasks)"
    by (simp add: two_tenant_tasks_def run_history_ok)
  moreover have "limits_proper sample_ledger (Some ''a'')"
    by (simp add: limits_proper_def sample_ledger_def with_tenant_quotas_def quota_of_def proper_capacity_def u64_max_def)
  moreover have "active_reservations (Some ''a'') (wd_repo two_tenant_tasks) = []"
    by code_simp
  then have "within sample_ledger (Some ''a'') (active_reservations (Some ''a'') (wd_repo two_tenant_tasks))"
    by (simp add: within_def sample_ledger_def with_tenant_quotas_def quota_of_def fits_capacity_def)
  ultimately show "within sample_ledger (Some ''a'') (active_reservations (Some ''a'')
     (wd_repo (dp_world (fst (dispatch_once_sync sample_settings sample_ledger (\<lambda>_. good_host) two_tenant_tasks)))))"
    by (rule dispatch_never_overcommits)
  show "map fst (dp_spawned (fst (dispatch_once_sync sample_settings sample_ledger (\<lambda>_. good_host) two_tenant_tasks))) = [''t1'']"
    by code_simp
qed

definition sample_dispatcher :: dispatcher where
  "sample_dispatcher =
     \<lparr>dp_world = \<lparr>wd_repo = run_history [(OpInsert (sample_new ''t1''), sample_clock)], wd_files = no_files\<rparr>,
      dp_reserved = reserved_capacity sample_ledger [], dp_tenants = [], dp_spawned = []\<rparr>"

theorem fitting_task_is_started_witness:
  "snd (dispatch_task sample_settings sample_ledger good_host (fresh_record (sample_new ''t1'') 5) sample_dispatcher) = Inr () \<and>
   map fst (dp_spawned (fst (dispatch_task sample_settings sample_ledger good_host
     (fresh_record (sample_new ''t1'') 5) sample_dispatcher))) = [''t1'']"
proof -
  let ?t = "fresh_record (sample_new ''t1'') 5"
  have get: "get_task (tr_task_id ?t) (dp_repo sample_dispatcher) = Inr ?t" by code_simp
  have facts: "tr_status ?t = Accepted" "\<not> tr_kill_requested ?t" "\<not> has_active_reservation ?t"
    "can_reserve sample_ledger (dp_reserved sample_dispatcher) (unwrap_or (tr_reservation ?t) (from_limits (tr_limits ?t)))"
    "can_reserve_for_tenant sample_ledger (task_tenant ?t)
       (unwrap_or (Option.bind (task_tenant ?t) (map_of (dp_tenants sample_dispatcher)))
         (empty_tenant_capacity sample_ledger (unwrap_or (task_tenant ?t) [])))
       (unwrap_or (tr_reservation ?t) (from_limits (tr_limits ?t)))"
    "dh_exe good_host = Inr ''x''" "dh_spawn good_host = Inr 77" "dp_spawned sample_dispatcher = []"
    "tr_task_id ?t = ''t1''"
    by code_simp+
  show ?thesis
    using fitting_task_is_started [OF get facts(1-3) refl facts(4-7), of sample_settings]
    by (auto simp: facts(8,9) split: prod.splits)
qed

definition killed_dispatcher :: dispatcher where
  "killed_dispatcher = sample_dispatcher
     \<lparr>dp_world := \<lparr>wd_repo = run_history [(OpInsert (sample_new ''t1''), sample_clock), (OpCancelRequested ''t1'', sample_clock)],
        wd_files = no_files\<rparr>\<rparr>"

definition killed_record :: TaskRecord where
  "killed_record = (fresh_record (sample_new ''t1'') 5)
     \<lparr>tr_kill_requested := True, tr_kill_requested_at := Some 5\<rparr>"

theorem killed_task_is_never_started_witness:
  "let d' = fst (dispatch_task sample_settings sample_ledger good_host killed_record killed_dispatcher) in
     dp_spawned d' = [] \<and> (case get_task ''t1'' (dp_repo d') of Inl _ \<Rightarrow> False | Inr task' \<Rightarrow> tr_status task' = Cancelled)"
proof -
  have stored: "get_task (tr_task_id killed_record) (dp_repo killed_dispatcher) = Inr killed_record"
    "tr_status killed_record = Accepted" "tr_kill_requested killed_record" "dp_spawned killed_dispatcher = []"
    "tr_task_id killed_record = ''t1''"
    by code_simp+
  show ?thesis
    using killed_task_is_never_started [OF stored(1-3), of sample_settings sample_ledger good_host] stored(4,5)
    by (simp add: Let_def split: sum.splits)
qed

text \<open>
  A failing \<open>current_exe\<close> strands a task: the cycle has already reserved its resources when it
  gives up, the task stays accepted with an active reservation, and a later cycle in which everything
  works passes it over, so that it holds its reservation without ever being started.
\<close>

theorem exe_error_strands_a_reserved_task:
  "let w = \<lparr>wd_repo = run_history [(OpInsert (sample_new ''t1''), sample_clock)], wd_files = no_files\<rparr>;
       (d1, outcome) = dispatch_once_sync sample_settings sample_ledger (\<lambda>_. sample_dispatch_host (Inl ''e'') (Inr 77)) w;
       (d2, outcome') = dispatch_once_sync sample_settings sample_ledger (\<lambda>_. good_host) (dp_world d1)
   in outcome = Inl (LaunchFailed ''resolve current exe: e'') \<and> outcome' = Inr () \<and>
      dp_spawned d2 = [] \<and> task_status ''t1'' (dp_repo d2) = Some Accepted \<and>
      length (active_reservations None (dp_repo d2)) = 1"
  by code_simp

text \<open>
  After a failed \<open>spawn\<close> the cycle gives the resources back to the runtime but not to the tenant:
  with a quota of one slot, the first task of a tenant fails to start, the tenant holds nothing any
  more, and its second task is still refused in this cycle.
\<close>

theorem spawn_failure_keeps_the_tenant_charged:
  "let hosts = (\<lambda>i. if i = ''t1'' then sample_dispatch_host (Inr ''x'') (Inl ''e'') else good_host);
       (d, outcome) = dispatch_once_sync sample_settings sample_ledger hosts two_tenant_tasks
   in outcome = Inr () \<and> dp_spawned d = [] \<and> active_reservations (Some ''a'') (dp_repo d) = [] \<and>
      task_status ''t1'' (dp_repo d) = Some Failed \<and> task_status ''t2'' (dp_repo d) = Some Accepted"
  by code_simp

end
