(* ===== verification/Workload.thy ===== *)
theory Workload
  imports Status Policy
begin

section \<open>Workload: the process of a task, \<open>src/runtime.rs\<close>\<close>

text \<open>
  How the shim prepares, limits, isolates, waits for and judges the process of a task. The system
  calls of the child before \<open>exec\<close> are a list, in order; each either succeeds or ends the child with
  an error. The answers of the operating system (the environment, the files of the cgroup, what
  \<open>wait4\<close> and \<open>kill\<close> return) are arguments. This is the build for Linux.
\<close>

subsection \<open>Environment and limits\<close>

definition inherited_names :: "string list" where
  "inherited_names = [''PATH'', ''HOME'', ''LANG'', ''TMPDIR'', ''USER'']"

definition minimal_env :: "(string \<Rightarrow> string option) \<Rightarrow> string_map \<Rightarrow> string btree" where
  "minimal_env environ extra =
     (let env = fold (\<lambda>key env. case environ key of Some value \<Rightarrow> bt_insert key value env | None \<Rightarrow> env)
                  inherited_names []
      in fold (\<lambda>(key, value). bt_insert key value) extra env)"

datatype rlimit = RLIMIT_CPU | RLIMIT_AS

datatype clone_flag = CLONE_NEWNS | CLONE_NEWPID | CLONE_NEWUTS | CLONE_NEWIPC | CLONE_NEWNET

datatype syscall =
    Setpgid int int
  | Setrlimit rlimit u64 u64
  | Unshare "clone_flag list"
  | Chroot string
  | Chdir string

text \<open>The calls up to and including the first that fails, and its error.\<close>

fun run_calls :: "(syscall \<Rightarrow> string option) \<Rightarrow> syscall list \<Rightarrow> syscall list \<times> string option" where
  "run_calls fails [] = ([], None)"
| "run_calls fails (c # cs) =
     (case fails c of
        Some e \<Rightarrow> ([c], Some e)
      | None \<Rightarrow> (case run_calls fails cs of (done_calls, r) \<Rightarrow> (c # done_calls, r)))"

definition set_limit :: "rlimit \<Rightarrow> u64 option \<Rightarrow> syscall list" where
  "set_limit resource v = (case v of Some n \<Rightarrow> [Setrlimit resource n n] | None \<Rightarrow> [])"

definition apply_resource_enforcement :: "ResourceEnforcementPlan \<Rightarrow> syscall list" where
  "apply_resource_enforcement e =
     (if ep_cpu_time_enforced e then set_limit RLIMIT_CPU (ep_cpu_time_sec e) else []) @
     (if ep_memory_enforced e then set_limit RLIMIT_AS (ep_memory_bytes e) else [])"

definition apply_rlimits :: "ResourceLimits \<Rightarrow> syscall list" where
  "apply_rlimits limits =
     set_limit RLIMIT_CPU (rl_cpu_time_sec limits) @ set_limit RLIMIT_AS (rl_memory_bytes limits)"

definition clone_flags :: "NamespaceConfig \<Rightarrow> clone_flag list" where
  "clone_flags ns =
     (if ns_mount ns then [CLONE_NEWNS] else []) @ (if ns_pid ns then [CLONE_NEWPID] else []) @
     (if ns_uts ns then [CLONE_NEWUTS] else []) @ (if ns_ipc ns then [CLONE_NEWIPC] else []) @
     (if ns_net ns then [CLONE_NEWNET] else [])"

definition apply_linux_sandbox :: "SandboxPolicy \<Rightarrow> string option \<Rightarrow> syscall list" where
  "apply_linux_sandbox sandbox rootfs =
     (if sb_profile sandbox = LinuxSandbox
      then
        (let flags = clone_flags (effective_namespaces sandbox)
         in (if flags \<noteq> [] then [Unshare flags] else []) @
            (if sb_chroot sandbox
             then (case rootfs of Some root \<Rightarrow> [Chroot root, Chdir ''/''] | None \<Rightarrow> [])
             else []))
      else [])"

text \<open>The closure given to \<open>pre_exec\<close>.\<close>

definition pre_exec :: "ExecutionPlan \<Rightarrow> syscall list" where
  "pre_exec plan =
     (let sandbox = pl_effective_sandbox plan
      in Setpgid 0 0 # apply_resource_enforcement (pl_resource_enforcement plan) @
         apply_linux_sandbox sandbox (sb_rootfs sandbox))"

text \<open>The files a task writes below its cgroup, in order.\<close>

definition setup_cgroup ::
    "faults \<Rightarrow> string \<Rightarrow> string \<Rightarrow> int \<Rightarrow> ResourceEnforcementPlan \<Rightarrow>
     (string \<times> string) list \<times> string app_result" where
  "setup_cgroup faults cgroup_root task_id pid e =
     (let dir = path_join cgroup_root task_id;
          write = (\<lambda>name text ws. case faults (path_join dir name) of
                     Some err \<Rightarrow> (ws, Inl (Io err))
                   | None \<Rightarrow> (ws @ [(path_join dir name, text)], Inr ()))
      in case faults dir of
           Some err \<Rightarrow> ([], Inl (Io err))
         | None \<Rightarrow>
             and_then (case (ep_memory_enforced e, ep_memory_bytes e) of
                         (True, Some n) \<Rightarrow> write ''memory.max'' (show_u64 n) []
                       | _ \<Rightarrow> ([], Inr ())) (\<lambda>ws _.
             and_then (case (ep_pids_enforced e, ep_pids_max e) of
                         (True, Some n) \<Rightarrow> write ''pids.max'' (show_u64 n) ws
                       | _ \<Rightarrow> (ws, Inr ())) (\<lambda>ws _.
             and_then (write ''cgroup.procs'' (show_int pid) ws) (\<lambda>ws _.
             (ws, Inr dir)))))"

subsection \<open>Signals\<close>

datatype signal = SIGTERM | SIGKILL

datatype signal_target = ProcessGroup int | SingleProcess int

text \<open>\<open>pid as i32\<close>.\<close>

definition pid_as_i32 :: "u32 \<Rightarrow> int" where
  "pid_as_i32 pid = sint pid"

definition process_exists :: "(int \<Rightarrow> bool) \<Rightarrow> int \<Rightarrow> bool" where
  "process_exists alive pid = (if pid \<le> 0 then False else alive pid)"

text \<open>The signals that were sent, and the error if the last could not be.\<close>

definition signal_task_termination ::
    "(signal_target \<Rightarrow> string option) \<Rightarrow> TaskRecord \<Rightarrow> signal \<Rightarrow>
     (signal_target \<times> signal) list \<times> unit app_result" where
  "signal_task_termination fails task sig =
     (case tr_pgid task of
        Some pgid \<Rightarrow>
          (case fails (ProcessGroup pgid) of
             Some err \<Rightarrow> ([], Inl (Internal (''signal process group: '' @ err)))
           | None \<Rightarrow> ([(ProcessGroup pgid, sig)], Inr ()))
      | None \<Rightarrow>
          (case tr_pid task of
             Some pid \<Rightarrow>
               (case fails (SingleProcess (pid_as_i32 pid)) of
                  Some err \<Rightarrow> ([], Inl (Internal (''signal process: '' @ err)))
                | None \<Rightarrow> ([(SingleProcess (pid_as_i32 pid), sig)], Inr ()))
           | None \<Rightarrow> ([], Inr ())))"

subsection \<open>Waiting\<close>

text \<open>
  What one call of \<open>wait4\<close> answers: it was interrupted, it failed, it returned no child, or it reaped
  the child with a status word (given by what \<open>WIFEXITED\<close> and \<open>WIFSIGNALED\<close> say of it) and its usage.
\<close>

datatype wait_status = Exited int | Signaled int | OtherStatus

record timeval =
  tv_sec :: int
  tv_usec :: int

record rusage =
  ru_utime :: timeval
  ru_stime :: timeval
  ru_maxrss :: int

datatype wait4_answer =
    Interrupted
  | WaitFailed string
  | NoChild
  | Reaped wait_status rusage

record WaitUsage =
  wu_exit_code :: "int option"
  wu_exit_signal :: "int option"
  wu_user_cpu_ms :: "u64 option"
  wu_system_cpu_ms :: "u64 option"
  wu_max_rss_bytes :: "u64 option"

definition timeval_to_ms :: "timeval \<Rightarrow> u64" where
  "timeval_to_ms tv = sat_add (sat_mul (i64_to_u64 (tv_sec tv)) 1000) (i64_to_u64 (tv_usec tv) div 1000)"

definition convert_max_rss :: "int \<Rightarrow> u64" where
  "convert_max_rss value = sat_mul (i64_to_u64 value) 1024"

text \<open>The loop over the answers of \<open>wait4\<close>; \<open>None\<close> while it still waits.\<close>

fun wait_for_pid :: "wait4_answer list \<Rightarrow> WaitUsage app_result option" where
  "wait_for_pid [] = None"
| "wait_for_pid (Interrupted # answers) = wait_for_pid answers"
| "wait_for_pid (WaitFailed err # answers) = Some (Inl (Io err))"
| "wait_for_pid (NoChild # answers) = Some (Inl (Internal ''wait4 returned no child''))"
| "wait_for_pid (Reaped status usage # answers) =
     Some (Inr \<lparr>wu_exit_code = (case status of Exited code \<Rightarrow> Some code | _ \<Rightarrow> None),
                wu_exit_signal = (case status of Signaled sig \<Rightarrow> Some sig | _ \<Rightarrow> None),
                wu_user_cpu_ms = Some (timeval_to_ms (ru_utime usage)),
                wu_system_cpu_ms = Some (timeval_to_ms (ru_stime usage)),
                wu_max_rss_bytes = Some (convert_max_rss (ru_maxrss usage))\<rparr>)"

subsection \<open>Cgroup readings\<close>

text \<open>\<open>str::lines\<close> and \<open>str::split_whitespace\<close>.\<close>

definition strip_cr :: "string \<Rightarrow> string" where
  "strip_cr l = (if l \<noteq> [] \<and> last l = CHR 0x0D then butlast l else l)"

definition lines :: "string \<Rightarrow> string list" where
  "lines s =
     (let ps = split_on CHR 0x0A s
      in map strip_cr (butlast ps) @ (if last ps = [] then [] else [last ps]))"

definition split_whitespace :: "string \<Rightarrow> string list" where
  "split_whitespace s =
     filter (\<lambda>p. p \<noteq> []) (split_on CHR '' '' (map (\<lambda>c. if is_whitespace c then CHR '' '' else c) s))"

text \<open>\<open>fs::read_to_string\<close>: the readable files.\<close>

type_synonym readable = "string \<Rightarrow> string option"

definition read_memory_peak_bytes :: "readable \<Rightarrow> string option \<Rightarrow> u64 option" where
  "read_memory_peak_bytes read cgroup_dir =
     Option.bind cgroup_dir (\<lambda>dir. Option.bind (read (path_join dir ''memory.peak'')) (\<lambda>value.
     parse_u64 (trim value)))"

definition oom_line :: "string \<Rightarrow> bool" where
  "oom_line line =
     (case split_whitespace line of
        [] \<Rightarrow> False
      | key # rest \<Rightarrow>
          key = ''oom_kill'' \<and>
          0 < unwrap_or (case rest of [] \<Rightarrow> None | value # _ \<Rightarrow> parse_u64 value) 0)"

definition oom_killed :: "readable \<Rightarrow> string option \<Rightarrow> bool" where
  "oom_killed read cgroup_dir =
     is_some_and cgroup_dir (\<lambda>dir. is_some_and (read (path_join dir ''memory.events'')) (\<lambda>contents.
     list_ex oom_line (lines contents)))"

subsection \<open>Classification\<close>

definition sigxcpu :: int where
  "sigxcpu = 24"

definition plain_error :: "ErrorCode \<Rightarrow> string \<Rightarrow> RuntimeErrorInfo option" where
  "plain_error code message = Some (RuntimeErrorInfo code message None)"

definition completion_outcome ::
    "WaitUsage \<Rightarrow> bool \<Rightarrow> bool \<Rightarrow> bool \<Rightarrow> TaskStatus \<times> RuntimeErrorInfo option" where
  "completion_outcome usage timed_out cancelled oom =
     (if timed_out then (Failed, plain_error EcTimeout ''task exceeded wall_time_ms'')
      else if cancelled then (Cancelled, plain_error EcCancelled ''task cancelled'')
      else if oom then (Failed, plain_error EcMemoryLimitExceeded ''task exceeded memory limit'')
      else if wu_exit_signal usage = Some sigxcpu
      then (Failed, plain_error EcCpuLimitExceeded ''task exceeded cpu_time_sec'')
      else if wu_exit_code usage = Some 0 then (Success, None)
      else (case wu_exit_code usage of
              Some code \<Rightarrow> (Failed, plain_error EcExitNonZero (''task exited with code '' @ show_int code))
            | None \<Rightarrow>
                (case wu_exit_signal usage of
                   Some sig \<Rightarrow> (Failed, plain_error EcInternal (''task terminated by signal '' @ show_int sig))
                 | None \<Rightarrow> (Failed, plain_error EcInternal ''task failed with unknown outcome''))))"

definition classify_completion ::
    "readable \<Rightarrow> int \<Rightarrow> WaitUsage \<Rightarrow> u64 \<Rightarrow> bool \<Rightarrow> bool \<Rightarrow> string option \<Rightarrow> CompletionUpdate" where
  "classify_completion read now usage duration_ms timed_out cancelled cgroup_dir =
     (case completion_outcome usage timed_out cancelled (oom_killed read cgroup_dir) of
        (status, error) \<Rightarrow>
          \<lparr>cu_status = status, cu_finished_at = now, cu_duration_ms = Some duration_ms,
           cu_exit_code = wu_exit_code usage, cu_exit_signal = wu_exit_signal usage, cu_error = error,
           cu_usage = Some \<lparr>us_duration_ms = duration_ms, us_user_cpu_ms = wu_user_cpu_ms usage,
             us_system_cpu_ms = wu_system_cpu_ms usage, us_max_rss_bytes = wu_max_rss_bytes usage,
             us_memory_peak_bytes = read_memory_peak_bytes read cgroup_dir\<rparr>,
           cu_result_json = None\<rparr>)"

subsection \<open>Properties of the environment and of the isolation\<close>

lemma map_of_inherited:
  "map_of (fold (\<lambda>key env. case environ key of Some value \<Rightarrow> bt_insert key value env | None \<Rightarrow> env) ks m) k =
     (if k \<in> set ks then option_or (environ k) (map_of m k) else map_of m k)"
  by (induction ks arbitrary: m) (auto simp: map_of_bt_insert option_or_def split: option.split)

lemma bt_invar_inherited:
  "bt_invar m \<Longrightarrow>
   bt_invar (fold (\<lambda>key env. case environ key of Some value \<Rightarrow> bt_insert key value env | None \<Rightarrow> env) ks m)"
  by (induction ks arbitrary: m) (auto intro: bt_invar_insert split: option.split)

lemma minimal_env_get:
  "map_of (minimal_env environ extra) key =
     option_or (map_of (rev extra) key) (if key \<in> set inherited_names then environ key else None)"
  "bt_invar (minimal_env environ extra)"
  unfolding minimal_env_def Let_def
  by (auto simp: fold_bt_insert map_of_inherited map_add_def option_or_def split: option.split
      intro!: fold_bt_insert_invar bt_invar_inherited bt_invar_Nil)

text \<open>What a system call needs of the runtime.\<close>

definition flag_supported :: "NamespaceCapabilities \<Rightarrow> clone_flag \<Rightarrow> bool" where
  "flag_supported cap flag =
     (case flag of CLONE_NEWNS \<Rightarrow> nc_mount cap | CLONE_NEWPID \<Rightarrow> nc_pid cap | CLONE_NEWUTS \<Rightarrow> nc_uts cap
      | CLONE_NEWIPC \<Rightarrow> nc_ipc cap | CLONE_NEWNET \<Rightarrow> nc_net cap)"

definition call_supported :: "RuntimeCapabilities \<Rightarrow> syscall \<Rightarrow> bool" where
  "call_supported caps call =
     (case call of
        Setpgid _ _ \<Rightarrow> True
      | Setrlimit RLIMIT_CPU _ _ \<Rightarrow> rs_rlimit_cpu (cp_resources caps)
      | Setrlimit RLIMIT_AS _ _ \<Rightarrow> rs_rlimit_memory (cp_resources caps)
      | Unshare flags \<Rightarrow>
          sc_linux_sandbox (cp_sandbox caps) \<and>
          list_all (flag_supported (sc_namespaces (cp_sandbox caps))) flags
      | Chroot _ \<Rightarrow> sc_chroot (cp_sandbox caps)
      | Chdir _ \<Rightarrow> True)"

lemma clone_flags_supported:
  "namespaces_supported cap ns \<Longrightarrow> list_all (flag_supported cap) (clone_flags ns)"
  by (simp add: namespaces_supported_def clone_flags_def flag_supported_def)

lemma set_limit_supported [simp]:
  "list_all (call_supported caps) (set_limit r n) = (n = None \<or> call_supported caps (Setrlimit r 0 0))"
proof (cases n)
  case None
  then show ?thesis by (simp add: set_limit_def)
next
  case (Some v)
  then show ?thesis by (cases r) (simp_all add: set_limit_def call_supported_def)
qed

lemma Chroot_in_set_limit [simp]: "Chroot root \<notin> set (set_limit r n)"
  by (simp add: set_limit_def split: option.split)

lemma Chroot_in_enforcement: "Chroot root \<notin> set (apply_resource_enforcement e)"
  by (simp add: apply_resource_enforcement_def)

lemma sandbox_calls_end:
  "Chroot root \<in> set (apply_linux_sandbox sandbox r) \<Longrightarrow>
   \<exists>pre. apply_linux_sandbox sandbox r = pre @ [Chroot root, Chdir ''/'']"
proof -
  assume a: "Chroot root \<in> set (apply_linux_sandbox sandbox r)"
  let ?flags = "clone_flags (effective_namespaces sandbox)"
  have linux: "sb_profile sandbox = LinuxSandbox"
    using a by (cases "sb_profile sandbox") (simp_all add: apply_linux_sandbox_def)
  have chroot: "sb_chroot sandbox"
  proof (rule ccontr)
    assume "\<not> sb_chroot sandbox"
    then have "apply_linux_sandbox sandbox r = (if ?flags \<noteq> [] then [Unshare ?flags] else [])"
      by (simp add: apply_linux_sandbox_def linux)
    with a show False by (cases "?flags = []") simp_all
  qed
  obtain x where r: "r = Some x"
    using a by (cases r; cases "?flags = []") (auto simp: apply_linux_sandbox_def linux chroot)
  have calls: "apply_linux_sandbox sandbox r =
      (if ?flags \<noteq> [] then [Unshare ?flags] else []) @ [Chroot x, Chdir ''/'']"
    by (simp add: apply_linux_sandbox_def linux chroot r)
  then have "x = root" using a by (cases "?flags = []") simp_all
  with calls show ?thesis by blast
qed

lemma resolved_calls_supported:
  assumes "resolve_execution_plan request caps mode = Inr plan"
  shows "list_all (call_supported caps) (pre_exec plan)"
proof -
  let ?e = "pl_resource_enforcement plan" and ?sb = "pl_effective_sandbox plan"
  note sb = resolved_sandbox_supported [OF assms] and e = resolved_enforcement [OF assms]
  have limits: "list_all (call_supported caps) (apply_resource_enforcement ?e)"
    using e(1,2) by (auto simp: apply_resource_enforcement_def) (simp_all add: call_supported_def)
  have isolation: "list_all (call_supported caps) (apply_linux_sandbox ?sb r)" for r
    using sb by (auto simp: apply_linux_sandbox_def Let_def sandbox_supported_def call_supported_def
        clone_flags_supported split: option.split)
  show ?thesis
    using limits isolation by (simp add: pre_exec_def Let_def) (simp add: call_supported_def)
qed

text \<open>
  C31: A task runs under what was negotiated: every system call the child makes before \<open>exec\<close> under a
  resolved plan is one the runtime supports, the first makes it the leader of its own process group,
  and when it changes its root it does so last, and changes into the new root directly after.
\<close>

theorem isolation_is_supported:
  assumes "resolve_execution_plan request caps mode = Inr plan"
  shows "list_all (call_supported caps) (pre_exec plan) \<and> hd (pre_exec plan) = Setpgid 0 0 \<and>
    (Chroot root \<in> set (pre_exec plan)) = (\<exists>pre. pre_exec plan = pre @ [Chroot root, Chdir ''/''])"
proof (intro conjI)
  let ?e = "pl_resource_enforcement plan" and ?sb = "pl_effective_sandbox plan"
  show "list_all (call_supported caps) (pre_exec plan)" by (rule resolved_calls_supported [OF assms])
  show "hd (pre_exec plan) = Setpgid 0 0" by (simp add: pre_exec_def Let_def)
  have "\<exists>pre. pre_exec plan = pre @ [Chroot root, Chdir ''/'']" if chroot: "Chroot root \<in> set (pre_exec plan)"
  proof -
    have "Chroot root \<in> set (apply_linux_sandbox ?sb (sb_rootfs ?sb))"
      using chroot by (simp add: pre_exec_def Let_def Chroot_in_enforcement)
    then obtain pre where "apply_linux_sandbox ?sb (sb_rootfs ?sb) = pre @ [Chroot root, Chdir ''/'']"
      using sandbox_calls_end by blast
    then have "pre_exec plan = (Setpgid 0 0 # apply_resource_enforcement ?e @ pre) @ [Chroot root, Chdir ''/'']"
      by (simp add: pre_exec_def Let_def)
    then show ?thesis by blast
  qed
  then show "(Chroot root \<in> set (pre_exec plan)) = (\<exists>pre. pre_exec plan = pre @ [Chroot root, Chdir ''/''])"
    by auto
qed

theorem isolation_is_supported_witness:
  "list_all (call_supported (sample_capabilities True)) (pre_exec sample_plan) \<and>
   Unshare [CLONE_NEWNS, CLONE_NEWPID, CLONE_NEWUTS, CLONE_NEWIPC] \<in> set (pre_exec sample_plan)"
proof
  show "list_all (call_supported (sample_capabilities True)) (pre_exec sample_plan)"
    using isolation_is_supported [OF sample_resolves] by simp
  show "Unshare [CLONE_NEWNS, CLONE_NEWPID, CLONE_NEWUTS, CLONE_NEWIPC] \<in> set (pre_exec sample_plan)"
    by code_simp
qed

text \<open>A task stored before plans existed is limited exactly as the direct helper limits it.\<close>

lemma legacy_enforcement:
  "apply_resource_enforcement (pl_resource_enforcement (legacy_plan sandbox limits)) = apply_rlimits limits"
  by (simp add: apply_resource_enforcement_def apply_rlimits_def legacy_plan_def Let_def set_limit_def)

subsection \<open>Properties of the outcome\<close>

lemma error_code_plain [simp]: "map_option er_code (plain_error code msg) = Some code"
  by (simp add: plain_error_def)

lemma plain_error_eq [simp]:
  "(plain_error code msg = Some e) = (e = RuntimeErrorInfo code msg None)" "plain_error code msg \<noteq> None"
  "\<exists>e. plain_error code msg = Some e"
  by (auto simp: plain_error_def)


end
