(* ===== verification/Metrics.thy ===== *)
theory Metrics
  imports Repo_Queries
begin

section \<open>Metrics: the Prometheus text of \<open>src/metrics.rs\<close>\<close>

text \<open>
  The rendering of a metrics snapshot. The text is built line by line in the order of the code;
  \<open>partition_point\<close> on a slice that is partitioned counts its first part.
\<close>

definition buckets_ms :: "u64 list" where
  "buckets_ms = [100, 250, 500, 1000, 5000, 10000, 30000, 60000, 300000]"

definition newline :: string where
  "newline = [CHR 0x0A]"

definition dquoted :: "string \<Rightarrow> string" where
  "dquoted s = CHR 0x22 # s @ [CHR 0x22]"

definition status_line :: "string \<times> nat \<Rightarrow> string" where
  "status_line = (\<lambda>(status, n).
     ''execgo_runtime_tasks_total{status='' @ dquoted status @ ''} '' @ show_nat n @ newline)"

definition error_line :: "string \<times> nat \<Rightarrow> string" where
  "error_line = (\<lambda>(code, n).
     ''execgo_runtime_task_errors_total{code='' @ dquoted code @ ''} '' @ show_nat n @ newline)"

definition bucket_line :: "string \<Rightarrow> nat \<Rightarrow> string" where
  "bucket_line le n =
     ''execgo_runtime_task_duration_ms_bucket{le='' @ dquoted le @ ''} '' @ show_nat n @ newline"

text \<open>\<open>[T]::partition_point\<close> on a slice that is partitioned by the predicate.\<close>

definition partition_point :: "('a \<Rightarrow> bool) \<Rightarrow> 'a list \<Rightarrow> nat" where
  "partition_point p xs = length (takeWhile p xs)"

definition render_durations :: "u64 list \<Rightarrow> string" where
  "render_durations durations =
     (let sorted = sort durations; sum = fold (\<lambda>d acc. sat_add acc d) sorted 0
      in concat (map (\<lambda>bucket. bucket_line (show_u64 bucket) (partition_point (\<lambda>d. d \<le> bucket) sorted)) buckets_ms) @
         bucket_line ''+Inf'' (length sorted) @
         ''execgo_runtime_task_duration_ms_sum '' @ show_u64 sum @ newline @
         ''execgo_runtime_task_duration_ms_count '' @ show_nat (length sorted) @ newline)"

definition render_prometheus :: "MetricsSnapshot \<Rightarrow> string" where
  "render_prometheus snapshot =
     ''# HELP execgo_runtime_tasks_total Total tasks by terminal and in-flight status'' @ newline @
     ''# TYPE execgo_runtime_tasks_total counter'' @ newline @
     concat (map status_line (ms_by_status snapshot)) @
     ''# HELP execgo_runtime_tasks_running Tasks currently running'' @ newline @
     ''# TYPE execgo_runtime_tasks_running gauge'' @ newline @
     ''execgo_runtime_tasks_running '' @
       show_nat (unwrap_or (map_of (ms_by_status snapshot) ''running'') 0) @ newline @
     ''# HELP execgo_runtime_task_errors_total Total tasks by error code'' @ newline @
     ''# TYPE execgo_runtime_task_errors_total counter'' @ newline @
     concat (map error_line (ms_by_error_code snapshot)) @
     ''# HELP execgo_runtime_task_duration_ms Task duration histogram in milliseconds'' @ newline @
     ''# TYPE execgo_runtime_task_duration_ms histogram'' @ newline @
     render_durations (ms_finished_durations_ms snapshot)"

subsection \<open>Lemmas\<close>

lemma partition_point_sorted:
  "sorted xs \<Longrightarrow> partition_point (\<lambda>d. d \<le> b) xs = length (filter (\<lambda>d. d \<le> b) xs)"
  for b :: "'a::linorder"
proof (induction xs)
  case Nil
  show ?case by (simp add: partition_point_def)
next
  case (Cons x xs)
  then show ?case
    by (cases "x \<le> b") (auto simp: partition_point_def filter_empty_conv)
qed

lemma length_filter_sort: "length (filter p (sort xs)) = length (filter p xs)"
  by (metis mset_filter mset_sort size_mset)

lemma fold_sat_add: "unat (fold (\<lambda>d acc. sat_add acc d) ds acc) = min (unat acc + sum_list (map unat ds)) u64_max"
  by (induction ds arbitrary: acc) (auto simp: sat_simps min_def)

lemma sum_list_sort: "sum_list (map f (sort xs)) = sum_list (map f xs)" for f :: "'a::linorder \<Rightarrow> nat"
  by (metis mset_map mset_sort sum_mset_sum_list)

lemma show_sum: "show_u64 (fold (\<lambda>d acc. sat_add acc d) (sort ds) 0) = show_nat (min (sum_list (map unat ds)) u64_max)"
  by (simp add: show_u64_def fold_sat_add sum_list_sort)

lemma length_filter_mono: "(\<And>x. p x \<Longrightarrow> q x) \<Longrightarrow> length (filter p xs) \<le> length (filter q xs)"
  by (induction xs) (auto simp: le_SucI)

text \<open>
  C34: The duration histogram is exact and cumulative: each bucket shows how many finished tasks took
  at most that many milliseconds, in whatever order the database returned them, the counts never fall
  from bucket to bucket and end at the count of all, and the sum is the true sum, held at the largest
  64-bit value.
\<close>

theorem histogram_is_exact:
  "render_durations ds =
     concat (map (\<lambda>b. bucket_line (show_u64 b) (length (filter (\<lambda>d. d \<le> b) ds))) buckets_ms) @
     bucket_line ''+Inf'' (length ds) @
     ''execgo_runtime_task_duration_ms_sum '' @ show_nat (min (sum_list (map unat ds)) u64_max) @ newline @
     ''execgo_runtime_task_duration_ms_count '' @ show_nat (length ds) @ newline \<and>
   sorted (map (\<lambda>b. length (filter (\<lambda>d. d \<le> b) ds)) buckets_ms @ [length ds])"
proof
  have buckets: "sorted buckets_ms" by (simp add: buckets_ms_def)
  have "sorted (map (\<lambda>b. length (filter (\<lambda>d. d \<le> b) ds)) bs @ [length ds])" if "sorted bs" for bs :: "u64 list"
    using that by (induction bs) (auto intro!: length_filter_mono intro: order_trans)
  from this [OF buckets] show "sorted (map (\<lambda>b. length (filter (\<lambda>d. d \<le> b) ds)) buckets_ms @ [length ds])" .
qed (simp add: render_durations_def Let_def partition_point_sorted length_filter_sort show_sum)

end
