(* ===== verification/Service.thy ===== *)
theory Service
  imports Dispatch_Outcome Workload Metrics
begin

section \<open>Service: the operations of \<open>RuntimeService\<close>, \<open>src/runtime.rs\<close>\<close>

text \<open>
  Submission, cancellation, the views, recovery at start-up and garbage collection. The state is the
  world, the signals that were sent, the escalations that wait for their grace period and the
  notification of the dispatcher. What the operating system and the clock answer is given with each
  call; the generated identifier of a task is an argument.
\<close>

record service =
  sx_world :: world
  sx_signals :: "(signal_target \<times> signal) list"
  sx_escalations :: "(string \<times> int option) list"
  sx_notified :: bool

definition in_service :: "(world \<Rightarrow> world \<times> 'a app_result) \<Rightarrow> service \<Rightarrow> service \<times> 'a app_result" where
  "in_service f sx = (case f (sx_world sx) of (w, r) \<Rightarrow> (sx\<lparr>sx_world := w\<rparr>, r))"

definition notify_dispatcher :: "service \<Rightarrow> service" where
  "notify_dispatcher sx = sx\<lparr>sx_notified := True\<rparr>"

subsection \<open>Submission\<close>

text \<open>The arms of the match are tried in order.\<close>

definition infer_script_name :: "string option \<Rightarrow> string" where
  "infer_script_name interp =
     (let value = unwrap_or interp []
      in if contains_str ''python'' value then ''script.py''
         else if contains_str ''bash'' value then ''script.sh''
         else if contains_str ''zsh'' value then ''script.zsh''
         else if contains_str ''node'' value then ''script.js''
         else ''script.sh'')"

record submit_host =
  sb_generated_id :: string
  sb_faults :: faults
  sb_insert_clock :: clock

text \<open>The checks before anything is stored; they end with the execution plan.\<close>

definition check_submission ::
    "Settings \<Rightarrow> ResourceLedger \<Rightarrow> RuntimeCapabilities \<Rightarrow> SubmitTaskRequest \<Rightarrow> ExecutionPlan app_result" where
  "check_submission settings l caps request =
     res_bind (validate_request request) (\<lambda>_.
     res_bind (resolve_execution_plan request caps (se_default_capability_mode settings)) (\<lambda>plan.
     let requested = from_limits (rq_limits request)
     in res_bind (ensure_within_capacity l requested) (\<lambda>_.
        res_bind (ensure_within_tenant_quota l (Option.bind (rq_control_context request) cc_tenant) requested) (\<lambda>_.
        Inr plan))))"

text \<open>The record to be stored, with the paths of the task.\<close>

definition new_task_record ::
    "Settings \<Rightarrow> string \<Rightarrow> SubmitTaskRequest \<Rightarrow> ExecutionPlan \<Rightarrow> string \<Rightarrow> NewTaskRecord" where
  "new_task_record settings task_id request plan workspace_dir =
     (let task_dir = path_join (se_tasks_dir settings) task_id
      in \<lparr>nt_task_id = task_id, nt_request = request, nt_task_dir = task_dir,
          nt_workspace_dir = workspace_dir,
          nt_request_path = path_join task_dir ''request.json'',
          nt_result_path = path_join task_dir ''result.json'',
          nt_stdout_path = path_join task_dir ''stdout.log'',
          nt_stderr_path = path_join task_dir ''stderr.log'',
          nt_script_path =
            (if es_kind (rq_execution request) = Script
             then Some (path_join task_dir (infer_script_name
                    (Option.bind (es_interpreter (rq_execution request))
                       (\<lambda>items. case items of [] \<Rightarrow> None | i # _ \<Rightarrow> Some i))))
             else None),
          nt_execution_plan = plan, nt_control_context = rq_control_context request\<rparr>)"

text \<open>The directories and files of a new task, in the order of the code.\<close>

definition prepare_task_files :: "faults \<Rightarrow> NewTaskRecord \<Rightarrow> files \<Rightarrow> files \<times> unit app_result" where
  "prepare_task_files faults n fs =
     and_then (create_dir_all faults (nt_workspace_dir n) fs) (\<lambda>fs _.
     and_then (create_dir_all faults (nt_task_dir n) fs) (\<lambda>fs _.
     and_then (write_request_file faults (nt_request_path n) (nt_request n) fs) (\<lambda>fs _.
     and_then (touch_file faults (nt_stdout_path n) fs) (\<lambda>fs _.
     touch_file faults (nt_stderr_path n) fs))))"

definition submit_task ::
    "Settings \<Rightarrow> ResourceLedger \<Rightarrow> RuntimeCapabilities \<Rightarrow> submit_host \<Rightarrow> SubmitTaskRequest \<Rightarrow> service \<Rightarrow>
     service \<times> SubmitTaskResponse app_result" where
  "submit_task settings l caps host request sx =
     (case check_submission settings l caps request of
        Inl e \<Rightarrow> (sx, Inl e)
      | Inr plan \<Rightarrow>
          if unat (se_max_queued_tasks settings) \<le> count_accepted (wd_repo (sx_world sx))
          then (sx, Inl QueueFull)
          else
            (let task_id = unwrap_or (rq_task_id request) (sb_generated_id host)
             in case resolve_workspace_dir (path_join (se_tasks_dir settings) task_id) (rq_sandbox request) of
                  Inl e \<Rightarrow> (sx, Inl e)
                | Inr workspace_dir \<Rightarrow>
                    (let n = new_task_record settings task_id request plan workspace_dir
                     in and_then (in_service (on_files (prepare_task_files (sb_faults host) n)) sx) (\<lambda>sx _.
                        and_then (in_service (on_repo (insert_task n (sb_insert_clock host))) sx) (\<lambda>sx _.
                        (notify_dispatcher sx,
                         Inr \<lparr>sr_task_id = task_id, sr_handle_id = task_id, sr_status = Accepted\<rparr>))))))"

subsection \<open>Cancellation\<close>

record kill_host =
  kh_faults :: faults
  kh_signal_fails :: "signal_target \<Rightarrow> string option"
  kh_request_clock :: clock
  kh_cancel_clock :: clock
  kh_now :: int

definition caller_is_owner :: "TaskRecord \<Rightarrow> string option \<Rightarrow> unit app_result" where
  "caller_is_owner task caller =
     (case Option.bind (tr_control_context task) cc_owner of
        None \<Rightarrow> Inr ()
      | Some task_owner \<Rightarrow>
          if caller = Some task_owner then Inr ()
          else Inl (PermissionDenied (''kill requires owner '' @ quoted task_owner)))"

definition signal_task :: "kill_host \<Rightarrow> TaskRecord \<Rightarrow> service \<Rightarrow> service \<times> unit app_result" where
  "signal_task host task sx =
     (case signal_task_termination (kh_signal_fails host) task SIGTERM of
        (sent, r) \<Rightarrow> (sx\<lparr>sx_signals := sx_signals sx @ sent\<rparr>, r))"

definition stop_task :: "kill_host \<Rightarrow> string \<Rightarrow> TaskRecord \<Rightarrow> service \<Rightarrow> service \<times> unit app_result" where
  "stop_task host i updated sx =
     (if tr_status updated = Accepted
      then in_service (on_repo (cancel_accepted_task i killed_before_execution (kh_cancel_clock host))) sx
      else and_then (signal_task host updated sx) (\<lambda>sx _.
           (sx\<lparr>sx_escalations := sx_escalations sx @ [(i, tr_pgid updated)]\<rparr>, Inr ())))"

definition kill_task ::
    "kill_host \<Rightarrow> string \<Rightarrow> string option \<Rightarrow> service \<Rightarrow> service \<times> TaskStatusResponse app_result" where
  "kill_task host i caller sx =
     (case get_task i (wd_repo (sx_world sx)) of
        Inl e \<Rightarrow> (sx, Inl e)
      | Inr task \<Rightarrow>
          (case caller_is_owner task caller of
             Inl e \<Rightarrow> (sx, Inl e)
           | Inr _ \<Rightarrow>
               if is_terminal (tr_status task)
               then (sx, build_status_response (kh_faults host) (kh_now host) (wd_files (sx_world sx)) task)
               else
                 and_then (in_service (on_repo (set_cancel_requested i (kh_request_clock host))) sx) (\<lambda>sx updated.
                 and_then (stop_task host i updated sx) (\<lambda>sx _.
                 let sx = notify_dispatcher sx
                 in (sx, get_task_status (kh_faults host) (kh_now host) i (sx_world sx))))))"

text \<open>An escalation, after its grace period; the results of \<open>killpg\<close> and \<open>kill\<close> are ignored.\<close>

definition spawn_escalation :: "string \<times> int option \<Rightarrow> service \<Rightarrow> service" where
  "spawn_escalation escalation sx =
     (case escalation of
        (i, pgid) \<Rightarrow>
          (case get_task i (wd_repo (sx_world sx)) of
             Inl _ \<Rightarrow> sx
           | Inr task \<Rightarrow>
               if tr_status task = Running
               then
                 (case option_or pgid (tr_pgid task) of
                    Some pgid \<Rightarrow> sx\<lparr>sx_signals := sx_signals sx @ [(ProcessGroup pgid, SIGKILL)]\<rparr>
                  | None \<Rightarrow>
                      (case tr_pid task of
                         Some pid \<Rightarrow> sx\<lparr>sx_signals := sx_signals sx @ [(SingleProcess (pid_as_i32 pid), SIGKILL)]\<rparr>
                       | None \<Rightarrow> sx))
               else sx))"

text \<open>The filter on the header \<open>x-execgo-owner\<close> in \<open>src/server.rs\<close>, \<open>None\<close> when it is not text.\<close>

definition caller_owner :: "string option \<Rightarrow> string option" where
  "caller_owner header =
     (case header of
        None \<Rightarrow> None
      | Some v \<Rightarrow> if trim v = [] then None else Some (trim v))"

subsection \<open>Views\<close>

definition active_view :: "TaskRecord \<Rightarrow> ActiveTaskReservation option" where
  "active_view task =
     map_option (\<lambda>reservation.
       \<lparr>ar_task_id = tr_task_id task, ar_status = tr_status task, ar_reservation = reservation,
        ar_reserved_at = tr_reserved_at task\<rparr>) (tr_reservation task)"

definition no_usage :: ResourceCapacity where
  "no_usage = \<lparr>rc_task_slots = 0, rc_memory_bytes = None, rc_pids = None\<rparr>"

text \<open>The aggregation per tenant, then one empty entry for each tenant with a quota but no usage.\<close>

fun usage_per_tenant :: "ResourceCapacity btree \<Rightarrow> TaskRecord list \<Rightarrow> ResourceCapacity btree" where
  "usage_per_tenant m [] = m"
| "usage_per_tenant m (task # tasks) =
     usage_per_tenant
       (case (tr_reservation task, task_tenant task) of
          (Some reservation, Some tenant) \<Rightarrow>
            bt_entry tenant no_usage (\<lambda>entry. add_reservation entry reservation) m
        | _ \<Rightarrow> m) tasks"

definition with_configured_tenants :: "ResourceLedger \<Rightarrow> ResourceCapacity btree \<Rightarrow> ResourceCapacity btree" where
  "with_configured_tenants l m =
     fold (\<lambda>tenant m. bt_entry tenant no_usage (\<lambda>entry. entry) m) (map fst (lg_tenant_quotas l)) m"

definition tenant_view :: "ResourceLedger \<Rightarrow> string \<times> ResourceCapacity \<Rightarrow> TenantResourceView" where
  "tenant_view l = (\<lambda>(tenant, tenant_reserved).
     let quota = map_of (lg_tenant_quotas l) tenant
     in \<lparr>tv_tenant = tenant, tv_quota = quota, tv_reserved = tenant_reserved,
         tv_available = map_option (\<lambda>q. tenant_available_capacity q tenant_reserved) quota\<rparr>)"

definition runtime_resources :: "Settings \<Rightarrow> ResourceLedger \<Rightarrow> repo \<Rightarrow> RuntimeResourcesResponse app_result" where
  "runtime_resources settings l s =
     res_bind (list_active_reservations s) (\<lambda>active_tasks.
     let reserved = reserved_capacity l (List.map_filter tr_reservation active_tasks);
         per_tenant = with_configured_tenants l (usage_per_tenant [] active_tasks)
     in Inr \<lparr>rr_runtime_id = se_runtime_id settings, rr_capacity = lg_capacity l, rr_reserved = reserved,
             rr_available = available_capacity l reserved,
             rr_active_reservations = List.map_filter active_view active_tasks,
             rr_accepted_waiting_tasks = count_accepted_waiting s,
             rr_tenants = map (tenant_view l) per_tenant\<rparr>)"

definition runtime_config :: "Settings \<Rightarrow> RuntimeConfigResponse" where
  "runtime_config settings =
     \<lparr>cf_runtime_id = se_runtime_id settings, cf_listen_addr = se_listen_addr settings,
      cf_data_dir = se_data_dir settings, cf_max_running_tasks = se_max_running_tasks settings,
      cf_max_queued_tasks = se_max_queued_tasks settings,
      cf_termination_grace_ms = se_termination_grace_ms settings,
      cf_result_retention_secs = se_result_retention_secs settings,
      cf_gc_interval_ms = se_gc_interval_ms settings,
      cf_dispatch_poll_interval_ms = se_dispatch_poll_interval_ms settings,
      cf_cgroup_root = se_cgroup_root settings,
      cf_default_capability_mode = se_default_capability_mode settings,
      cf_cgroup_enabled = (\<not> se_disable_cgroup settings)\<rparr>"

definition get_events :: "string \<Rightarrow> repo \<Rightarrow> EventRecord list app_result" where
  "get_events i s = list_events i s"

text \<open>The metrics endpoint: status code and body, which is plain text also when the snapshot fails.\<close>

definition metrics :: "unit app_result \<Rightarrow> repo \<Rightarrow> nat \<times> string" where
  "metrics statements s =
     (case metrics_snapshot statements s of
        Inr snapshot \<Rightarrow> (200, render_prometheus snapshot)
      | Inl err \<Rightarrow> (500, ''metrics_error '' @ display_error err @ newline))"

subsection \<open>Recovery\<close>

record recover_host =
  rh_alive :: "int \<Rightarrow> bool"
  rh_release_clock :: "string \<Rightarrow> clock"
  rh_reserve_clock :: "string \<Rightarrow> clock"
  rh_recovered_clock :: "string \<Rightarrow> clock"
  rh_lost_clock :: "string \<Rightarrow> clock"
  rh_faults :: faults
  rh_now :: int

definition recovery_lost :: "recover_host \<Rightarrow> string \<Rightarrow> world \<Rightarrow> world \<times> unit app_result" where
  "recovery_lost host i w =
     and_then (on_repo (mark_recovery_lost i (rh_lost_clock host i)) w) (\<lambda>w _.
     persist_latest_result (rh_faults host) (rh_now host) i w)"

definition recover_task :: "recover_host \<Rightarrow> TaskRecord \<Rightarrow> world \<Rightarrow> world \<times> unit app_result" where
  "recover_task host task w =
     (let i = tr_task_id task
      in case tr_status task of
           Accepted \<Rightarrow>
             if has_active_reservation task
             then on_repo (release_resources i
                    ''orphan accepted-task reservation released during recovery'' (rh_release_clock host i)) w
             else (w, Inr ())
         | Running \<Rightarrow>
             (case tr_shim_pid task of
                Some shim_pid \<Rightarrow>
                  if process_exists (rh_alive host) (pid_as_i32 shim_pid)
                  then
                    and_then
                      (if \<not> has_active_reservation task
                       then on_repo (reserve_resources i (from_limits (tr_limits task))
                              ''resource reservation reconstructed during recovery'' (rh_reserve_clock host i)) w
                       else (w, Inr ())) (\<lambda>w _.
                    on_repo (mark_recovered i (rh_recovered_clock host i)) w)
                  else recovery_lost host i w
              | None \<Rightarrow> recovery_lost host i w)
         | _ \<Rightarrow> (w, Inr ()))"

fun recover_tasks :: "recover_host \<Rightarrow> TaskRecord list \<Rightarrow> world \<Rightarrow> world \<times> unit app_result" where
  "recover_tasks host [] w = (w, Inr ())"
| "recover_tasks host (task # tasks) w =
     and_then (recover_task host task w) (\<lambda>w _. recover_tasks host tasks w)"

definition recover :: "recover_host \<Rightarrow> service \<Rightarrow> service \<times> unit app_result" where
  "recover host sx =
     (case list_non_terminal (wd_repo (sx_world sx)) of
        Inl e \<Rightarrow> (sx, Inl e)
      | Inr tasks \<Rightarrow>
          and_then (in_service (recover_tasks host tasks) sx) (\<lambda>sx _. (notify_dispatcher sx, Inr ())))"

subsection \<open>Garbage collection\<close>

text \<open>
  \<open>chrono::Duration::from_std\<close> is an argument; it refuses a number of seconds that its own type
  cannot hold. \<open>fs::remove_dir_all\<close> answers for each directory.
\<close>

datatype removal = Removed | NothingToRemove | NotRemoved

definition gc_cutoff :: "(u64 \<Rightarrow> int option) \<Rightarrow> u64 \<Rightarrow> int \<Rightarrow> int" where
  "gc_cutoff from_std result_retention now =
     (case from_std result_retention of Some duration \<Rightarrow> now - duration | None \<Rightarrow> now)"

definition below_dir :: "string \<Rightarrow> string \<Rightarrow> bool" where
  "below_dir dir path = (path = dir \<or> take (length dir + 1) path = dir @ ''/'')"

definition remove_dir_all :: "string \<Rightarrow> files \<Rightarrow> files" where
  "remove_dir_all dir fs =
     \<lparr>fl_dirs = filter (\<lambda>p. \<not> below_dir dir p) (fl_dirs fs),
      fl_output = (\<lambda>p. if below_dir dir p then None else fl_output fs p),
      fl_request = (\<lambda>p. if below_dir dir p then None else fl_request fs p),
      fl_result = (\<lambda>p. if below_dir dir p then None else fl_result fs p),
      fl_script = (\<lambda>p. if below_dir dir p then None else fl_script fs p)\<rparr>"

definition gc_task :: "(string \<Rightarrow> removal) \<Rightarrow> TaskRecord \<Rightarrow> world \<Rightarrow> world" where
  "gc_task remove task w =
     (case remove (tr_task_dir task) of
        NotRemoved \<Rightarrow> w
      | NothingToRemove \<Rightarrow> fst (on_repo (delete_task (tr_task_id task)) w)
      | Removed \<Rightarrow>
          fst (on_repo (delete_task (tr_task_id task))
            (w\<lparr>wd_files := remove_dir_all (tr_task_dir task) (wd_files w)\<rparr>)))"

text \<open>One pass of \<open>gc_loop\<close>; its errors are only logged.\<close>

definition gc_pass :: "(u64 \<Rightarrow> int option) \<Rightarrow> (string \<Rightarrow> removal) \<Rightarrow> Settings \<Rightarrow> int \<Rightarrow> world \<Rightarrow> world" where
  "gc_pass from_std remove settings now w =
     (case list_gc_candidates (gc_cutoff from_std (se_result_retention_secs settings) now) (wd_repo w) of
        Inl e \<Rightarrow> w
      | Inr tasks \<Rightarrow> fold (gc_task remove) tasks w)"

end
