(* ===== verification/Capabilities.thy ===== *)
theory Capabilities
  imports Service
begin

section \<open>Capabilities: probing the host, \<open>src/capabilities.rs\<close>, and the start of the service\<close>

text \<open>
  What the runtime finds out about its host when it starts, and the service built on it. The answers
  of the host are a record; this is the build for Linux. The probe file that is written to the data
  directory is removed at once, so that only whether it could be written is seen.
\<close>

subsection \<open>The host\<close>

record probe_host =
  po_arch :: string
  po_process_id :: nat
  po_euid :: u32
  po_write_fails :: "string \<Rightarrow> bool"
  po_exists :: "string \<Rightarrow> bool"
  po_readonly :: "string \<Rightarrow> bool option"
  po_read :: readable
  po_environ :: "string \<Rightarrow> string option"
  po_phys_pages :: int
  po_page_size :: int
  po_now :: int

record CapabilityProbeInput =
  pi_runtime_id :: string
  pi_data_dir :: string
  pi_cgroup_root :: string
  pi_max_running_tasks :: u64
  pi_disable_linux_sandbox :: bool
  pi_disable_cgroup :: bool
  pi_capacity_memory_bytes :: "u64 option"
  pi_capacity_pids :: "u64 option"

subsection \<open>Detection\<close>

definition data_dir_writable :: "probe_host \<Rightarrow> string \<Rightarrow> bool" where
  "data_dir_writable host path =
     (\<not> po_write_fails host (path_join path (''.execgo-runtime-probe-'' @ show_nat (po_process_id host))))"

definition path_likely_writable :: "probe_host \<Rightarrow> string \<Rightarrow> bool" where
  "path_likely_writable host path =
     (let candidate = if po_exists host path then path else unwrap_or (path_parent path) path
      in case po_readonly host candidate of Some readonly \<Rightarrow> \<not> readonly | None \<Rightarrow> False)"

definition detect_containerized :: "probe_host \<Rightarrow> bool" where
  "detect_containerized host =
     (po_exists host ''/.dockerenv'' \<or> po_exists host ''/run/.containerenv'' \<or>
      is_some_and (po_read host ''/proc/1/cgroup'') (\<lambda>contents.
        contains_str ''docker'' contents \<or> contains_str ''containerd'' contents \<or>
        contains_str ''kubepods'' contents))"

definition detect_kubernetes :: "probe_host \<Rightarrow> bool" where
  "detect_kubernetes host =
     (po_environ host ''KUBERNETES_SERVICE_HOST'' \<noteq> None \<or>
      is_some_and (po_read host ''/proc/1/cgroup'') (contains_str ''kubepods''))"

definition detect_memory_bytes :: "probe_host \<Rightarrow> u64 option" where
  "detect_memory_bytes host =
     (if 0 < po_phys_pages host \<and> 0 < po_page_size host
      then Some (sat_mul (word_of_int (po_phys_pages host)) (word_of_int (po_page_size host)))
      else None)"

definition detect_pids_capacity :: "probe_host \<Rightarrow> u64 option" where
  "detect_pids_capacity host =
     Option.bind (po_read host ''/proc/sys/kernel/pid_max'') (\<lambda>value. parse_u64 (trim value))"

definition stable_semantics :: "string list" where
  "stable_semantics =
     [''submit'', ''status'', ''events'', ''stdout_stderr'', ''timeout'', ''kill'', ''artifacts'',
      ''result_persistence'', ''recovery'']"

definition enhanced_semantics :: "bool \<Rightarrow> bool \<Rightarrow> string list" where
  "enhanced_semantics linux_sandbox cgroup_writable =
     [''resource_ledger''] @
     (if linux_sandbox then [''linux_sandbox'', ''namespaces'', ''chroot''] else []) @
     (if cgroup_writable then [''cgroup_memory'', ''cgroup_pids'', ''oom_detection''] else [])"

subsection \<open>The snapshot\<close>

definition probe_overrides :: "CapabilityProbeInput \<Rightarrow> string btree" where
  "probe_overrides input =
     (let overrides = [];
          overrides = (if pi_disable_linux_sandbox input then bt_insert ''linux_sandbox'' ''disabled'' overrides else overrides);
          overrides = (if pi_disable_cgroup input then bt_insert ''cgroup'' ''disabled'' overrides else overrides);
          overrides = (case pi_capacity_memory_bytes input of
                         Some value \<Rightarrow> bt_insert ''capacity_memory_bytes'' (show_u64 value) overrides | None \<Rightarrow> overrides)
      in case pi_capacity_pids input of
           Some value \<Rightarrow> bt_insert ''capacity_pids'' (show_u64 value) overrides | None \<Rightarrow> overrides)"

definition probe_warnings :: "CapabilityProbeInput \<Rightarrow> bool \<Rightarrow> bool \<Rightarrow> bool \<Rightarrow> bool \<Rightarrow> string list" where
  "probe_warnings input writable linux_sandbox cgroup_v2 cgroup_writable =
     (if \<not> writable then [''data-dir is not writable: '' @ pi_data_dir input] else []) @
     (if \<not> linux_sandbox
      then [''linux_sandbox is unavailable without root-equivalent namespace permissions''] else []) @
     (if cgroup_v2 \<and> \<not> cgroup_writable
      then [''cgroup v2 detected but cgroup root is not writable: '' @ pi_cgroup_root input] else [])"

definition probe_runtime_capabilities :: "probe_host \<Rightarrow> CapabilityProbeInput \<Rightarrow> RuntimeCapabilities" where
  "probe_runtime_capabilities host input =
     (let writable = data_dir_writable host (pi_data_dir input);
          linux_sandbox = (po_euid host = 0 \<and> \<not> pi_disable_linux_sandbox input);
          cgroup_v2 = po_exists host ''/sys/fs/cgroup/cgroup.controllers'';
          cgroup_writable = (cgroup_v2 \<and> \<not> pi_disable_cgroup input \<and> path_likely_writable host (pi_cgroup_root input));
          warnings = probe_warnings input writable linux_sandbox cgroup_v2 cgroup_writable
      in \<lparr>cp_runtime_id = pi_runtime_id input, cp_snapshot_version = ''v1'', cp_collected_at = po_now host,
          cp_platform = \<lparr>pf_os = ''linux'', pf_arch = po_arch host, pf_containerized = detect_containerized host,
            pf_kubernetes = detect_kubernetes host\<rparr>,
          cp_execution = \<lparr>xc_command = True, xc_script = True, xc_process_group = True\<rparr>,
          cp_sandbox = \<lparr>sc_process = True, sc_linux_sandbox = linux_sandbox, sc_chroot = linux_sandbox,
            sc_namespaces = \<lparr>nc_mount = linux_sandbox, nc_pid = linux_sandbox, nc_uts = linux_sandbox,
              nc_ipc = linux_sandbox, nc_net = linux_sandbox\<rparr>\<rparr>,
          cp_storage = \<lparr>st_data_dir_writable = writable\<rparr>,
          cp_resources = \<lparr>rs_rlimit_cpu = True, rs_rlimit_memory = True, rs_cgroup_v2 = cgroup_v2,
            rs_cgroup_writable = cgroup_writable, rs_memory_limit = True, rs_pids_limit = cgroup_writable,
            rs_oom_detection = cgroup_writable, rs_cpu_quota = False, rs_ledger = True,
            rs_capacity = \<lparr>rc_task_slots = pi_max_running_tasks input,
              rc_memory_bytes = option_or (pi_capacity_memory_bytes input) (detect_memory_bytes host),
              rc_pids = option_or (pi_capacity_pids input) (detect_pids_capacity host)\<rparr>\<rparr>,
          cp_stable_semantics = stable_semantics,
          cp_enhanced_semantics = enhanced_semantics linux_sandbox cgroup_writable,
          cp_warnings = warnings, cp_degraded = (warnings \<noteq> []), cp_overrides = probe_overrides input\<rparr>)"

subsection \<open>The service\<close>

record runtime =
  rt_settings :: Settings
  rt_capabilities :: RuntimeCapabilities
  rt_ledger :: ResourceLedger
  rt_started_at :: int

definition probe_input :: "Settings \<Rightarrow> CapabilityProbeInput" where
  "probe_input settings =
     \<lparr>pi_runtime_id = se_runtime_id settings, pi_data_dir = se_data_dir settings,
      pi_cgroup_root = se_cgroup_root settings, pi_max_running_tasks = se_max_running_tasks settings,
      pi_disable_linux_sandbox = se_disable_linux_sandbox settings, pi_disable_cgroup = se_disable_cgroup settings,
      pi_capacity_memory_bytes = se_capacity_memory_bytes settings, pi_capacity_pids = se_capacity_pids settings\<rparr>"

text \<open>The opening of the database, with its columns as \<open>init_columns\<close> leaves them, is given by \<open>open_db\<close>.\<close>

definition new_runtime ::
    "faults \<Rightarrow> unit app_result \<Rightarrow> probe_host \<Rightarrow> int \<Rightarrow> Settings \<Rightarrow> files \<Rightarrow> files \<times> runtime app_result" where
  "new_runtime faults open_db host started_at settings fs =
     and_then (create_dir_all faults (se_data_dir settings) fs) (\<lambda>fs _.
     and_then (create_dir_all faults (se_tasks_dir settings) fs) (\<lambda>fs _.
     case open_db of
       Inl e \<Rightarrow> (fs, Inl e)
     | Inr _ \<Rightarrow>
         (let capabilities = probe_runtime_capabilities host (probe_input settings)
          in (fs, Inr \<lparr>rt_settings = settings, rt_capabilities = capabilities,
                       rt_ledger = with_tenant_quotas (rs_capacity (cp_resources capabilities)) (se_tenant_quotas settings),
                       rt_started_at = started_at\<rparr>))))"

record RuntimeInfoResponse =
  ri_runtime_id :: string
  ri_version :: string
  ri_started_at :: int
  ri_snapshot_version :: string
  ri_platform :: RuntimePlatform

definition runtime_info :: "string \<Rightarrow> runtime \<Rightarrow> RuntimeInfoResponse" where
  "runtime_info package_version rt =
     \<lparr>ri_runtime_id = se_runtime_id (rt_settings rt), ri_version = package_version,
      ri_started_at = rt_started_at rt,
      ri_snapshot_version = cp_snapshot_version (rt_capabilities rt),
      ri_platform = cp_platform (rt_capabilities rt)\<rparr>"

subsection \<open>What the operator allows\<close>

text \<open>A system call that leaves the process in the namespaces and the root of the server.\<close>

definition unconfined :: "syscall \<Rightarrow> bool" where
  "unconfined call = (case call of Unshare _ \<Rightarrow> False | Chroot _ \<Rightarrow> False | _ \<Rightarrow> True)"

text \<open>
  C36: The switches of the operator reach the processes: under capabilities probed with the Linux
  sandbox disabled, or without root, no resolved plan makes a child unshare a namespace or change its
  root; with cgroups disabled no plan uses one, nor the limits and the detection that need one; and
  a capacity that is set replaces the detected one in the ledger the service starts with.
\<close>

theorem operator_switches_hold:
  assumes "new_runtime faults open_db host started_at settings fs = (fs', Inr rt)"
    and "resolve_execution_plan request (rt_capabilities rt) mode = Inr plan"
  shows "(se_disable_linux_sandbox settings \<or> po_euid host \<noteq> 0 \<longrightarrow> list_all unconfined (pre_exec plan)) \<and>
    (se_disable_cgroup settings \<longrightarrow>
       \<not> ep_cgroup_enforced (pl_resource_enforcement plan) \<and> \<not> ep_pids_enforced (pl_resource_enforcement plan) \<and>
       \<not> ep_oom_detection (pl_resource_enforcement plan)) \<and>
    rc_task_slots (lg_capacity (rt_ledger rt)) = se_max_running_tasks settings \<and>
    (se_capacity_memory_bytes settings = None \<or>
       rc_memory_bytes (lg_capacity (rt_ledger rt)) = se_capacity_memory_bytes settings) \<and>
    (se_capacity_pids settings = None \<or> rc_pids (lg_capacity (rt_ledger rt)) = se_capacity_pids settings) \<and>
    lg_tenant_quotas (rt_ledger rt) = se_tenant_quotas settings"
proof -
  let ?caps = "probe_runtime_capabilities host (probe_input settings)"
  have rt: "rt_capabilities rt = ?caps"
    "rt_ledger rt = with_tenant_quotas (rs_capacity (cp_resources ?caps)) (se_tenant_quotas settings)"
    using assms(1) by (cases open_db; auto simp: new_runtime_def Let_def and_then_eq_Inr)+
  have plan: "resolve_execution_plan request ?caps mode = Inr plan" using assms(2) by (simp add: rt)
  note e = resolved_enforcement [OF plan]
  have calls: "list_all unconfined (pre_exec plan)" if "se_disable_linux_sandbox settings \<or> po_euid host \<noteq> 0"
  proof -
    have "\<not> sc_linux_sandbox (cp_sandbox ?caps)" "\<not> sc_chroot (cp_sandbox ?caps)"
      using that by (auto simp: probe_runtime_capabilities_def probe_input_def Let_def)
    then have "unconfined call" if "call_supported ?caps call" for call
      using that by (cases call) (simp_all add: unconfined_def call_supported_def)
    with resolved_calls_supported [OF plan] show ?thesis by (auto simp: list_all_iff)
  qed
  have cgroup: "\<not> rs_cgroup_writable (cp_resources ?caps)" if "se_disable_cgroup settings"
    using that by (simp add: probe_runtime_capabilities_def probe_input_def Let_def)
  have capacity: "rc_task_slots (lg_capacity (rt_ledger rt)) = se_max_running_tasks settings"
    "rc_memory_bytes (lg_capacity (rt_ledger rt)) = option_or (se_capacity_memory_bytes settings) (detect_memory_bytes host)"
    "rc_pids (lg_capacity (rt_ledger rt)) = option_or (se_capacity_pids settings) (detect_pids_capacity host)"
    "lg_tenant_quotas (rt_ledger rt) = se_tenant_quotas settings"
    by (simp_all add: rt with_tenant_quotas_def probe_runtime_capabilities_def probe_input_def Let_def)
  show ?thesis
    using calls cgroup e(3-5) capacity
    by (cases "se_capacity_memory_bytes settings"; cases "se_capacity_pids settings") auto
qed

definition sample_probe_host :: probe_host where
  "sample_probe_host =
     \<lparr>po_arch = ''x86_64'', po_process_id = 7, po_euid = 1000, po_write_fails = (\<lambda>_. False),
      po_exists = (\<lambda>p. p = ''/c''), po_readonly = (\<lambda>_. Some False), po_read = (\<lambda>_. None), po_environ = (\<lambda>_. None),
      po_phys_pages = 4, po_page_size = 4096, po_now = 5\<rparr>"

text \<open>A request for an adaptive sandbox on a host without root.\<close>

definition adaptive_request :: SubmitTaskRequest where
  "adaptive_request =
     sample_request\<lparr>rq_sandbox := default_sandbox_policy\<lparr>sb_profile := LinuxSandbox\<rparr>\<rparr>"

theorem operator_switches_hold_witness:
  "case new_runtime (\<lambda>_. None) (Inr ()) sample_probe_host 5 sample_settings no_files of
     (fs, Inl _) \<Rightarrow> False
   | (fs, Inr rt) \<Rightarrow>
       (case resolve_execution_plan adaptive_request (rt_capabilities rt) Adaptive of
          Inl _ \<Rightarrow> False
        | Inr plan \<Rightarrow> list_all unconfined (pre_exec plan) \<and> pl_degraded plan)"
proof -
  let ?run = "new_runtime (\<lambda>_. None) (Inr ()) sample_probe_host 5 sample_settings no_files"
  have "case ?run of (fs, Inl _) \<Rightarrow> False
    | (fs, Inr rt) \<Rightarrow>
       (case resolve_execution_plan adaptive_request (rt_capabilities rt) Adaptive of
          Inl _ \<Rightarrow> False | Inr plan \<Rightarrow> pl_degraded plan)"
    by code_simp
  then obtain fs rt plan where r: "?run = (fs, Inr rt)"
      "resolve_execution_plan adaptive_request (rt_capabilities rt) Adaptive = Inr plan" "pl_degraded plan"
    by (auto split: prod.splits sum.splits)
  have "po_euid sample_probe_host \<noteq> 0" by (simp add: sample_probe_host_def)
  then have "list_all unconfined (pre_exec plan)"
    using operator_switches_hold [OF r(1,2)] by simp
  with r show ?thesis by simp
qed

end
