(* ===== verification/Shim.thy ===== *)
theory Shim
  imports Workload
begin

section \<open>Shim: the supervisor process of one task, \<open>src/runtime.rs\<close>\<close>

text \<open>
  The shim starts the process of its task and supervises it. While it supervises, other processes
  use the same database: the loop runs over a sequence of events, which are the ticks of its timer,
  the end of the waiting thread and the operations of others, in any order. Instants are
  nanoseconds; the readings of the clock within one tick are a function of their place in the code.
\<close>

subsection \<open>The command\<close>

record command =
  cm_program :: string
  cm_args :: "string list"
  cm_stdout :: string
  cm_stderr :: string
  cm_dir :: string
  cm_env_cleared :: bool
  cm_env :: "string btree"

text \<open>
  \<open>std::process::Command\<close>: the variables that were set, and whether those of the parent are dropped.
  The environment of the process it starts is computed from both.
\<close>

definition env_clear :: "command \<Rightarrow> command" where
  "env_clear c = c\<lparr>cm_env_cleared := True, cm_env := []\<rparr>"

definition set_env :: "string \<times> string \<Rightarrow> command \<Rightarrow> command" where
  "set_env = (\<lambda>(key, value) c. c\<lparr>cm_env := bt_insert key value (cm_env c)\<rparr>)"

definition process_env :: "(string \<Rightarrow> string option) \<Rightarrow> command \<Rightarrow> string \<Rightarrow> string option" where
  "process_env environ c key =
     option_or (map_of (cm_env c) key) (if cm_env_cleared c then None else environ key)"

text \<open>
  \<open>None\<close> in place of a command is the panic of \<open>&interpreter[0]\<close> on an empty list.
\<close>

definition build_command ::
    "faults \<Rightarrow> (string \<Rightarrow> string option) \<Rightarrow> TaskRecord \<Rightarrow> files \<Rightarrow>
     files \<times> (command \<times> string option) option app_result" where
  "build_command faults environ task fs =
     (let e = tr_execution task;
          command = (\<lambda>program args. fold set_env (minimal_env environ (es_env e)) (env_clear
                      \<lparr>cm_program = program, cm_args = args, cm_stdout = tr_stdout_path task,
                       cm_stderr = tr_stderr_path task, cm_dir = tr_workspace_dir task,
                       cm_env_cleared = False, cm_env = []\<rparr>))
      in and_then (create_dir_all faults (tr_workspace_dir task) fs) (\<lambda>fs _.
         case es_kind e of
           Command \<Rightarrow>
             (case es_program e of
                None \<Rightarrow> (fs, Inl (InvalidInput ''execution.program missing''))
              | Some program \<Rightarrow> (fs, Inr (Some (command program (es_args e), None))))
         | Script \<Rightarrow>
             (case es_script e of
                None \<Rightarrow> (fs, Inl (InvalidInput ''execution.script missing''))
              | Some script \<Rightarrow>
                  let path = unwrap_or (tr_script_path task) (path_join (tr_task_dir task) ''script.sh'')
                  in and_then (write_script_file faults path script fs) (\<lambda>fs _.
                     case es_interpreter e of
                       Some [] \<Rightarrow> (fs, Inr None)
                     | Some (interp # args) \<Rightarrow> (fs, Inr (Some (command interp (args @ [path]), Some path)))
                     | None \<Rightarrow> (fs, Inr (Some (command ''/bin/sh'' [''-c'', script], Some path)))))))"

subsection \<open>Starting the process\<close>

record shim_host =
  sh_faults :: faults
  sh_cgroup_faults :: faults
  sh_environ :: "string \<Rightarrow> string option"
  sh_fork :: "string + u32"
  sh_call_fails :: "syscall \<Rightarrow> string option"
  sh_exec_error :: "string option"
  sh_started_clock :: clock
  sh_complete_clock :: clock
  sh_finished_at :: int
  sh_now :: int
  sh_start :: nat

record shim =
  sm_world :: world
  sm_cgroup :: "(string \<times> string) list"
  sm_started :: "(u32 \<times> command) list"
  sm_signals :: "(signal_target \<times> signal) list"

record SpawnedProcess =
  sp_pid :: u32
  sp_pgid :: int
  sp_script_path :: "string option"
  sp_cgroup_dir :: "string option"

text \<open>
  \<open>Command::spawn\<close>: an error of the closure given to \<open>pre_exec\<close> reaches the parent as \<open>EINVAL\<close>,
  because \<open>nix_to_io\<close> makes an error without an error number.
\<close>

definition einval :: string where
  "einval = ''Invalid argument (os error 22)''"

definition spawn_child :: "shim_host \<Rightarrow> ExecutionPlan \<Rightarrow> string + u32" where
  "spawn_child host plan =
     (case sh_fork host of
        Inl err \<Rightarrow> Inl err
      | Inr pid \<Rightarrow>
          (case snd (run_calls (sh_call_fails host) (pre_exec plan)) of
             Some _ \<Rightarrow> Inl einval
           | None \<Rightarrow> (case sh_exec_error host of Some err \<Rightarrow> Inl err | None \<Rightarrow> Inr pid)))"

definition in_shim :: "(world \<Rightarrow> world \<times> 'a app_result) \<Rightarrow> shim \<Rightarrow> shim \<times> 'a app_result" where
  "in_shim f sm = (case f (sm_world sm) of (w, r) \<Rightarrow> (sm\<lparr>sm_world := w\<rparr>, r))"

definition spawn_task_process ::
    "shim_host \<Rightarrow> TaskRecord \<Rightarrow> ExecutionPlan \<Rightarrow> string \<Rightarrow> shim \<Rightarrow> shim \<times> SpawnedProcess option app_result" where
  "spawn_task_process host task plan cgroup_root sm =
     and_then (in_shim (on_files (open_output_file (sh_faults host) (tr_stdout_path task))) sm) (\<lambda>sm _.
     and_then (in_shim (on_files (open_output_file (sh_faults host) (tr_stderr_path task))) sm) (\<lambda>sm _.
     and_then (in_shim (on_files (build_command (sh_faults host) (sh_environ host) task)) sm) (\<lambda>sm built.
     case built of
       None \<Rightarrow> (sm, Inr None)
     | Some (command, script_path) \<Rightarrow>
         (case spawn_child host plan of
            Inl err \<Rightarrow> (sm, Inl (LaunchFailed (''spawn process: '' @ err)))
          | Inr pid \<Rightarrow>
              let pgid = pid_as_i32 pid;
                  sm = sm\<lparr>sm_started := sm_started sm @ [(pid, command)]\<rparr>;
                  spawned = (\<lambda>dir. \<lparr>sp_pid = pid, sp_pgid = pgid, sp_script_path = script_path, sp_cgroup_dir = dir\<rparr>)
              in if ep_cgroup_enforced (pl_resource_enforcement plan)
                 then
                   (case setup_cgroup (sh_cgroup_faults host) cgroup_root (tr_task_id task)
                              (pid_as_i32 pid) (pl_resource_enforcement plan) of
                         (ws, r) \<Rightarrow>
                           (let sm = sm\<lparr>sm_cgroup := sm_cgroup sm @ ws\<rparr>
                            in case r of
                                 Inl err \<Rightarrow> (sm, Inl (SandboxSetup (''configure cgroup: '' @ display_error err)))
                               | Inr dir \<Rightarrow> (sm, Inr (Some (spawned (Some dir))))))
                 else (sm, Inr (Some (spawned None)))))))"

subsection \<open>Supervision\<close>

record watch =
  wa_task_id :: string
  wa_grace_ms :: u64
  wa_wall_ms :: u64
  wa_pgid :: int
  wa_cgroup_dir :: "string option"
  wa_start :: nat

record supervision =
  sv_shim :: shim
  sv_timeout_started :: "nat option"
  sv_cancel_started :: "nat option"
  sv_term_sent :: bool
  sv_kill_sent :: bool

text \<open>
  The readings within a tick: 0 for \<open>start.elapsed()\<close>, 1 and 2 for \<open>Instant::now()\<close> of the timeout and of
  the cancellation, 3 and 4 for their \<open>elapsed()\<close>.
\<close>

datatype supervision_event =
    Tick "nat \<Rightarrow> nat" clock
  | WaitDone "string + WaitUsage app_result" nat int readable
  | Elsewhere "repo_op \<times> clock"

abbreviation sv_repo :: "supervision \<Rightarrow> repo" where
  "sv_repo sv \<equiv> wd_repo (sm_world (sv_shim sv))"

definition millis :: "u64 \<Rightarrow> nat" where
  "millis ms = unat ms * 1000000"

definition elapsed_at_least :: "u64 \<Rightarrow> nat \<Rightarrow> nat \<Rightarrow> bool" where
  "elapsed_at_least ms now since = (millis ms \<le> now - since)"

definition send_signal :: "int \<Rightarrow> signal \<Rightarrow> shim \<Rightarrow> shim" where
  "send_signal pgid sig sm = sm\<lparr>sm_signals := sm_signals sm @ [(ProcessGroup pgid, sig)]\<rparr>"

definition in_supervision :: "(world \<Rightarrow> world \<times> 'a app_result) \<Rightarrow> supervision \<Rightarrow> supervision \<times> 'a app_result" where
  "in_supervision f sv = (case in_shim f (sv_shim sv) of (sm, r) \<Rightarrow> (sv\<lparr>sv_shim := sm\<rparr>, r))"

definition notice_timeout :: "watch \<Rightarrow> (nat \<Rightarrow> nat) \<Rightarrow> clock \<Rightarrow> supervision \<Rightarrow> supervision \<times> unit app_result" where
  "notice_timeout w now clk sv =
     (if sv_timeout_started sv = None \<and> elapsed_at_least (wa_wall_ms w) (now 0) (wa_start w)
      then and_then (in_supervision (on_repo (mark_timeout_triggered (wa_task_id w) clk)) sv) (\<lambda>sv _.
           (sv\<lparr>sv_timeout_started := Some (now 1)\<rparr>, Inr ()))
      else (sv, Inr ()))"

definition notice_cancel :: "(nat \<Rightarrow> nat) \<Rightarrow> bool \<Rightarrow> supervision \<Rightarrow> supervision" where
  "notice_cancel now cancel_requested sv =
     (if cancel_requested \<and> sv_cancel_started sv = None
      then sv\<lparr>sv_cancel_started := Some (now 2)\<rparr> else sv)"

definition terminate_group :: "watch \<Rightarrow> supervision \<Rightarrow> supervision" where
  "terminate_group w sv =
     (if (sv_timeout_started sv \<noteq> None \<or> sv_cancel_started sv \<noteq> None) \<and> \<not> sv_term_sent sv
      then sv\<lparr>sv_shim := send_signal (wa_pgid w) SIGTERM (sv_shim sv), sv_term_sent := True\<rparr>
      else sv)"

definition should_escalate :: "watch \<Rightarrow> (nat \<Rightarrow> nat) \<Rightarrow> supervision \<Rightarrow> bool" where
  "should_escalate w now sv =
     (is_some_and (sv_timeout_started sv) (elapsed_at_least (wa_grace_ms w) (now 3)) \<or>
      is_some_and (sv_cancel_started sv) (elapsed_at_least (wa_grace_ms w) (now 4)))"

definition kill_group :: "watch \<Rightarrow> (nat \<Rightarrow> nat) \<Rightarrow> supervision \<Rightarrow> supervision" where
  "kill_group w now sv =
     (if should_escalate w now sv \<and> \<not> sv_kill_sent sv
      then sv\<lparr>sv_shim := send_signal (wa_pgid w) SIGKILL (sv_shim sv), sv_kill_sent := True\<rparr>
      else sv)"

definition supervise_tick :: "watch \<Rightarrow> (nat \<Rightarrow> nat) \<Rightarrow> clock \<Rightarrow> supervision \<Rightarrow> supervision \<times> unit app_result" where
  "supervise_tick w now clk sv =
     (case is_cancel_requested (wa_task_id w) (sv_repo sv) of
        Inl e \<Rightarrow> (sv, Inl e)
      | Inr cancel_requested \<Rightarrow>
          and_then (notice_timeout w now clk sv) (\<lambda>sv _.
          (kill_group w now (terminate_group w (notice_cancel now cancel_requested sv)), Inr ())))"

definition supervise_exit ::
    "watch \<Rightarrow> string + WaitUsage app_result \<Rightarrow> nat \<Rightarrow> int \<Rightarrow> readable \<Rightarrow> supervision \<Rightarrow> CompletionUpdate app_result" where
  "supervise_exit w result now utc read sv =
     (case result of
        Inl err \<Rightarrow> Inl (Internal (''wait join error: '' @ err))
      | Inr waited \<Rightarrow>
          res_bind waited (\<lambda>usage.
          res_bind (if sv_cancel_started sv \<noteq> None then Inr True
                    else is_cancel_requested (wa_task_id w) (sv_repo sv)) (\<lambda>cancel_requested.
          Inr (classify_completion read utc usage (of_nat ((now - wa_start w) div 1000000))
                 (sv_timeout_started sv \<noteq> None) cancel_requested (wa_cgroup_dir w)))))"

text \<open>An operation of another process on the database.\<close>

definition elsewhere :: "repo_op \<times> clock \<Rightarrow> supervision \<Rightarrow> supervision" where
  "elsewhere op sv =
     sv\<lparr>sv_shim := (sv_shim sv)\<lparr>sm_world := (sm_world (sv_shim sv))\<lparr>wd_repo := run_op op (sv_repo sv)\<rparr>\<rparr>\<rparr>"

text \<open>The loop; \<open>None\<close> while the process has not ended.\<close>

fun supervise_wait ::
    "watch \<Rightarrow> supervision_event list \<Rightarrow> supervision \<Rightarrow> supervision \<times> CompletionUpdate option app_result" where
  "supervise_wait w [] sv = (sv, Inr None)"
| "supervise_wait w (Tick now clk # es) sv =
     and_then (supervise_tick w now clk sv) (\<lambda>sv _. supervise_wait w es sv)"
| "supervise_wait w (WaitDone result now utc read # es) sv =
     (sv, res_bind (supervise_exit w result now utc read sv) (\<lambda>u. Inr (Some u)))"
| "supervise_wait w (Elsewhere op # es) sv =
     supervise_wait w es (elsewhere op sv)"

subsection \<open>The whole shim\<close>

record InternalShimArgs =
  ia_database :: string
  ia_data_dir :: string
  ia_task_id :: string
  ia_termination_grace_ms :: u64
  ia_cgroup_root :: string

text \<open>How a run of the shim ends: it returns, panics, or still waits for its process.\<close>

datatype shim_exit = Returned | Panicked | StillWaiting

definition early_update :: "TaskStatus \<Rightarrow> int \<Rightarrow> RuntimeErrorInfo \<Rightarrow> CompletionUpdate" where
  "early_update status now error =
     \<lparr>cu_status = status, cu_finished_at = now, cu_duration_ms = Some 0, cu_exit_code = None,
      cu_exit_signal = None, cu_error = Some error, cu_usage = None, cu_result_json = None\<rparr>"

definition launch_error :: "AppError \<Rightarrow> RuntimeErrorInfo" where
  "launch_error err =
     (case err of
        SandboxSetup message \<Rightarrow> RuntimeErrorInfo EcSandboxSetupFailed message None
      | LaunchFailed message \<Rightarrow> RuntimeErrorInfo EcLaunchFailed message None
      | other \<Rightarrow> RuntimeErrorInfo EcInternal (display_error other) None)"

definition finish_task :: "shim_host \<Rightarrow> string \<Rightarrow> CompletionUpdate \<Rightarrow> shim \<Rightarrow> shim \<times> shim_exit app_result" where
  "finish_task host i u sm =
     and_then (in_shim (on_repo (complete_task i u (sh_complete_clock host))) sm) (\<lambda>sm _.
     and_then (in_shim (persist_latest_result (sh_faults host) (sh_now host) i) sm) (\<lambda>sm _.
     (sm, Inr Returned)))"

definition watched :: "shim \<Rightarrow> supervision" where
  "watched sm =
     \<lparr>sv_shim = sm, sv_timeout_started = None, sv_cancel_started = None, sv_term_sent = False,
      sv_kill_sent = False\<rparr>"

definition supervise_spawned ::
    "shim_host \<Rightarrow> InternalShimArgs \<Rightarrow> supervision_event list \<Rightarrow> string \<Rightarrow> ExecutionPlan \<Rightarrow> SpawnedProcess \<Rightarrow> shim \<Rightarrow>
     shim \<times> shim_exit app_result" where
  "supervise_spawned host args es i plan spawned sm =
     and_then (in_shim (on_repo (mark_started i (sp_pid spawned) (sp_pgid spawned)
         (sp_script_path spawned) (sh_started_clock host))) sm) (\<lambda>sm _.
     case get_task i (wd_repo (sm_world sm)) of
       Inl e \<Rightarrow> (sm, Inl e)
     | Inr task \<Rightarrow>
         (case supervise_wait
              \<lparr>wa_task_id = tr_task_id task, wa_grace_ms = ia_termination_grace_ms args,
               wa_wall_ms = ep_wall_time_ms (pl_resource_enforcement plan), wa_pgid = sp_pgid spawned,
               wa_cgroup_dir = sp_cgroup_dir spawned, wa_start = sh_start host\<rparr> es (watched sm) of
            (sv, Inl e) \<Rightarrow> (sv_shim sv, Inl e)
          | (sv, Inr None) \<Rightarrow> (sv_shim sv, Inr StillWaiting)
          | (sv, Inr (Some u)) \<Rightarrow> finish_task host (tr_task_id task) u (sv_shim sv)))"

definition run_internal_shim ::
    "shim_host \<Rightarrow> InternalShimArgs \<Rightarrow> supervision_event list \<Rightarrow> shim \<Rightarrow> shim \<times> shim_exit app_result" where
  "run_internal_shim host args es sm =
     (case get_task (ia_task_id args) (wd_repo (sm_world sm)) of
        Inl e \<Rightarrow> (sm, Inl e)
      | Inr task \<Rightarrow>
          let i = tr_task_id task in
          if is_terminal (tr_status task) then (sm, Inr Returned)
          else if tr_kill_requested task \<and> tr_pid task = None
          then finish_task host i (early_update Cancelled (sh_finished_at host)
                 (RuntimeErrorInfo EcCancelled ''task cancelled before process launch'' None)) sm
          else
            let plan = unwrap_or (tr_execution_plan task) (legacy_execution_plan task) in
            (case spawn_task_process host task plan (ia_cgroup_root args) sm of
               (sm, Inl err) \<Rightarrow> finish_task host i (early_update Failed (sh_finished_at host) (launch_error err)) sm
             | (sm, Inr None) \<Rightarrow> (sm, Inr Panicked)
             | (sm, Inr (Some spawned)) \<Rightarrow> supervise_spawned host args es i plan spawned sm))"

end
