(* ===== verification/Client.thy ===== *)
theory Client
  imports Capabilities Shim
begin

section \<open>Client: the subcommands that talk to a server, \<open>src/runtime.rs\<close>\<close>

text \<open>
  \<open>submit\<close>, \<open>status\<close>, \<open>kill\<close>, \<open>wait\<close> and \<open>run\<close>. The HTTP library and the JSON library are arguments: what
  is answered to each request, how a body decodes and how a payload is printed. A command gives the
  lines it prints and its result.
\<close>

subsection \<open>Arguments and libraries\<close>

record RemoteTaskArgs =
  ra_server :: string
  ra_file :: "string option"
  ra_json :: "string option"
  ra_poll_interval_ms :: u64
  ra_timeout_ms :: "u64 option"

record StatusArgs =
  sa_server :: string
  sa_task_id :: string

record KillArgs =
  ka_server :: string
  ka_owner :: "string option"
  ka_task_id :: string

record WaitArgs =
  wr_server :: string
  wr_task_id :: string
  wr_timeout_ms :: "u64 option"
  wr_poll_interval_ms :: u64

datatype remote_request =
    RemoteGet string
  | RemotePost string "SubmitTaskRequest option" "string option"

text \<open>An answer: its status code, and its body or the error of reading it.\<close>

type_synonym answer = "nat \<times> (string + string)"

record libraries =
  lb_decode_request :: "string \<Rightarrow> string + SubmitTaskRequest"
  lb_decode_status :: "string \<Rightarrow> string + TaskStatusResponse"
  lb_decode_submitted :: "string \<Rightarrow> string + SubmitTaskResponse"
  lb_pretty :: "TaskStatusResponse \<Rightarrow> string"
  lb_show_status :: "nat \<Rightarrow> string"

type_synonym 'a command_outcome = "string list \<times> 'a app_result"

definition is_success :: "nat \<Rightarrow> bool" where
  "is_success status = (200 \<le> status \<and> status < 300)"

definition trim_server :: "string \<Rightarrow> string" where
  "trim_server server = trim_end_matches CHR ''/'' server"

definition load_request :: "libraries \<Rightarrow> (string \<Rightarrow> string + string) \<Rightarrow> RemoteTaskArgs \<Rightarrow> SubmitTaskRequest app_result" where
  "load_request lib read args =
     res_bind (case ra_file args of
                 Some file \<Rightarrow> (case read file of Inr raw \<Rightarrow> Inr raw | Inl e \<Rightarrow> Inl (Io e))
               | None \<Rightarrow> Inr (unwrap_or (ra_json args) [])) (\<lambda>raw.
     case lb_decode_request lib raw of Inl e \<Rightarrow> Inl (Json e) | Inr request \<Rightarrow> Inr request)"

definition print_json_response :: "libraries \<Rightarrow> answer \<Rightarrow> unit command_outcome" where
  "print_json_response lib a =
     (case snd a of
        Inl e \<Rightarrow> ([], Inl (Http e))
      | Inr body \<Rightarrow>
          ([body],
           if is_success (fst a) then Inr ()
           else Inl (Internal (''request failed with status '' @ lb_show_status lib (fst a)))))"

text \<open>\<open>response.json().await?\<close>.\<close>

definition decode_answer :: "(string \<Rightarrow> string + 'a) \<Rightarrow> answer \<Rightarrow> 'a app_result" where
  "decode_answer decode a =
     (case snd a of
        Inl e \<Rightarrow> Inl (Http e)
      | Inr body \<Rightarrow> (case decode body of Inl e \<Rightarrow> Inl (Http e) | Inr v \<Rightarrow> Inr v))"

subsection \<open>Single requests\<close>

definition send_and_print ::
    "libraries \<Rightarrow> (remote_request \<Rightarrow> string + answer) \<Rightarrow> remote_request \<Rightarrow> unit command_outcome" where
  "send_and_print lib send request =
     (case send request of Inl e \<Rightarrow> ([], Inl (Http e)) | Inr a \<Rightarrow> print_json_response lib a)"

definition submit_request :: "string \<Rightarrow> SubmitTaskRequest \<Rightarrow> remote_request" where
  "submit_request server request = RemotePost (trim_server server @ ''/api/v1/tasks'') (Some request) None"

definition status_request :: "string \<Rightarrow> string \<Rightarrow> remote_request" where
  "status_request server task_id = RemoteGet (trim_server server @ ''/api/v1/tasks/'' @ task_id)"

definition submit_remote ::
    "libraries \<Rightarrow> (string \<Rightarrow> string + string) \<Rightarrow> (remote_request \<Rightarrow> string + answer) \<Rightarrow> RemoteTaskArgs \<Rightarrow> unit command_outcome" where
  "submit_remote lib read send args =
     (case load_request lib read args of
        Inl e \<Rightarrow> ([], Inl e)
      | Inr request \<Rightarrow> send_and_print lib send (submit_request (ra_server args) request))"

definition status_remote :: "libraries \<Rightarrow> (remote_request \<Rightarrow> string + answer) \<Rightarrow> StatusArgs \<Rightarrow> unit command_outcome" where
  "status_remote lib send args = send_and_print lib send (status_request (sa_server args) (sa_task_id args))"

definition owner_header :: "string option \<Rightarrow> string option" where
  "owner_header owner =
     (case owner of None \<Rightarrow> None | Some s \<Rightarrow> if trim s = [] then None else Some (trim s))"

definition kill_remote :: "libraries \<Rightarrow> (remote_request \<Rightarrow> string + answer) \<Rightarrow> KillArgs \<Rightarrow> unit command_outcome" where
  "kill_remote lib send args =
     send_and_print lib send
       (RemotePost (trim_server (ka_server args) @ ''/api/v1/tasks/'' @ ka_task_id args @ ''/kill'') None
          (owner_header (ka_owner args)))"

subsection \<open>Waiting\<close>

text \<open>
  The test of a round; \<open>elapsed\<close> is \<open>start.elapsed()\<close> there, in nanoseconds. \<open>None\<close> while the command
  still polls.
\<close>

definition poll_round :: "libraries \<Rightarrow> WaitArgs \<Rightarrow> string + answer \<Rightarrow> nat \<Rightarrow> unit command_outcome option" where
  "poll_round lib args answered elapsed =
     (case answered of
        Inl e \<Rightarrow> Some ([], Inl (Http e))
      | Inr a \<Rightarrow>
          if \<not> is_success (fst a) then Some (print_json_response lib a)
          else
            (case decode_answer (lb_decode_status lib) a of
               Inl e \<Rightarrow> Some ([], Inl e)
             | Inr payload \<Rightarrow>
                 if is_terminal (ts_status payload) then Some ([lb_pretty lib payload], Inr ())
                 else if is_some_and (wr_timeout_ms args) (\<lambda>timeout. millis timeout \<le> elapsed)
                 then Some ([], Inl (Internal ''wait timeout exceeded''))
                 else None))"

text \<open>
  A round: the answer to its request, the time until its body was decoded, and the time the sleep
  after it took. The client sets no timeout on a request, so that a round may take any time. The loop
  gives the time at which it ends with the outcome; it is \<open>None\<close> while a request is not answered, that
  is when the rounds are used up.
\<close>

type_synonym poll = "(string + answer) \<times> nat \<times> nat"

fun poll_loop :: "libraries \<Rightarrow> WaitArgs \<Rightarrow> nat \<Rightarrow> poll list \<Rightarrow> (nat \<times> unit command_outcome) option" where
  "poll_loop lib args now [] = None"
| "poll_loop lib args now ((answered, took, slept) # rounds) =
     (case poll_round lib args answered (now + took) of
        Some outcome \<Rightarrow> Some (now + took, outcome)
      | None \<Rightarrow> poll_loop lib args (now + took + slept) rounds)"

definition wait_remote :: "libraries \<Rightarrow> WaitArgs \<Rightarrow> poll list \<Rightarrow> unit command_outcome option" where
  "wait_remote lib args rounds = map_option snd (poll_loop lib args 0 rounds)"

definition run_remote ::
    "libraries \<Rightarrow> (string \<Rightarrow> string + string) \<Rightarrow> (remote_request \<Rightarrow> string + answer) \<Rightarrow> RemoteTaskArgs \<Rightarrow>
     (string \<Rightarrow> poll list) \<Rightarrow> unit command_outcome option" where
  "run_remote lib read send args polls =
     (case load_request lib read args of
        Inl e \<Rightarrow> Some ([], Inl e)
      | Inr request \<Rightarrow>
          (case send (submit_request (ra_server args) request) of
             Inl e \<Rightarrow> Some ([], Inl (Http e))
           | Inr a \<Rightarrow>
               if \<not> is_success (fst a) then Some (print_json_response lib a)
               else
                 (case decode_answer (lb_decode_submitted lib) a of
                    Inl e \<Rightarrow> Some ([], Inl e)
                  | Inr payload \<Rightarrow>
                      wait_remote lib
                        \<lparr>wr_server = ra_server args, wr_task_id = sr_task_id payload,
                         wr_timeout_ms = ra_timeout_ms args, wr_poll_interval_ms = ra_poll_interval_ms args\<rparr>
                        (polls (sr_task_id payload)))))"

subsection \<open>What waiting guarantees\<close>

lemma poll_round_late:
  "wr_timeout_ms args = Some timeout \<Longrightarrow> millis timeout \<le> elapsed \<Longrightarrow> poll_round lib args answered elapsed \<noteq> None"
  by (simp add: poll_round_def split: sum.split)

text \<open>A task that has been seen to end: a successful answer whose payload is terminal.\<close>

definition seen_over :: "libraries \<Rightarrow> poll \<Rightarrow> TaskStatusResponse \<Rightarrow> bool" where
  "seen_over lib p payload =
     (case fst p of
        Inl _ \<Rightarrow> False
      | Inr a \<Rightarrow> is_success (fst a) \<and> decode_answer (lb_decode_status lib) a = Inr payload \<and>
                 is_terminal (ts_status payload))"

lemma poll_round_success:
  "poll_round lib args answered elapsed = Some (out, Inr u) \<Longrightarrow>
   \<exists>payload. seen_over lib (answered, pace) payload \<and> out = [lb_pretty lib payload]"
  by (auto simp: poll_round_def seen_over_def print_json_response_def split: sum.splits if_splits)

lemma poll_loop_success:
  "poll_loop lib args now rounds = Some (t, out, Inr u) \<Longrightarrow>
   \<exists>p \<in> set rounds. \<exists>payload. seen_over lib p payload \<and> out = [lb_pretty lib payload]"
proof (induction lib args now rounds rule: poll_loop.induct)
  case (2 lib args now answered took slept rounds)
  then show ?case
    using poll_round_success [of lib args answered "now + took" out u "(took, slept)"]
    by (auto split: option.splits)
qed simp

lemma wait_remote_success:
  "wait_remote lib args rounds = Some (out, Inr u) \<Longrightarrow>
   \<exists>p \<in> set rounds. \<exists>payload. seen_over lib p payload \<and> out = [lb_pretty lib payload]"
  by (auto simp: wait_remote_def dest: poll_loop_success)

text \<open>The error of the timeout, which nothing else gives.\<close>

definition gave_up :: "unit command_outcome \<Rightarrow> bool" where
  "gave_up outcome = (snd outcome = Inl (Internal ''wait timeout exceeded''))"

lemma poll_round_gave_up:
  "poll_round lib args answered elapsed = Some outcome \<Longrightarrow> gave_up outcome \<Longrightarrow>
   \<exists>timeout. wr_timeout_ms args = Some timeout \<and> millis timeout \<le> elapsed"
  by (auto simp: poll_round_def gave_up_def print_json_response_def decode_answer_def is_some_and_def
      split: sum.splits if_splits option.splits)

lemma poll_loop_gave_up:
  "poll_loop lib args now rounds = Some (t, outcome) \<Longrightarrow> gave_up outcome \<Longrightarrow>
   \<exists>timeout. wr_timeout_ms args = Some timeout \<and> millis timeout \<le> t"
proof (induction lib args now rounds rule: poll_loop.induct)
  case (2 lib args now answered took slept rounds)
  then show ?case
    using poll_round_gave_up [of lib args answered "now + took" outcome]
    by (auto split: option.splits)
qed simp

text \<open>
  Rounds whose requests take at most \<open>r\<close> and whose sleeps take at least the interval, as that of
  \<open>tokio\<close> does, and at most \<open>s\<close>.
\<close>

definition paced :: "WaitArgs \<Rightarrow> nat \<Rightarrow> nat \<Rightarrow> poll list \<Rightarrow> bool" where
  "paced args r s = list_all (\<lambda>(_, took, slept). took \<le> r \<and> millis (wr_poll_interval_ms args) \<le> slept \<and> slept \<le> s)"

lemma poll_loop_ends:
  assumes "wr_timeout_ms args = Some timeout" "paced args r s rounds" "rounds \<noteq> []"
    and "millis timeout \<le> now + length (tl rounds) * millis (wr_poll_interval_ms args)" "now \<le> millis timeout + s"
  shows "\<exists>t outcome. poll_loop lib args now rounds = Some (t, outcome) \<and> t \<le> millis timeout + s + r"
  using assms(2-)
proof (induction rounds arbitrary: now)
  case (Cons p rounds)
  obtain answered took slept where p: "p = (answered, took, slept)" by (cases p)
  show ?case
  proof (cases "poll_round lib args answered (now + took)")
    case None
    then have early: "now + took < millis timeout"
      using poll_round_late [OF assms(1), of "now + took" lib answered] by fastforce
    then have more: "rounds \<noteq> []" using Cons.prems(3) by (cases rounds) auto
    then obtain second rest where "rounds = second # rest" by (cases rounds) auto
    then have "millis timeout \<le> now + took + slept + length (tl rounds) * millis (wr_poll_interval_ms args)"
      using Cons.prems(1,3) by (simp add: p paced_def)
    then show ?thesis
      using Cons.IH [of "now + took + slept"] Cons.prems(1) more early None by (simp add: p paced_def)
  qed (use Cons.prems(1,4) in \<open>simp add: p paced_def\<close>)
qed simp

text \<open>
  C38: Waiting ends and does not lie: while every request is answered, within a time of \<open>r\<close>, and no
  sleep takes longer than \<open>s\<close>, a command with a timeout returns at the latest one sleep and one
  request after the timeout, having sent at most one request more than the intervals that fit in it;
  it returns successfully only when the server answered that the task is over, having printed
  exactly that answer; and it gives up only when the timeout has passed. The client sets no timeout
  on its requests: of one that is never answered nothing is stated.
\<close>

theorem waiting_ends_truthfully:
  assumes "wr_timeout_ms args = Some timeout" "paced args r s (first # rounds)"
    and "millis timeout \<le> length rounds * millis (wr_poll_interval_ms args)"
  shows "\<exists>t outcome. poll_loop lib args 0 (first # rounds) = Some (t, outcome) \<and>
     wait_remote lib args (first # rounds) = Some outcome \<and> t \<le> millis timeout + s + r \<and>
     (case snd outcome of
        Inr _ \<Rightarrow> \<exists>p \<in> set (first # rounds). \<exists>payload. seen_over lib p payload \<and> fst outcome = [lb_pretty lib payload]
      | Inl _ \<Rightarrow> gave_up outcome \<longrightarrow> millis timeout \<le> t)"
proof -
  obtain t outcome where run: "poll_loop lib args 0 (first # rounds) = Some (t, outcome)" "t \<le> millis timeout + s + r"
    using poll_loop_ends [OF assms(1), of r s "first # rounds" 0 lib] assms(2,3) by auto
  then show ?thesis
    using poll_loop_success [of lib args 0 "first # rounds" t "fst outcome"] poll_loop_gave_up [OF run(1)] assms(1)
    by (cases outcome) (auto simp: wait_remote_def split: sum.split)
qed

definition sample_libraries :: "TaskStatusResponse \<Rightarrow> libraries" where
  "sample_libraries payload =
     \<lparr>lb_decode_request = (\<lambda>_. Inl ''e''), lb_decode_status = (\<lambda>_. Inr payload), lb_decode_submitted = (\<lambda>_. Inl ''e''),
      lb_pretty = (\<lambda>_. ''p''), lb_show_status = show_nat\<rparr>"

text \<open>A task that runs on, polled every millisecond with a timeout of two.\<close>

definition sample_wait :: WaitArgs where
  "sample_wait = \<lparr>wr_server = ''s'', wr_task_id = ''t1'', wr_timeout_ms = Some 2, wr_poll_interval_ms = 1\<rparr>"

definition sample_poll :: poll where
  "sample_poll = (Inr (200, Inr ''b''), 1000, 1000500)"

theorem waiting_ends_truthfully_witness:
  "\<exists>payload. get_task_status (\<lambda>_. None) 9 ''t1'' \<lparr>wd_repo = run_history sample_history, wd_files = no_files\<rparr> = Inr payload \<and>
     (\<exists>t. poll_loop (sample_libraries payload) sample_wait 0 [sample_poll, sample_poll, sample_poll] =
        Some (t, [], Inl (Internal ''wait timeout exceeded'')) \<and> 2000000 \<le> t \<and> t \<le> 3001500)"
proof -
  let ?st = "get_task_status (\<lambda>_. None) 9 ''t1'' \<lparr>wd_repo = run_history sample_history, wd_files = no_files\<rparr>"
  have "case ?st of Inl _ \<Rightarrow> False | Inr payload \<Rightarrow> ts_status payload = Running" by code_simp
  then obtain payload where payload: "?st = Inr payload" "ts_status payload = Running"
    by (auto split: sum.splits)
  let ?run = "poll_loop (sample_libraries payload) sample_wait 0 [sample_poll, sample_poll, sample_poll]"
  have args: "wr_timeout_ms sample_wait = Some 2" "millis 2 \<le> length [sample_poll, sample_poll] * millis (wr_poll_interval_ms sample_wait)"
    and paced: "paced sample_wait 1000 1000500 [sample_poll, sample_poll, sample_poll]"
    by (simp_all add: sample_wait_def sample_poll_def paced_def millis_def)
  have running: "\<not> seen_over (sample_libraries payload) p payload'" for p payload'
    using payload(2) by (auto simp: seen_over_def sample_libraries_def decode_answer_def split: sum.splits)
  obtain t outcome where run: "?run = Some (t, outcome)" "t \<le> millis 2 + 1000500 + 1000"
    and claim: "case snd outcome of Inr _ \<Rightarrow> False | Inl _ \<Rightarrow> gave_up outcome \<longrightarrow> millis 2 \<le> t"
    using waiting_ends_truthfully [OF args(1) paced args(2), where lib = "sample_libraries payload"]
    by (simp only: running simp_thms bex_triv) blast
  have "outcome = ([], Inl (Internal ''wait timeout exceeded''))"
    using run(1) payload(2)
    by (simp add: poll_round_def sample_libraries_def sample_wait_def sample_poll_def decode_answer_def is_success_def
        millis_def is_some_and_def split: if_splits)
  with payload(1) run claim show ?thesis by (auto simp: gave_up_def millis_def)
qed

end
