(* ===== verification/Threads.thy ===== *)
theory Threads
  imports Prelude
begin

section \<open>Threads: programs that run one atomic action at a time\<close>

text \<open>
  The server runs its requests and loops concurrently, and every task has a shim process of its own;
  they share the database, one transaction at a time. A thread is what is left of its program: an
  action on the shared state that yields the rest, or a result. The rest may depend on what the
  action read, so that a thread acts on what it knew.
\<close>

datatype (dead 's, 'a) act = Return 'a | Atomic "'s \<Rightarrow> 's \<times> ('s, 'a) act"

lemma act_induct [case_names Return Atomic]:
  assumes "\<And>a. P (Return a)" "\<And>f. (\<And>s. P (snd (f s))) \<Longrightarrow> P (Atomic f)"
  shows "P p"
proof (induction p)
  case (Atomic f)
  then have "P (snd (f s))" for s by (meson rangeI snds.intros)
  then show ?case by (rule assms(2))
qed (rule assms(1))

primrec act_bind :: "('s, 'a) act \<Rightarrow> ('a \<Rightarrow> ('s, 'b) act) \<Rightarrow> ('s, 'b) act" where
  "act_bind (Return a) k = k a"
| "act_bind (Atomic f) k = Atomic (\<lambda>s. map_prod id (\<lambda>p. act_bind p k) (f s))"

text \<open>A thread that runs alone.\<close>

primrec run_act :: "('s, 'a) act \<Rightarrow> 's \<Rightarrow> 's \<times> 'a" where
  "run_act (Return a) = (\<lambda>s. (s, a))"
| "run_act (Atomic f) = (\<lambda>s. case map_prod id run_act (f s) of (s', r) \<Rightarrow> r s')"

lemma run_act_bind: "run_act (act_bind p k) s = (case run_act p s of (s', a) \<Rightarrow> run_act (k a) s')"
  by (induction p arbitrary: s rule: act_induct) (simp_all add: case_prod_beta)

subsection \<open>Actions on a part of the state\<close>

text \<open>
  The operations of the model act on the state of their component: \<open>get\<close> builds it from the shared
  state and what the thread keeps for itself, \<open>put\<close> stores the shared part and \<open>own\<close> is what the
  thread keeps. A program of a component returns what it keeps along with its result.
\<close>

definition focus ::
    "('m \<Rightarrow> 'l \<Rightarrow> 'x) \<Rightarrow> ('x \<Rightarrow> 'm \<Rightarrow> 'm) \<Rightarrow> ('x \<Rightarrow> 'l) \<Rightarrow> ('x \<Rightarrow> 'x \<times> 'r) \<Rightarrow> 'l \<Rightarrow> ('m, 'l \<times> 'r) act" where
  "focus get put own f l = Atomic (\<lambda>m. case f (get m l) of (x, r) \<Rightarrow> (put x m, Return (own x, r)))"

definition act_then ::
    "('m, 'l \<times> ('e + 'a)) act \<Rightarrow> ('a \<Rightarrow> 'l \<Rightarrow> ('m, 'l \<times> ('e + 'b)) act) \<Rightarrow> ('m, 'l \<times> ('e + 'b)) act" where
  "act_then p k = act_bind p (\<lambda>(l, r). case r of Inl e \<Rightarrow> Return (l, Inl e) | Inr a \<Rightarrow> k a l)"

text \<open>What a thread that runs alone is to do: the operation of its component, on its part of the state.\<close>

definition focused ::
    "('m \<Rightarrow> 'l \<Rightarrow> 'x) \<Rightarrow> ('x \<Rightarrow> 'm \<Rightarrow> 'm) \<Rightarrow> ('x \<Rightarrow> 'l) \<Rightarrow> ('x \<Rightarrow> 'x \<times> 'r) \<Rightarrow> 'l \<Rightarrow> 'm \<Rightarrow> 'm \<times> ('l \<times> 'r)" where
  "focused get put own f l m = (case f (get m l) of (x, r) \<Rightarrow> (put x m, (own x, r)))"

locale part =
  fixes get :: "'m \<Rightarrow> 'l \<Rightarrow> 'x" and put :: "'x \<Rightarrow> 'm \<Rightarrow> 'm" and own :: "'x \<Rightarrow> 'l"
  assumes get_put: "get (put x m) (own x) = x"
    and put_put: "put y (put x m) = put y m"
    and put_get: "put (get m l) m = m"
    and own_get: "own (get m l) = l"
begin

lemma run_focus: "run_act (focus get put own f l) m = focused get put own f l m"
  by (simp add: focus_def focused_def split: prod.split)

lemma focused_return: "focused get put own (\<lambda>x. (x, r)) l m = (m, (l, r))"
  by (simp add: focused_def put_get own_get)

text \<open>
  A program in sequence with another is the operations in sequence; the second may depend on what
  the thread keeps.
\<close>

lemma run_then:
  assumes "run_act p m = focused get put own F l m"
    and "\<And>a x m. run_act (k a (own x)) (put x m) = focused get put own (\<lambda>x. G x a) (own x) (put x m)"
  shows "run_act (act_then p k) m = focused get put own (\<lambda>x. and_then (F x) G) l m"
proof -
  obtain x r where F: "F (get m l) = (x, r)" by (cases "F (get m l)")
  show ?thesis
    using assms(2) [of _ x m]
    by (cases r) (simp_all add: act_then_def run_act_bind assms(1) focused_def F get_put put_put)
qed

end

subsection \<open>What a thread may do\<close>

text \<open>Every action of the thread is related by \<open>R\<close> to the state before it, whatever the others do.\<close>

primrec acts :: "('s \<Rightarrow> 's \<Rightarrow> bool) \<Rightarrow> ('s, 'a) act \<Rightarrow> bool" where
  "acts R (Return a) = True"
| "acts R (Atomic f) = (\<forall>s. case map_prod id (acts R) (f s) of (s', b) \<Rightarrow> R s s' \<and> b)"

lemma acts_Atomic: "acts R (Atomic f) \<longleftrightarrow> (\<forall>s. R s (fst (f s)) \<and> acts R (snd (f s)))"
  by (simp add: case_prod_beta)

declare acts.simps(2) [simp del] acts_Atomic [simp]

lemma acts_bind: "acts R p \<Longrightarrow> (\<And>a. acts R (k a)) \<Longrightarrow> acts R (act_bind p k)"
  by (induction p rule: act_induct) simp_all

lemma acts_then: "acts R p \<Longrightarrow> (\<And>a l. acts R (k a l)) \<Longrightarrow> acts R (act_then p k)"
  by (auto simp: act_then_def intro!: acts_bind split: sum.split)

lemma acts_focus: "(\<And>m. R m (put (fst (f (get m l))) m)) \<Longrightarrow> acts R (focus get put own f l)"
  by (simp add: focus_def case_prod_beta)

lemma acts_mono: "acts R p \<Longrightarrow> (\<And>s t. R s t \<Longrightarrow> R' s t) \<Longrightarrow> acts R' p"
  by (induction p rule: act_induct) simp_all

text \<open>What a thread may end with.\<close>

primrec yields :: "('a \<Rightarrow> bool) \<Rightarrow> ('s, 'a) act \<Rightarrow> bool" where
  "yields Q (Return a) = Q a"
| "yields Q (Atomic f) = (\<forall>s. snd (map_prod id (yields Q) (f s)))"

lemma yields_bind: "yields Q p \<Longrightarrow> (\<And>a. Q a \<Longrightarrow> yields Q' (k a)) \<Longrightarrow> yields Q' (act_bind p k)"
  by (induction p rule: act_induct) simp_all

lemma yields_any: "(\<And>a. Q a) \<Longrightarrow> yields Q p"
  by (induction p rule: act_induct) simp_all

lemma acts_bind_yields:
  "acts R p \<Longrightarrow> yields Q p \<Longrightarrow> (\<And>a. Q a \<Longrightarrow> acts R (k a)) \<Longrightarrow> acts R (act_bind p k)"
  by (induction p rule: act_induct) simp_all

text \<open>
  A thread among others: the others change the state by \<open>R\<close> at any moment, each action of the thread
  changes it by \<open>G\<close>, and the thread ends with a result for which \<open>Q\<close> holds. The predicate looks at the
  program and at a state.
\<close>

primrec safe :: "('s \<Rightarrow> 's \<Rightarrow> bool) \<Rightarrow> ('s \<Rightarrow> 's \<Rightarrow> bool) \<Rightarrow> ('a \<Rightarrow> 's \<Rightarrow> bool) \<Rightarrow> ('s, 'a) act \<Rightarrow> 's \<Rightarrow> bool" where
  "safe R G Q (Return a) = (\<lambda>s. \<forall>s'. R s s' \<longrightarrow> Q a s')"
| "safe R G Q (Atomic f) = (\<lambda>s. \<forall>s'. R s s' \<longrightarrow>
     (case map_prod id (safe R G Q) (f s') of (t, b) \<Rightarrow> G s' t \<and> b t))"

lemma safe_Atomic:
  "safe R G Q (Atomic f) s \<longleftrightarrow> (\<forall>s'. R s s' \<longrightarrow> G s' (fst (f s')) \<and> safe R G Q (snd (f s')) (fst (f s')))"
  by (simp add: case_prod_beta)

declare safe.simps(2) [simp del] safe_Atomic [simp]

lemma safe_post: "safe R G Q p s \<Longrightarrow> (\<And>a s. Q a s \<Longrightarrow> Q' a s) \<Longrightarrow> safe R G Q' p s"
  by (induction p arbitrary: s rule: act_induct) simp_all

text \<open>What the others do is closed under repetition.\<close>

locale interference =
  fixes R :: "'s \<Rightarrow> 's \<Rightarrow> bool"
  assumes refl: "R s s" and trans: "R s t \<Longrightarrow> R t u \<Longrightarrow> R s u"
begin

lemma safe_stable: "safe R G Q p s \<Longrightarrow> R s t \<Longrightarrow> safe R G Q p t"
  by (cases p) (auto intro: trans)

lemma safe_bind:
  "safe R G Q p s \<Longrightarrow> (\<And>a s. Q a s \<Longrightarrow> safe R G Q' (k a) s) \<Longrightarrow> safe R G Q' (act_bind p k) s"
proof (induction p arbitrary: s rule: act_induct)
  case (Return a)
  then show ?case by (simp add: refl)
next
  case (Atomic f)
  have "safe R G Q' (act_bind (snd (f s')) k) (fst (f s'))" if "R s s'" for s'
    by (rule Atomic.IH) (use Atomic.prems that in simp_all)
  with Atomic.prems(1) show ?case by simp
qed

lemma safe_step: "safe R G Q (Atomic f) s \<Longrightarrow> G s (fst (f s)) \<and> safe R G Q (snd (f s)) (fst (f s))"
  by (simp add: refl)

text \<open>
  The common case: an assertion before the action and one after it, both kept by the others; the
  second is about the result when there is one.
\<close>

lemma safe_focus:
  assumes "P0 s" "\<And>s s'. P0 s \<Longrightarrow> R s s' \<Longrightarrow> P0 s'"
    and "\<And>s. P0 s \<Longrightarrow> G s (put (fst (f (get s l))) s)"
    and "\<And>s a. P0 s \<Longrightarrow> snd (f (get s l)) = Inr a \<Longrightarrow> P (own (fst (f (get s l)))) a (put (fst (f (get s l))) s)"
    and "\<And>l a s s'. P l a s \<Longrightarrow> R s s' \<Longrightarrow> P l a s'"
  shows "safe R G (\<lambda>(l, r) s. \<forall>a. r = Inr a \<longrightarrow> P l a s) (focus get put own f l) s"
proof -
  have "G s' (put (fst (f (get s' l))) s')"
    "snd (f (get s' l)) = Inr a \<Longrightarrow> R (put (fst (f (get s' l))) s') t \<Longrightarrow> P (own (fst (f (get s' l)))) a t"
    if "R s s'" for s' a t
    using assms(2) [OF assms(1) that] assms(3,4) assms(5) by blast+
  then show ?thesis by (simp add: focus_def case_prod_beta)
qed

lemma safe_then:
  assumes "safe R G (\<lambda>(l, r) s. \<forall>a. r = Inr a \<longrightarrow> P l a s) p s"
    and "\<And>l a s. P l a s \<Longrightarrow> safe R G (\<lambda>(l, r) s. \<forall>a. r = Inr a \<longrightarrow> P' l a s) (k a l) s"
  shows "safe R G (\<lambda>(l, r) s. \<forall>a. r = Inr a \<longrightarrow> P' l a s) (act_then p k) s"
  unfolding act_then_def
  by (rule safe_bind [OF assms(1)]) (auto simp: assms(2) split: sum.split)

text \<open>A thread that itself does no more than the others keeps what they keep.\<close>

lemma safe_acts:
  assumes "acts R p" "P s" "\<And>s t. P s \<Longrightarrow> R s t \<Longrightarrow> P t" "\<And>s t. P t \<Longrightarrow> G s t"
  shows "safe R G (\<lambda>_. P) p s"
  using assms(1,2)
proof (induction p arbitrary: s rule: act_induct)
  case (Return a)
  then show ?case using assms(3) by simp
next
  case (Atomic f)
  have "G t (fst (f t)) \<and> safe R G (\<lambda>_. P) (snd (f t)) (fst (f t))" if "R s t" for t
  proof -
    have "P (fst (f t))" using Atomic.prems that assms(3) acts_Atomic [of R f] by blast
    then show ?thesis using Atomic.IH [of t "fst (f t)"] Atomic.prems(1) assms(4) by simp
  qed
  then show ?case by simp
qed

text \<open>What both the others and the thread itself keep may be added to the assertion at its end.\<close>

lemma safe_invariant:
  assumes "safe R G P p s" "acts K p" "I s"
    and "\<And>s t. I s \<Longrightarrow> R s t \<Longrightarrow> I t" "\<And>s t. I s \<Longrightarrow> K s t \<Longrightarrow> I t"
  shows "safe R G (\<lambda>a s. P a s \<and> I s) p s"
  using assms(1,2,3)
proof (induction p arbitrary: s rule: act_induct)
  case (Return a)
  then show ?case using assms(4) by auto
next
  case (Atomic f)
  have "safe R G (\<lambda>a s. P a s \<and> I s) (snd (f t)) (fst (f t))" if "R s t" for t
  proof (rule Atomic.IH)
    show "safe R G P (snd (f t)) (fst (f t))" "acts K (snd (f t))" using Atomic.prems(1,2) that by simp_all
    have "I t" by (rule assms(4) [OF Atomic.prems(3) that])
    then show "I (fst (f t))" using Atomic.prems(2) assms(5) by simp
  qed
  with Atomic.prems(1) show ?case by simp
qed

lemma safe_focus_any:
  assumes "P0 s" "\<And>s t. P0 s \<Longrightarrow> R s t \<Longrightarrow> P0 t" "\<And>s t. P s \<Longrightarrow> R s t \<Longrightarrow> P t"
    and "\<And>s t. P t \<Longrightarrow> G s t" "\<And>s. P0 s \<Longrightarrow> P (put (fst (f (get s l))) s)"
  shows "safe R G (\<lambda>_. P) (focus get put own f l) s"
proof -
  have "P (put (fst (f (get t l))) t)" if "R s t" for t
    using assms(2) [OF assms(1) that] assms(5) by blast
  then show ?thesis using assms(3,4) by (auto simp: focus_def case_prod_beta)
qed

lemma safe_then_any:
  assumes "safe R G (\<lambda>_. P) p s" "\<And>s t. P s \<Longrightarrow> R s t \<Longrightarrow> P t" "\<And>s. P s \<Longrightarrow> P' s"
    and "\<And>l a s. P s \<Longrightarrow> safe R G (\<lambda>_. P') (k a l) s"
  shows "safe R G (\<lambda>_. P') (act_then p k) s"
  unfolding act_then_def
  by (rule safe_bind [OF assms(1)]) (use assms(2,3,4) in \<open>auto split: sum.split\<close>)

end

end
