(* ===== verification/Submission.thy ===== *)
theory Submission
  imports Service
begin

section \<open>Submission: what a client can rely on when a task is accepted or refused\<close>

text \<open>
  The outcome of a submission on every branch, and that an accepted task is one an idle dispatcher
  starts in its next cycle.
\<close>

subsection \<open>Frame\<close>

lemma in_service_fields [simp]:
  "sx_signals (fst (in_service f sx)) = sx_signals sx"
  "sx_escalations (fst (in_service f sx)) = sx_escalations sx"
  "sx_notified (fst (in_service f sx)) = sx_notified sx"
  "sx_world (fst (in_service f sx)) = fst (f (sx_world sx))"
  "snd (in_service f sx) = snd (f (sx_world sx))"
  by (simp_all add: in_service_def case_prod_beta)

lemma on_files_fields [simp]:
  "wd_files (fst (on_files f w)) = fst (f (wd_files w))" "snd (on_files f w) = snd (f (wd_files w))"
  by (simp_all add: on_files_def case_prod_beta)

lemma wd_files_on_repo [simp]: "wd_files (fst (on_repo f w)) = wd_files w"
  by (simp add: on_repo_def case_prod_beta)

lemma notify_fields [simp]:
  "sx_world (notify_dispatcher sx) = sx_world sx" "sx_signals (notify_dispatcher sx) = sx_signals sx"
  "sx_notified (notify_dispatcher sx)"
  by (simp_all add: notify_dispatcher_def)

subsection \<open>The files of a new task\<close>

lemma access_Inr: "access faults path effect fs = (fs', Inr u) \<Longrightarrow> fs' = effect fs"
  by (simp add: access_def split: option.splits)

lemma create_dir_all_keeps:
  "create_dir_all faults path fs = (fs', Inr u) \<Longrightarrow> fl_request fs' = fl_request fs \<and> fl_output fs' = fl_output fs"
  by (auto simp: create_dir_all_def access_def split: option.splits if_splits)

lemma create_parent_keeps:
  "create_parent faults path fs = (fs', Inr u) \<Longrightarrow> fl_request fs' = fl_request fs \<and> fl_output fs' = fl_output fs"
  by (auto simp: create_parent_def dest: create_dir_all_keeps split: option.splits)

lemma write_request_file_stores:
  "write_request_file faults path request fs = (fs', Inr u) \<Longrightarrow>
   fl_request fs' path = Some request \<and> fl_output fs' = fl_output fs"
  by (auto simp: write_request_file_def and_then_eq_Inr dest!: access_Inr create_parent_keeps)

lemma touch_file_keeps:
  "touch_file faults path fs = (fs', Inr u) \<Longrightarrow>
   fl_request fs' = fl_request fs \<and> fl_output fs' path \<noteq> None \<and>
   (\<forall>p out. fl_output fs p = Some out \<longrightarrow> fl_output fs' p = Some out)"
  by (auto simp: touch_file_def and_then_eq_Inr dest!: access_Inr create_parent_keeps)

lemma prepare_task_files_stores:
  assumes "prepare_task_files faults n fs = (fs', Inr u)"
  shows "fl_request fs' (nt_request_path n) = Some (nt_request n) \<and>
    fl_output fs' (nt_stdout_path n) \<noteq> None \<and> fl_output fs' (nt_stderr_path n) \<noteq> None"
proof -
  obtain fs1 fs2 fs3 fs4 where
    "create_dir_all faults (nt_workspace_dir n) fs = (fs1, Inr ())"
    "create_dir_all faults (nt_task_dir n) fs1 = (fs2, Inr ())"
    and request: "write_request_file faults (nt_request_path n) (nt_request n) fs2 = (fs3, Inr ())"
    and out: "touch_file faults (nt_stdout_path n) fs3 = (fs4, Inr ())"
    and err: "touch_file faults (nt_stderr_path n) fs4 = (fs', Inr u)"
    using assms by (auto simp: prepare_task_files_def and_then_eq_Inr)
  then show ?thesis
    using write_request_file_stores [OF request] touch_file_keeps [OF out] touch_file_keeps [OF err] by auto
qed

subsection \<open>The checks\<close>

lemma check_submission_ok:
  "(check_submission settings l caps request = Inr plan) =
     (validate_request request = Inr () \<and>
      resolve_execution_plan request caps (se_default_capability_mode settings) = Inr plan \<and>
      ensure_within_capacity l (from_limits (rq_limits request)) = Inr () \<and>
      ensure_within_tenant_quota l (Option.bind (rq_control_context request) cc_tenant)
        (from_limits (rq_limits request)) = Inr ())"
  by (auto simp: check_submission_def res_bind_eq_Inr Let_def)

text \<open>The task a submission stores, for a plan and a workspace.\<close>

abbreviation submitted_id :: "submit_host \<Rightarrow> SubmitTaskRequest \<Rightarrow> string" where
  "submitted_id host request \<equiv> unwrap_or (rq_task_id request) (sb_generated_id host)"

abbreviation stored_repo :: "service \<Rightarrow> repo" where
  "stored_repo sx \<equiv> wd_repo (sx_world sx)"

lemma store_submission:
  fixes n clk faults and sx :: service and resp :: SubmitTaskResponse
  defines "run \<equiv> and_then (in_service (on_files (prepare_task_files faults n)) sx) (\<lambda>sx _.
                  and_then (in_service (on_repo (insert_task n clk)) sx) (\<lambda>sx _. (notify_dispatcher sx, Inr resp)))"
  obtains (refused) sx' e where "run = (sx', Inl e)" "stored_repo sx' = stored_repo sx"
      "sx_notified sx' = sx_notified sx" "sx_signals sx' = sx_signals sx"
  | (stored) sx' where "run = (sx', Inr resp)" "insert_task n clk (stored_repo sx) = (stored_repo sx', Inr ())"
      "fl_request (wd_files (sx_world sx')) (nt_request_path n) = Some (nt_request n)"
      "sx_notified sx'" "sx_signals sx' = sx_signals sx"
proof -
  let ?m = "in_service (on_files (prepare_task_files faults n)) sx"
  obtain sx1 r1 where m: "?m = (sx1, r1)" by (cases ?m)
  have f1: "stored_repo sx1 = stored_repo sx" "sx_notified sx1 = sx_notified sx" "sx_signals sx1 = sx_signals sx"
    "prepare_task_files faults n (wd_files (sx_world sx)) = (wd_files (sx_world sx1), r1)"
    using in_service_fields [of "on_files (prepare_task_files faults n)" sx] by (simp_all add: m prod_eq_iff)
  show thesis
  proof (cases r1)
    case (Inl e)
    then show thesis using f1 by (intro refused [of sx1 e]) (simp_all add: run_def m)
  next
    case r1: (Inr u)
    let ?k = "in_service (on_repo (insert_task n clk)) sx1"
    obtain sx2 r2 where k: "?k = (sx2, r2)" by (cases ?k)
    have f2: "insert_task n clk (stored_repo sx) = (stored_repo sx2, r2)"
      "sx_notified sx2 = sx_notified sx" "sx_signals sx2 = sx_signals sx"
      "wd_files (sx_world sx2) = wd_files (sx_world sx1)"
      using in_service_fields [of "on_repo (insert_task n clk)" sx1] f1 by (simp_all add: k prod_eq_iff)
    show thesis
    proof (cases r2)
      case (Inl e)
      then have "stored_repo sx2 = stored_repo sx" using f2(1) by (auto simp: insert_task_eq split: option.splits)
      then show thesis using Inl f2 by (intro refused [of sx2 e]) (simp_all add: run_def m r1 k)
    next
      case (Inr u2)
      then show thesis using f2 prepare_task_files_stores [OF f1(4) [unfolded r1]]
        by (intro stored [of "notify_dispatcher sx2"]) (simp_all add: run_def m r1 k)
    qed
  qed
qed

text \<open>The two outcomes of a submission.\<close>

definition refused :: "service \<Rightarrow> service \<Rightarrow> bool" where
  "refused sx sx' =
     (stored_repo sx' = stored_repo sx \<and> sx_notified sx' = sx_notified sx \<and> sx_signals sx' = sx_signals sx)"

lemma submit_task_cases:
  obtains (refused) sx' e where "submit_task settings l caps host request sx = (sx', Inl e)" "refused sx sx'"
  | (stored) sx' plan ws where
      "submit_task settings l caps host request sx =
         (sx', Inr \<lparr>sr_task_id = submitted_id host request, sr_handle_id = submitted_id host request,
                   sr_status = Accepted\<rparr>)"
      "check_submission settings l caps request = Inr plan"
      "count_accepted (stored_repo sx) < unat (se_max_queued_tasks settings)"
      "insert_task (new_task_record settings (submitted_id host request) request plan ws)
         (sb_insert_clock host) (stored_repo sx) = (stored_repo sx', Inr ())"
      "fl_request (wd_files (sx_world sx')) (path_join (path_join (se_tasks_dir settings)
         (submitted_id host request)) ''request.json'') = Some request"
      "sx_notified sx'" "sx_signals sx' = sx_signals sx"
proof (cases "check_submission settings l caps request")
  case (Inl e)
  then show thesis by (intro refused [of sx e]) (simp_all add: submit_task_def refused_def)
next
  case check: (Inr plan)
  let ?i = "submitted_id host request"
  show thesis
  proof (cases "unat (se_max_queued_tasks settings) \<le> count_accepted (stored_repo sx)")
    case True
    then show thesis by (intro refused [of sx QueueFull]) (simp_all add: submit_task_def check refused_def)
  next
    case queue: False
    show thesis
    proof (cases "resolve_workspace_dir (path_join (se_tasks_dir settings) ?i) (rq_sandbox request)")
      case (Inl e)
      then show thesis by (intro refused [of sx e]) (simp_all add: submit_task_def check queue Let_def refused_def)
    next
      case ws: (Inr ws)
      let ?n = "new_task_record settings ?i request plan ws"
      have n: "nt_request_path ?n = path_join (path_join (se_tasks_dir settings) ?i) ''request.json''"
        "nt_request ?n = request"
        by (simp_all add: new_task_record_def Let_def)
      note unfold = submit_task_def check queue ws Let_def
      show thesis
      proof (cases rule: store_submission [of "sb_faults host" ?n sx "sb_insert_clock host"
            "\<lparr>sr_task_id = ?i, sr_handle_id = ?i, sr_status = Accepted\<rparr>"])
        case (refused sx' e)
        then show thesis by (intro that(1) [of sx' e]) (simp_all add: unfold refused_def)
      next
        case (stored sx')
        have room: "count_accepted (stored_repo sx) < unat (se_max_queued_tasks settings)"
          using queue by linarith
        show thesis using stored n by (intro that(2) [OF _ check room, of sx' ws]) (simp_all add: unfold)
      qed
    qed
  qed
qed

lemma stored_context: "nt_control_context (new_task_record settings i request plan ws) = rq_control_context request"
  by (simp add: new_task_record_def Let_def)

text \<open>
  C27: A submission either leaves the database, the signals and the dispatcher alone and returns an
  error, or stores exactly the task it answers with: the request passed validation and was planned,
  the task reads back as the fresh record of that request and plan under the requested or generated
  identifier, the request is on disk, the queue has grown by one and is still within its bound, and
  the dispatcher was notified.
\<close>

theorem submission_outcome:
  "case submit_task settings l caps host request sx of
     (sx', Inl e) \<Rightarrow>
       wd_repo (sx_world sx') = wd_repo (sx_world sx) \<and> sx_notified sx' = sx_notified sx \<and>
       sx_signals sx' = sx_signals sx
   | (sx', Inr resp) \<Rightarrow>
       sr_task_id resp = unwrap_or (rq_task_id request) (sb_generated_id host) \<and> sr_status resp = Accepted \<and>
       validate_request request = Inr () \<and>
       (\<exists>plan workspace_dir.
          resolve_execution_plan request caps (se_default_capability_mode settings) = Inr plan \<and>
          get_task (sr_task_id resp) (wd_repo (sx_world sx')) =
            Inr (fresh_record (new_task_record settings (sr_task_id resp) request plan workspace_dir)
                   (sb_insert_clock host 0))) \<and>
       fl_request (wd_files (sx_world sx'))
         (path_join (path_join (se_tasks_dir settings) (sr_task_id resp)) ''request.json'') = Some request \<and>
       count_accepted (wd_repo (sx_world sx')) = count_accepted (wd_repo (sx_world sx)) + 1 \<and>
       count_accepted (wd_repo (sx_world sx')) \<le> unat (se_max_queued_tasks settings) \<and> sx_notified sx'"
proof (cases rule: submit_task_cases [of settings l caps host request sx])
  case (refused sx' e)
  then show ?thesis by (simp add: refused_def)
next
  case (stored sx' plan ws)
  have id: "nt_task_id (new_task_record settings i request plan ws) = i" for i
    by (simp add: new_task_record_def Let_def)
  show ?thesis
    using inserted_record [OF stored(4)] stored by (auto simp: id check_submission_ok)
qed

subsection \<open>An accepted task starts on an idle runtime\<close>

lemma capacity_check_when_idle:
  "ensure_within_capacity l r = Inr () \<Longrightarrow> can_reserve l (reserved_capacity l []) r"
  by (simp add: ensure_within_capacity_ok can_reserve_within within_limits_def reserved_capacity_def
      fits_capacity_def)

lemma quota_check_when_idle:
  assumes "ensure_within_tenant_quota l tenant r = Inr ()"
  shows "can_reserve_for_tenant l tenant (empty_tenant_capacity l (unwrap_or tenant [])) r"
proof (cases "quota_of l tenant")
  case None
  then show ?thesis by (simp add: can_reserve_for_tenant_within)
next
  case (Some quota)
  then obtain t where t: "tenant = Some t" "tenant_quota l t = Some quota" "quota_of l (Some t) = Some quota"
    by (cases tenant) (auto simp: quota_of_def tenant_quota_def)
  have fits: "fits_capacity quota [r]"
    using assms by (simp add: ensure_within_tenant_quota_ok Some)
  show ?thesis
    using fits
    by (cases "rc_memory_bytes quota"; cases "rc_pids quota")
      (simp_all add: can_reserve_for_tenant_within t within_limits_def empty_tenant_capacity_def fits_capacity_def)
qed

lemma map_res_Nil_iff: "map_res f xs = Inr [] \<longleftrightarrow> xs = []"
  by (cases xs) (auto simp: res_bind_eq_Inr)

text \<open>The queries of the dispatcher after the first submission to an idle database.\<close>

lemma idle_queries:
  assumes "insert_task n clk s = (s', Inr ())" "count_accepted s = 0" "list_active_reservations s = Inr []"
    and "0 < unat limit"
  shows "list_active_reservations s' = Inr []" "list_accepted limit s' = Inr [fresh_record n (clk 0)]"
proof -
  have rows: "rp_tasks s' = rp_tasks s @ [new_row n (clk 0)]"
    using assms(1) by (auto simp: insert_task_eq rp_tasks_inserted split: option.splits)
  have none: "filter row_reserved (rp_tasks s) = []"
    using assms(3) by (simp add: list_active_reservations_def map_res_Nil_iff) (metis length_sort list.size(3) length_0_conv)
  show "list_active_reservations s' = Inr []"
    by (simp add: list_active_reservations_def rows none) (simp add: row_reserved_def new_row_def)
  have "filter (\<lambda>r. c_status r = ''accepted'') (rp_tasks s) = []"
    using assms(2) by (simp add: count_accepted_def count_by_status_def)
  then have "filter (\<lambda>r. c_status r = ''accepted'') (rp_tasks s') = [new_row n (clk 0)]"
    by (simp add: rows) (simp add: new_row_def)
  moreover have "sql_limit limit [new_row n (clk 0)] = [new_row n (clk 0)]"
    using assms(4) by (cases "unat limit") (simp_all add: sql_limit_def)
  ultimately show "list_accepted limit s' = Inr [fresh_record n (clk 0)]"
    by (simp add: list_accepted_def decode_new_row)
qed

text \<open>The cycle after it: the task gets its resources and is marked, and nothing else happens.\<close>

lemma idle_submission_starts:
  assumes "count_accepted (stored_repo sx) = 0" "list_active_reservations (stored_repo sx) = Inr []"
    and "submit_task settings l caps host request sx = (sx', Inr resp)"
    and "dh_exe (hosts (sr_task_id resp)) = Inr exe" "dh_spawn (hosts (sr_task_id resp)) = Inr pid"
  obtains plan ws d where
    "check_submission settings l caps request = Inr plan"
    "sr_task_id resp = submitted_id host request"
    "insert_task (new_task_record settings (sr_task_id resp) request plan ws) (sb_insert_clock host)
       (stored_repo sx) = (stored_repo sx', Inr ())"
    "dispatch_once_sync settings l hosts (sx_world sx') = (d, Inr ())"
    "dp_spawned d = [(sr_task_id resp, pid, exe # shim_args settings (sr_task_id resp))]"
    "task_status (sr_task_id resp) (dp_repo d) = Some Running"
    "dp_repo d = run_op (OpDispatched (sr_task_id resp) pid, dh_dispatched_clock (hosts (sr_task_id resp)))
       (run_op (OpReserve (sr_task_id resp) (from_limits (rq_limits request)) ''task resources reserved'',
          dh_reserve_clock (hosts (sr_task_id resp))) (stored_repo sx'))"
proof (cases rule: submit_task_cases [of settings l caps host request sx])
  case (refused sx' e)
  with assms(3) show ?thesis by simp
next
  case (stored sx1 plan ws)
  let ?i = "submitted_id host request"
  let ?n = "new_task_record settings ?i request plan ws" and ?now = "sb_insert_clock host 0"
  have same: "sx1 = sx'" "sr_task_id resp = ?i" using assms(3) stored(1) by auto
  have n: "nt_task_id ?n = ?i" "nt_request ?n = request" "nt_control_context ?n = rq_control_context request"
    by (simp_all add: new_task_record_def Let_def)
  have room: "0 < unat (se_max_queued_tasks settings)" using stored(3) by linarith
  note queries = idle_queries [OF stored(4) assms(1,2) room]
  have get: "get_task ?i (stored_repo sx') = Inr (fresh_record ?n ?now)"
    using inserted_record(1) [OF stored(4)] by (simp add: n same)
  let ?task = "fresh_record ?n ?now"
  have task: "tr_task_id ?task = ?i" "tr_status ?task = Accepted" "\<not> tr_kill_requested ?task"
    "\<not> has_active_reservation ?task" "tr_reservation ?task = None" "tr_limits ?task = rq_limits request"
    "task_tenant ?task = Option.bind (rq_control_context request) cc_tenant"
    by (simp_all add: fresh_record_def Let_def n has_active_reservation_def task_tenant_def)
  let ?d = "\<lparr>dp_world = sx_world sx', dp_reserved = reserved_capacity l [], dp_tenants = [], dp_spawned = []\<rparr>"
  have checks: "can_reserve l (reserved_capacity l []) (from_limits (rq_limits request))"
    "can_reserve_for_tenant l (task_tenant ?task)
       (empty_tenant_capacity l (unwrap_or (task_tenant ?task) [])) (from_limits (rq_limits request))"
    using stored(2) by (auto simp: check_submission_ok task(7) intro: capacity_check_when_idle quota_check_when_idle)
  have fits: "can_reserve l (dp_reserved ?d) (from_limits (rq_limits request))"
    "can_reserve_for_tenant l (task_tenant ?task)
       (unwrap_or (Option.bind (task_tenant ?task) (map_of (dp_tenants ?d)))
         (empty_tenant_capacity l (unwrap_or (task_tenant ?task) []))) (from_limits (rq_limits request))"
    using checks by (simp_all add: bind_eq_None_conv)
  have started: "get_task (tr_task_id ?task) (dp_repo ?d) = Inr ?task"
    "from_limits (rq_limits request) = unwrap_or (tr_reservation ?task) (from_limits (tr_limits ?task))"
    "dh_exe (hosts ?i) = Inr exe" "dh_spawn (hosts ?i) = Inr pid"
    using get assms(4,5) by (simp_all add: task same)
  obtain d task' where step: "dispatch_task settings l (hosts ?i) ?task ?d = (d, Inr ())"
      "dp_spawned d = [(?i, pid, exe # shim_args settings ?i)]"
      "get_task ?i (dp_repo d) = Inr task'" "tr_status task' = Running"
      "dp_repo d = run_op (OpDispatched ?i pid, dh_dispatched_clock (hosts ?i))
         (run_op (OpReserve ?i (from_limits (rq_limits request)) ''task resources reserved'',
            dh_reserve_clock (hosts ?i)) (stored_repo sx'))"
    using dispatch_task_starts [OF started(1) task(2-4) started(2) fits started(3,4), of settings]
    unfolding task(1) dispatcher.simps append_Nil by blast
  have "task_status ?i (dp_repo d) = Some Running"
    using step(3,4) by (auto simp: get_task_row task_status_def record_fields(2))
  moreover have "dispatch_once_sync settings l hosts (sx_world sx') = (d, Inr ())"
    using step(1) by (simp add: dispatch_once_sync_def queries [unfolded same] task same Let_def List.map_filter_def)
  ultimately show thesis
    using that [of plan ws d] stored(2,4) step(2,5) by (simp add: same)
qed

text \<open>
  C16: What is accepted can run: a task accepted by a runtime that has nothing queued and nothing
  reserved is started by the next cycle of the dispatcher, whatever it asked for, provided the
  operating system can start a process; the submission checks leave no task that never fits.
\<close>

theorem accepted_task_starts_when_idle:
  assumes "count_accepted (wd_repo (sx_world sx)) = 0"
    and "list_active_reservations (wd_repo (sx_world sx)) = Inr []"
    and "submit_task settings l caps host request sx = (sx', Inr resp)"
    and "dh_exe (hosts (sr_task_id resp)) = Inr exe" "dh_spawn (hosts (sr_task_id resp)) = Inr pid"
  shows "let (d, outcome) = dispatch_once_sync settings l hosts (sx_world sx') in
    outcome = Inr () \<and>
    dp_spawned d = [(sr_task_id resp, pid, exe # shim_args settings (sr_task_id resp))] \<and>
    task_status (sr_task_id resp) (wd_repo (dp_world d)) = Some Running"
  by (rule idle_submission_starts [where hosts = hosts, OF assms]) simp

text \<open>A new server, and the answers of its file system and clock.\<close>

definition sample_service :: service where
  "sample_service =
     \<lparr>sx_world = \<lparr>wd_repo = empty_repo, wd_files = no_files\<rparr>, sx_signals = [], sx_escalations = [],
      sx_notified = False\<rparr>"

definition sample_submit_host :: submit_host where
  "sample_submit_host = \<lparr>sb_generated_id = ''g'', sb_faults = (\<lambda>_. None), sb_insert_clock = sample_clock\<rparr>"

theorem accepted_task_starts_when_idle_witness:
  "let sx = fst (submit_task sample_settings sample_ledger (sample_capabilities True) sample_submit_host
              sample_request sample_service);
       d = fst (dispatch_once_sync sample_settings sample_ledger (\<lambda>_. good_host) (sx_world sx))
   in map fst (dp_spawned d) = [''t1''] \<and> task_status ''t1'' (wd_repo (dp_world d)) = Some Running"
proof -
  let ?run = "submit_task sample_settings sample_ledger (sample_capabilities True) sample_submit_host
    sample_request sample_service"
  have idle: "count_accepted (wd_repo (sx_world sample_service)) = 0"
    "list_active_reservations (wd_repo (sx_world sample_service)) = Inr []"
    by code_simp+
  have "snd ?run = Inr \<lparr>sr_task_id = ''t1'', sr_handle_id = ''t1'', sr_status = Accepted\<rparr>"
    by code_simp
  then have run: "?run = (fst ?run, Inr \<lparr>sr_task_id = ''t1'', sr_handle_id = ''t1'', sr_status = Accepted\<rparr>)"
    by (metis prod.collapse)
  have host: "dh_exe good_host = Inr ''x''" "dh_spawn good_host = Inr 77"
    by (simp_all add: good_host_def sample_dispatch_host_def)
  show ?thesis
    using accepted_task_starts_when_idle [OF idle run, of "\<lambda>_. good_host" "''x''" 77] host
    by (simp add: Let_def split: prod.splits)
qed

subsection \<open>What the checks let through\<close>

text \<open>
  The identifier \<open>..\<close> passes validation, and the directory of such a task is the parent of the
  directory of the tasks, which garbage collection will remove with the task.
\<close>

theorem dot_dot_task_lives_in_the_data_directory:
  "let (sx, r) = submit_task sample_settings sample_ledger (sample_capabilities True) sample_submit_host
         (sample_request\<lparr>rq_task_id := Some ''..''\<rparr>) sample_service
   in is_ok r \<and> map c_task_dir (rp_tasks (stored_repo sx)) = [path_join (se_tasks_dir sample_settings) ''..'']"
  by code_simp

text \<open>A second submission under a taken identifier is a conflict, but has replaced the request file of the first.\<close>

theorem conflicting_submission_replaces_the_request:
  "let request' = sample_request\<lparr>rq_metadata := [(''k'', ''v'')]\<rparr>;
       (sx1, r1) = submit_task sample_settings sample_ledger (sample_capabilities True) sample_submit_host
         sample_request sample_service;
       (sx2, r2) = submit_task sample_settings sample_ledger (sample_capabilities True) sample_submit_host request' sx1;
       path = path_join (path_join (se_tasks_dir sample_settings) ''t1'') ''request.json''
   in is_ok r1 \<and> (case r2 of Inl e \<Rightarrow> status_code e = 409 | Inr _ \<Rightarrow> False) \<and> stored_repo sx2 = stored_repo sx1 \<and>
      fl_request (wd_files (sx_world sx1)) path = Some sample_request \<and>
      fl_request (wd_files (sx_world sx2)) path = Some request' \<and> request' \<noteq> sample_request"
  by code_simp

end
