(* ===== verification/Lifecycle.thy ===== *)
theory Lifecycle
  imports Repo_Effects
begin

section \<open>Lifecycle: the repository refines an automaton per task\<close>

text \<open>
  The promise of the repository to its clients, as an automaton: a task is a status, two flags and
  the reservation it holds, and each operation is a transition. The rows, the SQL guards, the
  transactions and the event log implement it; the refinement is proved for every history.
\<close>

subsection \<open>The abstract task\<close>

record task_view =
  vw_status :: TaskStatus
  vw_killed :: bool
  vw_timed_out :: bool
  vw_held :: "TaskResourceReservation option"

definition new_view :: task_view where
  "new_view = \<lparr>vw_status = Accepted, vw_killed = False, vw_timed_out = False, vw_held = None\<rparr>"

text \<open>The output limits must fit a signed column.\<close>

definition storable :: "NewTaskRecord \<Rightarrow> bool" where
  "storable n =
     (uint (rl_stdout_max_bytes (rq_limits (nt_request n))) \<le> i64_max \<and>
      uint (rl_stderr_max_bytes (rq_limits (nt_request n))) \<le> i64_max)"

text \<open>The transitions; a missing task stays missing until it is inserted.\<close>

fun spec_step :: "repo_op \<Rightarrow> task_view option \<Rightarrow> task_view option" where
  "spec_step (OpInsert n) None = (if storable n then Some new_view else None)"
| "spec_step _ None = None"
| "spec_step (OpInsert _) (Some v) = Some v"
| "spec_step (OpDispatched _ _) (Some v) =
     Some (if vw_status v = Accepted then v\<lparr>vw_status := Running\<rparr> else v)"
| "spec_step (OpStarted _ _ _ _) (Some v) = Some (v\<lparr>vw_status := Running\<rparr>)"
| "spec_step (OpReserve _ reservation _) (Some v) = Some (v\<lparr>vw_held := Some reservation\<rparr>)"
| "spec_step (OpRelease _ _) (Some v) = Some (v\<lparr>vw_held := None\<rparr>)"
| "spec_step (OpCancelRequested _) (Some v) = Some (v\<lparr>vw_killed := True\<rparr>)"
| "spec_step (OpTimeout _) (Some v) = Some (v\<lparr>vw_timed_out := True\<rparr>)"
| "spec_step (OpCancelAccepted _ _) (Some v) =
     Some (if vw_status v = Accepted then v\<lparr>vw_status := Cancelled, vw_held := None\<rparr> else v)"
| "spec_step (OpComplete _ u) (Some v) =
     Some (if duration_fits (cu_duration_ms u) then v\<lparr>vw_status := cu_status u, vw_held := None\<rparr> else v)"
| "spec_step (OpRecovered _) (Some v) = Some v"
| "spec_step (OpRecoveryLost _) (Some v) = Some (v\<lparr>vw_status := Failed, vw_held := None\<rparr>)"
| "spec_step (OpDelete _) (Some v) = None"

definition task_step :: "string \<Rightarrow> repo_op \<times> clock \<Rightarrow> task_view option \<Rightarrow> task_view option" where
  "task_step i = (\<lambda>(c, clk). if op_task c = i then spec_step c else (\<lambda>v. v))"

subsection \<open>The abstraction\<close>

text \<open>What a client reads of a task.\<close>

definition view_of :: "TaskRecord \<Rightarrow> task_view" where
  "view_of task =
     \<lparr>vw_status = tr_status task, vw_killed = tr_kill_requested task,
      vw_timed_out = tr_timeout_triggered task,
      vw_held = (if has_active_reservation task then tr_reservation task else None)\<rparr>"

definition view :: "string \<Rightarrow> repo \<Rightarrow> task_view option" where
  "view i s = (case get_task i s of Inl _ \<Rightarrow> None | Inr task \<Rightarrow> Some (view_of task))"

lemma view_get: "get_task i s = Inr task \<Longrightarrow> view i s = Some (view_of task)"
  by (simp add: view_def)

text \<open>The same of a row.\<close>

definition row_view :: "task_row \<Rightarrow> task_view" where
  "row_view r =
     \<lparr>vw_status = (case decode_status (c_status r) of Inl _ \<Rightarrow> Failed | Inr st \<Rightarrow> st),
      vw_killed = (c_kill_requested r \<noteq> 0), vw_timed_out = (c_timeout_triggered r \<noteq> 0),
      vw_held = (if c_released_at_ms r = None
                 then (case c_reservation_json r of Some (JsonText v) \<Rightarrow> Some v | _ \<Rightarrow> None) else None)\<rparr>"

lemma row_timeout: "row_to_task_record r = Inr task \<Longrightarrow> tr_timeout_triggered task = (c_timeout_triggered r \<noteq> 0)"
  unfolding row_to_task_record_def res_bind_eq_Inr by auto

lemma view_of_row: "row_to_task_record r = Inr task \<Longrightarrow> view_of task = row_view r"
  using record_fields(2,7,17,19) [of r task] row_timeout [of r task]
  by (cases "tr_reservation task")
    (auto simp: view_of_def row_view_def has_active_reservation_def option_res_from_json_eq)

lemma view_row: "repo_ok s \<Longrightarrow> view i s = map_option row_view (find_row i s)"
proof (cases "find_row i s")
  case (Some r)
  assume "repo_ok s"
  then obtain task where "row_to_task_record r = Inr task"
    using repo_ok_decodes [of s r] find_row_Some [OF Some] by (auto simp: is_ok_conv)
  with view_of_row [OF this] show ?thesis by (simp add: view_def get_task_def Some)
qed (simp add: view_def get_task_def)

subsection \<open>Rows under the operations\<close>

lemma find_row_logged:
  "find_row i t = map_option f (find_row i s) \<Longrightarrow>
   find_row i (case insert_event_tx i et m d now t of Inl e \<Rightarrow> s | Inr u \<Rightarrow> u) = map_option f (find_row i s)"
  by (cases "find_row i s") (simp_all add: insert_event_tx_def)

lemma rows_mark_dispatched:
  "find_row i (fst (mark_dispatched i p clk s)) =
     map_option (\<lambda>r. if c_status r = ''accepted'' then dispatched_row p (clk 0) r else r) (find_row i s)"
  by (simp add: mark_dispatched_def dispatched.find_row_update)

lemma rows_mark_started:
  "find_row i (fst (mark_started i p pg sp clk s)) = map_option (started_row p pg sp (clk 0)) (find_row i s)"
  unfolding mark_started_def fst_transact
  by (rule find_row_logged) (simp add: started.find_row_update)

lemma rows_reserve_resources:
  "find_row i (fst (reserve_resources i rv m clk s)) = map_option (reserved_row rv (clk 0)) (find_row i s)"
  unfolding reserve_resources_def fst_transact
  by (rule find_row_logged) (simp add: reserved.find_row_update)

lemma rows_set_cancel_requested:
  "find_row i (fst (set_cancel_requested i clk s)) = map_option (cancel_requested_row (clk 0)) (find_row i s)"
  unfolding fst_set_cancel_requested fst_transact
  by (rule find_row_logged) (simp add: cancel_requested.find_row_update)

lemma rows_mark_timeout_triggered:
  "find_row i (fst (mark_timeout_triggered i clk s)) = map_option (timeout_row (clk 0)) (find_row i s)"
  unfolding mark_timeout_triggered_def fst_transact
  by (rule find_row_logged) (simp add: timeout.find_row_update)

lemma rows_mark_recovered:
  "find_row i (fst (mark_recovered i clk s)) =
     map_option (\<lambda>r. if c_status r = ''running'' then recovered_row (clk 0) r else r) (find_row i s)"
  unfolding mark_recovered_def fst_transact
  by (rule find_row_logged) (simp add: recovered.find_row_update)

text \<open>The operations that end a reservation read its text; on stored data it decodes.\<close>

lemma stored_record:
  assumes "repo_ok s" "find_row i s = Some r"
  obtains task where "row_to_task_record r = Inr task"
  using repo_ok_decodes [of s r] find_row_Some [OF assms(2)] assms(1) by (auto simp: is_ok_conv)

lemma rows_release_resources:
  assumes "repo_ok s"
  shows "find_row i (fst (release_resources i m clk s)) =
    map_option (\<lambda>r. if row_reserved r then released_row (clk 0) r else r) (find_row i s)"
proof (cases "find_row i s")
  case None
  then show ?thesis
    by (simp add: release_resources_def transact_def active_reservation_json_def)
next
  case (Some r)
  obtain task where task: "row_to_task_record r = Inr task" by (rule stored_record [OF assms Some])
  have "find_row i (update_task i (\<lambda>r. True) (released_row (clk 0)) s) = Some (released_row (clk 0) r)"
    by (simp add: released.find_row_update Some)
  then show ?thesis
    using row_reserved_record [OF task]
    by (cases "tr_reservation task")
      (auto simp: Some release_resources_def transact_def active_reservation_record [OF Some task]
        has_active_reservation_def parse_reservation_def insert_event_tx_outcome)
qed

lemma rows_cancel_accepted_task:
  assumes "repo_ok s"
  shows "find_row i (fst (cancel_accepted_task i e clk s)) =
    map_option (\<lambda>r. if c_status r = ''accepted'' then cancelled_row e (clk 0) r else r) (find_row i s)"
proof (cases "find_row i s")
  case None
  then have "find_row i (update_task i (\<lambda>r. c_status r = ''accepted'') (cancelled_row e (clk 0)) s) = None"
    by (simp add: cancelled.find_row_update)
  with None show ?thesis
    by (simp add: cancel_accepted_task_def transact_def active_reservation_json_def release_event_def insert_event_tx_def)
next
  case (Some r)
  obtain task where task: "row_to_task_record r = Inr task" by (rule stored_record [OF assms Some])
  let ?t = "update_task i (\<lambda>r. c_status r = ''accepted'') (cancelled_row e (clk 0)) s"
  have row: "find_row i ?t = Some (if c_status r = ''accepted'' then cancelled_row e (clk 0) r else r)"
    by (simp add: cancelled.find_row_update Some)
  then have "release_event i (active_reservation_json i s) m now ?t = Inr (released_log i task m now ?t)" for m now
    by (intro release_event_outcome [OF Some task]) simp
  with row show ?thesis
    by (simp add: cancel_accepted_task_def transact_def insert_event_tx_outcome Some)
qed

lemma rows_complete_task:
  assumes "repo_ok s"
  shows "find_row i (fst (complete_task i u clk s)) =
    map_option (\<lambda>r. if duration_fits (cu_duration_ms u) then completed_row u r else r) (find_row i s)"
proof (cases "duration_fits (cu_duration_ms u)")
  case False
  then obtain d where "cu_duration_ms u = Some d" "\<not> uint d \<le> i64_max"
    by (auto simp: duration_fits_def split: option.splits)
  then show ?thesis
    using False by (simp add: complete_task_def transact_def i64_try_from_def option.map_ident)
next
  case fits: True
  show ?thesis
  proof (cases "find_row i s")
    case None
    then have "find_row i (update_task i (\<lambda>r. True) (completed_row u) s) = None"
      by (simp add: completed.find_row_update)
    with None show ?thesis
      by (simp add: complete_task_def transact_def active_reservation_json_def release_event_def insert_event_tx_def
          res_bind_def split: sum.split)
  next
    case (Some r)
    obtain task where task: "row_to_task_record r = Inr task" by (rule stored_record [OF assms Some])
    show ?thesis
      by (simp add: complete_task_eq [OF Some task fits] completed_def completed.find_row_update Some fits)
  qed
qed

lemma rows_insert_task:
  "find_row (nt_task_id n) (fst (insert_task n clk s)) =
     (case find_row (nt_task_id n) s of
        Some r \<Rightarrow> Some r
      | None \<Rightarrow> if storable n then Some (new_row n (clk 0)) else None)"
proof (cases "insert_error n s")
  case None
  then show ?thesis
    using find_row_None [of "nt_task_id n" s]
    by (auto simp: insert_task_eq find_row_inserted storable_def insert_error_def split: if_splits)
next
  case (Some e)
  then show ?thesis
    using find_row_None [of "nt_task_id n" s]
    by (auto simp: insert_task_eq storable_def insert_error_def not_le split: if_splits option.split)
qed

lemma rows_delete_task: "find_row i (fst (delete_task i s)) = None"
  by (auto simp: delete_task_def find_row_def find_None_iff)

lemmas rows_ops =
  rows_mark_dispatched rows_mark_started rows_reserve_resources rows_set_cancel_requested
  rows_mark_timeout_triggered rows_mark_recovered rows_release_resources rows_cancel_accepted_task
  rows_complete_task rows_insert_task rows_delete_task

subsection \<open>Rows and views\<close>

lemma row_view_status [simp]: "vw_status (row_view r) = Accepted \<longleftrightarrow> c_status r = ''accepted''"
  using status.dec_iff [of "c_status r" Accepted]
  by (cases "decode_status (c_status r)") (auto simp: row_view_def)

lemma row_view_held: "\<not> row_reserved r \<Longrightarrow> vw_held (row_view r) = None"
  by (auto simp: row_view_def row_reserved_def)

lemma row_view_edits:
  "row_view (dispatched_row p now r) = row_view r\<lparr>vw_status := Running\<rparr>"
  "row_view (started_row pid pg sp now r) = row_view r\<lparr>vw_status := Running\<rparr>"
  "row_view (reserved_row rv now r) = row_view r\<lparr>vw_held := Some rv\<rparr>"
  "row_view (released_row now r) = row_view r\<lparr>vw_held := None\<rparr>"
  "row_view (cancel_requested_row now r) = row_view r\<lparr>vw_killed := True\<rparr>"
  "row_view (timeout_row now r) = row_view r\<lparr>vw_timed_out := True\<rparr>"
  "row_view (recovered_row now r) = row_view r"
  "row_view (cancelled_row e now r) = row_view r\<lparr>vw_status := Cancelled, vw_held := None\<rparr>"
  "row_view (completed_row u r) = row_view r\<lparr>vw_status := cu_status u, vw_held := None\<rparr>"
  "row_view (new_row n now) = new_view"
  using status.dec_enc [of Accepted]
  by (auto simp: row_view_def dispatched_row_def started_row_def reserved_row_def released_row_def
      cancel_requested_row_def timeout_row_def recovered_row_def cancelled_row_def completed_row_def
      new_row_def new_view_def release_time_def to_json_def status.dec_enc split: option.split)

lemma view_run_op:
  assumes ok: "repo_ok s"
  shows "view i (run_op (c, clk) s) = task_step i (c, clk) (view i s)"
proof (cases "op_task c = i")
  case False
  then have "find_row i (run_op (c, clk) s) = find_row i s"
    using run_op_same_task [OF False] by (simp add: same_task_def)
  then show ?thesis
    using False ok run_op_keeps_ok [OF ok, of "(c, clk)"] by (simp add: view_row task_step_def)
next
  case True
  have lost: "duration_fits (Some 0)"
    by (simp add: duration_fits_def i64_max_def)
  show ?thesis
    unfolding view_row [OF ok] view_row [OF run_op_keeps_ok [OF ok, of "(c, clk)"]]
    using True
    by (cases c; cases "find_row i s")
      (auto simp: task_step_def rows_ops ok row_view_edits mark_recovery_lost_def lost
        recovery_lost_update_def row_view_held)
qed

lemma view_same_task: "same_task j s t \<Longrightarrow> view j t = view j s"
  by (simp add: view_def get_task_def same_task_def)

subsection \<open>The refinement\<close>

text \<open>A system whose operations, seen through a view, are those of an abstract one.\<close>

locale refined_ops = op_system run inv
  for run :: "'op \<Rightarrow> 's \<Rightarrow> 's" and inv :: "'s \<Rightarrow> bool" +
  fixes abs :: "'s \<Rightarrow> 'a"
    and step :: "'op \<Rightarrow> 'a \<Rightarrow> 'a"
  assumes abs_run: "inv s \<Longrightarrow> abs (run c s) = step c (abs s)"
begin

lemma abs_fold: "inv s \<Longrightarrow> abs (fold run cs s) = fold step cs (abs s)"
  by (induction cs arbitrary: s) (simp_all add: abs_run run_inv)

text \<open>What holds of the abstract system in every step holds of the concrete one.\<close>

lemma abs_invariant:
  assumes "inv s" "P (abs s)" "\<And>c a. c \<in> set cs \<Longrightarrow> P a \<Longrightarrow> P (step c a)"
  shows "P (abs (fold run cs s))"
  using assms by (induction cs arbitrary: s) (simp_all add: abs_run run_inv)

end

interpretation task_automaton: refined_ops run_op repo_ok "view i" "task_step i" for i
  by unfold_locales (metis prod.exhaust view_run_op)

lemma view_history: "view i (run_history ops) = fold (task_step i) ops None"
  using task_automaton.abs_fold [OF empty_repo_ok, of i ops]
  by (simp add: run_history_def view_def get_task_def empty_repo_def find_row_def)

text \<open>
  C11: The repository implements the automaton of each task: in every history, what a client reads
  of a task is exactly what the transitions of the operations on that task give, from the missing
  task on; the rows, the guards, the transactions and the other tasks add nothing and lose nothing.
\<close>

theorem repository_refines_task_automaton:
  "view i (run_history ops) = fold (task_step i) ops None"
  by (rule view_history)

subsection \<open>A finished task holds nothing\<close>

definition over :: "task_view option \<Rightarrow> bool" where
  "over v = is_some_and v (\<lambda>v. is_terminal (vw_status v))"

text \<open>The task is not over whenever resources are reserved for it.\<close>

fun reserved_in_time :: "string \<Rightarrow> task_view option \<Rightarrow> history \<Rightarrow> bool" where
  "reserved_in_time i v [] = True"
| "reserved_in_time i v (c # cs) =
     ((case fst c of OpReserve j _ _ \<Rightarrow> j = i \<longrightarrow> \<not> over v | _ \<Rightarrow> True) \<and>
      reserved_in_time i (task_step i c v) cs)"

definition holds_nothing_when_over :: "task_view option \<Rightarrow> bool" where
  "holds_nothing_when_over v = (case v of None \<Rightarrow> True | Some v \<Rightarrow> is_terminal (vw_status v) \<longrightarrow> vw_held v = None)"

lemma task_step_over:
  "holds_nothing_when_over v \<Longrightarrow>
   (case fst c of OpReserve j _ _ \<Rightarrow> j = i \<longrightarrow> \<not> over v | _ \<Rightarrow> True) \<Longrightarrow>
   holds_nothing_when_over (task_step i c v)"
  by (cases c; cases "fst c"; cases v)
    (auto simp: holds_nothing_when_over_def task_step_def over_def new_view_def)

lemma fold_over:
  "reserved_in_time i v ops \<Longrightarrow> holds_nothing_when_over v \<Longrightarrow> holds_nothing_when_over (fold (task_step i) ops v)"
  by (induction ops arbitrary: v) (simp_all add: task_step_over)

text \<open>
  C17: No resources leak: when resources were only ever reserved for a task that was not over yet,
  a task that is over holds no reservation, however it came to its end (completed by its shim,
  cancelled before its start, lost in a recovery, or with the kill racing the dispatcher).
\<close>

theorem finished_task_holds_nothing:
  "reserved_in_time i None ops \<Longrightarrow> get_task i (run_history ops) = Inr task \<Longrightarrow>
   is_terminal (tr_status task) \<Longrightarrow> \<not> has_active_reservation task"
proof -
  assume "reserved_in_time i None ops" and task: "get_task i (run_history ops) = Inr task" "is_terminal (tr_status task)"
  then have "holds_nothing_when_over (view i (run_history ops))"
    using fold_over [of i None ops] by (simp add: view_history holds_nothing_when_over_def)
  with task show ?thesis
    by (cases "tr_reservation task") (auto simp: view_def view_of_def holds_nothing_when_over_def has_active_reservation_def
        split: if_splits)
qed

definition run_to_end :: history where
  "run_to_end =
     [(OpInsert (sample_new ''t1''), sample_clock),
      (OpReserve ''t1'' \<lparr>rv_task_slots = 1, rv_memory_bytes = Some 64, rv_pids = None\<rparr> ''m'', sample_clock),
      (OpDispatched ''t1'' 77, sample_clock), (OpStarted ''t1'' 78 78 None, sample_clock),
      (OpComplete ''t1'' sample_completion, sample_clock)]"

theorem finished_task_holds_nothing_witness:
  "\<exists>task. get_task ''t1'' (run_history run_to_end) = Inr task \<and>
     is_terminal (tr_status task) \<and> \<not> has_active_reservation task \<and> tr_reservation task \<noteq> None"
proof -
  have "is_ok (get_task ''t1'' (run_history run_to_end))" by code_simp
  then obtain task where task: "get_task ''t1'' (run_history run_to_end) = Inr task"
    by (auto simp: is_ok_conv)
  have "(case get_task ''t1'' (run_history run_to_end) of Inl _ \<Rightarrow> False
      | Inr task \<Rightarrow> is_terminal (tr_status task) \<and> tr_reservation task \<noteq> None)"
    by code_simp
  then have ends: "is_terminal (tr_status task)" "tr_reservation task \<noteq> None"
    by (simp_all add: task)
  have "reserved_in_time ''t1'' None run_to_end" by code_simp
  from finished_task_holds_nothing [OF this task ends(1)] task ends show ?thesis by blast
qed

text \<open>
  The condition matters: \<open>reserve_resources\<close> has no guard on the status, so a reservation made for a
  task that was cancelled after the dispatcher listed it stays with the cancelled task.
\<close>

theorem late_reservation_leaks:
  "let ops = [(OpInsert (sample_new ''t1''), sample_clock),
              (OpCancelAccepted ''t1'' (RuntimeErrorInfo EcCancelled ''c'' None), sample_clock),
              (OpReserve ''t1'' \<lparr>rv_task_slots = 1, rv_memory_bytes = None, rv_pids = None\<rparr> ''m'', sample_clock)]
   in view ''t1'' (run_history ops) =
        Some \<lparr>vw_status = Cancelled, vw_killed = False, vw_timed_out = False,
              vw_held = Some \<lparr>rv_task_slots = 1, rv_memory_bytes = None, rv_pids = None\<rparr>\<rparr>"
  by code_simp

end
