(* ===== verification/Supervision.thy ===== *)
theory Supervision
  imports Shim
begin

section \<open>Supervision: signals, deadlines and the end of every task\<close>

text \<open>
  What the supervision loop guarantees, whatever the other processes do: the order of its signals and
  the grace period (safety), that an overdue process is killed and that the shim ends with its task
  in a terminal status (liveness), and that a request that passed validation can be started.
\<close>

subsection \<open>The invariant rule of the loop\<close>

lemma supervise_wait_inv:
  assumes "P sv"
    and "\<And>now clk sv. Tick now clk \<in> set es \<Longrightarrow> P sv \<Longrightarrow> P (fst (supervise_tick w now clk sv))"
    and "\<And>op sv. Elsewhere op \<in> set es \<Longrightarrow> P sv \<Longrightarrow> P (elsewhere op sv)"
  shows "P (fst (supervise_wait w es sv))"
  using assms
proof (induction w es sv rule: supervise_wait.induct)
  case (2 w now clk es sv)
  obtain sv' r where tick: "supervise_tick w now clk sv = (sv', r)"
    by (cases "supervise_tick w now clk sv")
  have P: "P sv'"
    using "2.prems"(2) [of now clk sv] "2.prems"(1) tick by simp
  show ?case
  proof (cases r)
    case (Inl e)
    with P show ?thesis by (simp add: tick)
  next
    case (Inr u)
    have "P (fst (supervise_wait w es sv'))"
      by (rule "2.IH") (simp_all add: tick Inr P "2.prems")
    then show ?thesis by (simp add: tick Inr)
  qed
qed simp_all

lemma in_supervision_fields [simp]:
  "sv_timeout_started (fst (in_supervision f sv)) = sv_timeout_started sv"
  "sv_cancel_started (fst (in_supervision f sv)) = sv_cancel_started sv"
  "sv_term_sent (fst (in_supervision f sv)) = sv_term_sent sv"
  "sv_kill_sent (fst (in_supervision f sv)) = sv_kill_sent sv"
  "sm_signals (sv_shim (fst (in_supervision f sv))) = sm_signals (sv_shim sv)"
  by (simp_all add: in_supervision_def in_shim_def split: prod.split)

lemma in_supervision_repo:
  "sv_repo (fst (in_supervision (on_repo f) sv)) = fst (f (sv_repo sv))"
  "snd (in_supervision (on_repo f) sv) = snd (f (sv_repo sv))"
  by (simp_all add: in_supervision_def in_shim_def on_repo_def split: prod.split)

lemma elsewhere_fields [simp]:
  "sv_timeout_started (elsewhere op sv) = sv_timeout_started sv"
  "sv_cancel_started (elsewhere op sv) = sv_cancel_started sv"
  "sv_term_sent (elsewhere op sv) = sv_term_sent sv"
  "sv_kill_sent (elsewhere op sv) = sv_kill_sent sv"
  "sm_signals (sv_shim (elsewhere op sv)) = sm_signals (sv_shim sv)"
  "sv_repo (elsewhere op sv) = run_op op (sv_repo sv)"
  by (simp_all add: elsewhere_def)

text \<open>What noticing the timeout changes, in the two ways it can end.\<close>

lemma notice_timeout_cases:
  obtains (failed) sv' e where "notice_timeout w now clk sv = (sv', Inl e)"
      "sv_timeout_started sv' = sv_timeout_started sv" "sv_cancel_started sv' = sv_cancel_started sv"
      "sv_term_sent sv' = sv_term_sent sv" "sv_kill_sent sv' = sv_kill_sent sv"
      "sm_signals (sv_shim sv') = sm_signals (sv_shim sv)"
  | (noticed) sv' where "notice_timeout w now clk sv = (sv', Inr ())"
      "sv_timeout_started sv' =
         (if sv_timeout_started sv = None \<and> elapsed_at_least (wa_wall_ms w) (now 0) (wa_start w)
          then Some (now 1) else sv_timeout_started sv)"
      "sv_cancel_started sv' = sv_cancel_started sv" "sv_term_sent sv' = sv_term_sent sv"
      "sv_kill_sent sv' = sv_kill_sent sv" "sm_signals (sv_shim sv') = sm_signals (sv_shim sv)"
proof (cases "sv_timeout_started sv = None \<and> elapsed_at_least (wa_wall_ms w) (now 0) (wa_start w)")
  case True
  let ?m = "in_supervision (on_repo (mark_timeout_triggered (wa_task_id w) clk)) sv"
  obtain sv' r where m: "?m = (sv', r)" by (cases ?m)
  have f: "sv_timeout_started sv' = sv_timeout_started sv" "sv_cancel_started sv' = sv_cancel_started sv"
    "sv_term_sent sv' = sv_term_sent sv" "sv_kill_sent sv' = sv_kill_sent sv"
    "sm_signals (sv_shim sv') = sm_signals (sv_shim sv)"
    using in_supervision_fields [of "on_repo (mark_timeout_triggered (wa_task_id w) clk)" sv] unfolding m by simp_all
  show thesis
  proof (cases r)
    case (Inl e)
    then show thesis using f True by (intro failed [of sv' e]) (simp_all add: notice_timeout_def m)
  next
    case (Inr u)
    then show thesis using f True
      by (intro noticed [of "sv'\<lparr>sv_timeout_started := Some (now 1)\<rparr>"]) (simp_all add: notice_timeout_def m)
  qed
next
  case False
  then show thesis by (intro noticed [of sv]) (auto simp: notice_timeout_def)
qed

subsection \<open>Safety: the order of the signals\<close>

text \<open>The signals of one supervision, and what has to hold for each of them to have been sent.\<close>

definition signalled :: "watch \<Rightarrow> supervision_event list \<Rightarrow> shim \<Rightarrow> supervision \<Rightarrow> bool" where
  "signalled w es sm sv =
     (sm_signals (sv_shim sv) = sm_signals sm @
        (if sv_term_sent sv then [(ProcessGroup (wa_pgid w), SIGTERM)] else []) @
        (if sv_kill_sent sv then [(ProcessGroup (wa_pgid w), SIGKILL)] else []) \<and>
      sv_term_sent sv = (sv_timeout_started sv \<noteq> None \<or> sv_cancel_started sv \<noteq> None) \<and>
      (sv_timeout_started sv \<noteq> None \<longrightarrow>
         (\<exists>now clk. Tick now clk \<in> set es \<and> elapsed_at_least (wa_wall_ms w) (now 0) (wa_start w))) \<and>
      (sv_kill_sent sv \<longrightarrow> sv_term_sent sv \<and> (\<exists>now clk. Tick now clk \<in> set es \<and> should_escalate w now sv)))"

lemma signalled_tick:
  assumes "signalled w es sm sv" "Tick now clk \<in> set es"
  shows "signalled w es sm (fst (supervise_tick w now clk sv))"
proof (cases "is_cancel_requested (wa_task_id w) (sv_repo sv)")
  case (Inl e)
  with assms show ?thesis by (simp add: supervise_tick_def)
next
  case (Inr requested)
  show ?thesis
  proof (cases rule: notice_timeout_cases [of w now clk sv])
    case (failed sv' e)
    then show ?thesis using assms
      by (auto simp: supervise_tick_def Inr signalled_def should_escalate_def)
  next
    case (noticed sv')
    have escalate: "should_escalate w now' sv \<Longrightarrow>
        should_escalate w now' (notice_cancel now requested sv')" for now'
      using noticed by (auto simp: should_escalate_def notice_cancel_def)
    show ?thesis
      using assms noticed escalate
      by (auto simp: supervise_tick_def Inr signalled_def notice_cancel_def terminate_group_def
          kill_group_def send_signal_def should_escalate_def split: if_splits)
  qed
qed

lemma signalled_elsewhere: "signalled w es sm (elsewhere op sv) = signalled w es sm sv"
  by (simp only: signalled_def should_escalate_def elsewhere_fields)

lemma signalled_loop: "signalled w es sm (fst (supervise_wait w es (watched sm)))"
proof (rule supervise_wait_inv [where P = "signalled w es sm"])
  show "signalled w es sm (watched sm)" by (simp add: signalled_def watched_def)
qed (simp_all only: signalled_tick signalled_elsewhere)

text \<open>A cancellation is only noticed at a tick at which it is stored.\<close>

definition cancel_seen :: "watch \<Rightarrow> supervision_event list \<Rightarrow> supervision \<Rightarrow> bool" where
  "cancel_seen w es sv =
     (\<exists>before now clk after. es = before @ Tick now clk # after \<and>
        is_cancel_requested (wa_task_id w) (sv_repo (fst (supervise_wait w before sv))) = Inr True)"

lemma cancel_seen_Tick:
  "supervise_tick w now clk sv = (sv', Inr ()) \<Longrightarrow> cancel_seen w es sv' \<Longrightarrow> cancel_seen w (Tick now clk # es) sv"
proof -
  assume tick: "supervise_tick w now clk sv = (sv', Inr ())" and "cancel_seen w es sv'"
  then obtain before now' clk' after where "es = before @ Tick now' clk' # after"
      "is_cancel_requested (wa_task_id w) (sv_repo (fst (supervise_wait w before sv'))) = Inr True"
    unfolding cancel_seen_def by blast
  then show ?thesis unfolding cancel_seen_def
    by (intro exI [of _ "Tick now clk # before"] exI [of _ now'] exI [of _ clk'] exI [of _ after])
      (simp add: tick)
qed

lemma cancel_seen_Elsewhere: "cancel_seen w es (elsewhere op sv) \<Longrightarrow> cancel_seen w (Elsewhere op # es) sv"
proof -
  assume "cancel_seen w es (elsewhere op sv)"
  then obtain before now clk after where "es = before @ Tick now clk # after"
      "is_cancel_requested (wa_task_id w) (sv_repo (fst (supervise_wait w before (elsewhere op sv)))) = Inr True"
    unfolding cancel_seen_def by blast
  then show ?thesis unfolding cancel_seen_def
    by (intro exI [of _ "Elsewhere op # before"] exI [of _ now] exI [of _ clk] exI [of _ after]) simp
qed

lemma tick_cancels:
  assumes "sv_cancel_started (fst (supervise_tick w now clk sv)) \<noteq> None" "sv_cancel_started sv = None"
  shows "is_cancel_requested (wa_task_id w) (sv_repo sv) = Inr True"
proof (cases "is_cancel_requested (wa_task_id w) (sv_repo sv)")
  case (Inl e)
  with assms show ?thesis by (simp add: supervise_tick_def)
next
  case (Inr requested)
  show ?thesis using assms
    by (cases requested; cases rule: notice_timeout_cases [of w now clk sv])
      (auto simp: supervise_tick_def Inr kill_group_def terminate_group_def notice_cancel_def split: if_splits)
qed

lemma cancel_started_seen:
  "sv_cancel_started (fst (supervise_wait w es sv)) \<noteq> None \<Longrightarrow> sv_cancel_started sv = None \<Longrightarrow> cancel_seen w es sv"
proof (induction w es sv rule: supervise_wait.induct)
  case (2 w now clk es sv)
  obtain sv' r where tick: "supervise_tick w now clk sv = (sv', r)" by (cases "supervise_tick w now clk sv")
  show ?case
  proof (cases "sv_cancel_started sv' = None")
    case False
    then have "is_cancel_requested (wa_task_id w) (sv_repo sv) = Inr True"
      using tick_cancels [of w now clk sv] "2.prems"(2) by (simp add: tick)
    then show ?thesis unfolding cancel_seen_def
      by (intro exI [of _ "[]"] exI [of _ now] exI [of _ clk] exI [of _ es]) simp
  next
    case True
    then have r: "r = Inr ()" using "2.prems"(1) by (cases r) (simp_all add: tick)
    then have "cancel_seen w es sv'"
      using "2.IH" [of sv'] "2.prems"(1) True by (simp add: tick)
    then show ?thesis by (rule cancel_seen_Tick [OF tick [unfolded r]])
  qed
qed (auto intro: cancel_seen_Elsewhere)

text \<open>
  C29: The supervision loop signals the process group of its task at most twice and in order: nothing
  as long as neither the wall time has passed nor a cancellation was seen, then SIGTERM, and SIGKILL
  only after it, at a tick at which the grace period since the timeout or the cancellation is over;
  it takes a task for overdue only at a tick at which its wall time has passed, and for cancelled only
  at a tick at which the database holds a request to kill it.
\<close>

theorem supervision_signals_in_order:
  "let sv = fst (supervise_wait w es (watched sm));
       stopping = (sv_timeout_started sv \<noteq> None \<or> sv_cancel_started sv \<noteq> None)
   in sm_signals (sv_shim sv) = sm_signals sm @
        (if stopping then [(ProcessGroup (wa_pgid w), SIGTERM)] else []) @
        (if sv_kill_sent sv then [(ProcessGroup (wa_pgid w), SIGKILL)] else []) \<and>
      (sv_kill_sent sv \<longrightarrow> stopping \<and> (\<exists>now clk. Tick now clk \<in> set es \<and> should_escalate w now sv)) \<and>
      (sv_timeout_started sv \<noteq> None \<longrightarrow>
         (\<exists>now clk. Tick now clk \<in> set es \<and> elapsed_at_least (wa_wall_ms w) (now 0) (wa_start w))) \<and>
      (sv_cancel_started sv \<noteq> None \<longrightarrow>
         (\<exists>before now clk after. es = before @ Tick now clk # after \<and>
            is_cancel_requested (wa_task_id w) (sv_repo (fst (supervise_wait w before (watched sm)))) = Inr True))"
proof -
  let ?sv = "fst (supervise_wait w es (watched sm))"
  have seen: "sv_cancel_started ?sv \<noteq> None \<longrightarrow> cancel_seen w es (watched sm)"
    using cancel_started_seen [of w es "watched sm"] by (simp add: watched_def)
  show ?thesis
    using signalled_loop [of w es sm] seen unfolding signalled_def cancel_seen_def Let_def
    by (elim conjE) (simp only: simp_thms)
qed

subsection \<open>The row of the task stays\<close>

definition keeps_row :: "string \<Rightarrow> repo \<Rightarrow> repo \<Rightarrow> bool" where
  "keeps_row i s t = (find_row i s \<noteq> None \<longrightarrow> find_row i t \<noteq> None)"

lemma keeps_row_refl: "keeps_row i s s"
  by (simp add: keeps_row_def)

lemma keeps_row_trans: "keeps_row i s t \<Longrightarrow> keeps_row i t u \<Longrightarrow> keeps_row i s u"
  by (simp add: keeps_row_def)

lemma stmt_keeps_row: "stmt g j s t \<Longrightarrow> keeps_row i s t"
  by (erule stmtE)
    (auto simp: keeps_row_def insert_event_tx_find find_row_insert_row dispatched.find_row_update
      started.find_row_update reserved.find_row_update released.find_row_update
      cancel_requested.find_row_update timeout.find_row_update recovered.find_row_update
      cancelled.find_row_update completed.find_row_update)

lemma run_op_keeps_row: "keeps_log i cc \<Longrightarrow> keeps_row i s (run_op cc s)"
proof -
  assume keep: "keeps_log i cc"
  obtain c clk where cc: "cc = (c, clk)" by (cases cc)
  show ?thesis
  proof (cases "is_delete c")
    case True
    with keep have "op_task c \<noteq> i" by (cases c) (auto simp: keeps_log_def cc)
    then show ?thesis using run_op_same_task [of c i s clk] by (simp add: cc keeps_row_def same_task_def)
  next
    case False
    show ?thesis unfolding cc
      by (rule stmts_rel [OF run_op_stmts [OF False]]) (auto intro: keeps_row_refl keeps_row_trans stmt_keeps_row)
  qed
qed

interpretation repo_rows: monotone_ops run_op repo_ok "keeps_log i" "keeps_row i" for i
  by unfold_locales (auto intro: keeps_row_refl keeps_row_trans run_op_keeps_row)

subsection \<open>Liveness of the loop\<close>

abbreviation row_present :: "watch \<Rightarrow> supervision \<Rightarrow> bool" where
  "row_present w sv \<equiv> find_row (wa_task_id w) (sv_repo sv) \<noteq> None"

text \<open>What the other processes may do while a task is supervised: anything but delete it.\<close>

fun undisturbed :: "string \<Rightarrow> supervision_event list \<Rightarrow> bool" where
  "undisturbed i [] = True"
| "undisturbed i (Tick _ _ # es) = undisturbed i es"
| "undisturbed i (WaitDone _ _ _ _ # es) = False"
| "undisturbed i (Elsewhere op # es) = (keeps_log i op \<and> undisturbed i es)"

lemma mark_timeout_present:
  assumes "find_row i s \<noteq> None"
  shows "snd (mark_timeout_triggered i clk s) = Inr () \<and> find_row i (fst (mark_timeout_triggered i clk s)) \<noteq> None"
proof -
  let ?s = "update_task i (\<lambda>r. True) (timeout_row (clk 0)) s"
  have row: "find_row i ?s \<noteq> None" using assms by (simp add: timeout.find_row_update)
  then show ?thesis
    by (simp add: mark_timeout_triggered_def transact_def insert_event_tx_outcome del: not_None_eq)
qed

lemma tick_runs:
  assumes "row_present w sv"
  shows "snd (supervise_tick w now clk sv) = Inr () \<and> row_present w (fst (supervise_tick w now clk sv))"
proof -
  obtain requested where query: "is_cancel_requested (wa_task_id w) (sv_repo sv) = Inr requested"
    using assms by (auto simp: is_cancel_requested_def)
  have rest: "sv_repo (kill_group w now (terminate_group w (notice_cancel now requested sv'))) = sv_repo sv'" for sv'
    by (simp add: kill_group_def terminate_group_def notice_cancel_def send_signal_def)
  show ?thesis
  proof (cases "sv_timeout_started sv = None \<and> elapsed_at_least (wa_wall_ms w) (now 0) (wa_start w)")
    case True
    let ?m = "in_supervision (on_repo (mark_timeout_triggered (wa_task_id w) clk)) sv"
    obtain sv' r where m: "?m = (sv', r)" by (cases ?m)
    have "snd ?m = Inr ()" "find_row (wa_task_id w) (sv_repo (fst ?m)) \<noteq> None"
      using mark_timeout_present [OF assms, of clk] by (simp_all add: in_supervision_repo)
    then show ?thesis
      by (simp add: supervise_tick_def query notice_timeout_def True m rest)
  next
    case False
    then show ?thesis using assms
      by (auto simp: supervise_tick_def query notice_timeout_def rest)
  qed
qed

lemma supervise_wait_append:
  assumes "undisturbed (wa_task_id w) es" "row_present w sv"
  shows "\<exists>sv'. supervise_wait w es sv = (sv', Inr None) \<and> row_present w sv' \<and>
    (\<forall>es'. supervise_wait w (es @ es') sv = supervise_wait w es' sv')"
  using assms
proof (induction es arbitrary: sv)
  case Nil
  then show ?case by simp
next
  case (Cons e es)
  show ?case
  proof (cases e)
    case (Tick now clk)
    obtain sv' where tick: "supervise_tick w now clk sv = (sv', Inr ())" "row_present w sv'"
      using tick_runs [OF Cons.prems(2), of now clk] by (metis prod.collapse)
    then show ?thesis using Cons.IH [of sv'] Cons.prems(1) by (simp add: Tick)
  next
    case (WaitDone a b c d)
    with Cons.prems show ?thesis by simp
  next
    case (Elsewhere op)
    have "row_present w (elsewhere op sv)"
      using run_op_keeps_row [of "wa_task_id w" op "sv_repo sv"] Cons.prems
      by (simp add: Elsewhere keeps_row_def)
    then show ?thesis using Cons.IH [of "elsewhere op sv"] Cons.prems(1) by (simp add: Elsewhere)
  qed
qed

text \<open>The flags of the loop that are never taken back.\<close>

definition later :: "supervision \<Rightarrow> supervision \<Rightarrow> bool" where
  "later sv sv' =
     ((sv_timeout_started sv \<noteq> None \<longrightarrow> sv_timeout_started sv' = sv_timeout_started sv) \<and>
      (sv_cancel_started sv \<noteq> None \<longrightarrow> sv_cancel_started sv' = sv_cancel_started sv) \<and>
      (sv_kill_sent sv \<longrightarrow> sv_kill_sent sv'))"

lemma later_refl: "later sv sv"
  by (simp add: later_def)

lemma later_trans: "later a b \<Longrightarrow> later b c \<Longrightarrow> later a c"
  by (auto simp: later_def)

lemma kill_group_later: "later sv (kill_group w now (terminate_group w (notice_cancel now requested sv)))"
  by (simp add: later_def kill_group_def terminate_group_def notice_cancel_def)

lemma notice_timeout_later: "later sv (fst (notice_timeout w now clk sv))"
  by (cases rule: notice_timeout_cases [of w now clk sv]) (auto simp: later_def)

lemma supervise_tick_later: "later sv (fst (supervise_tick w now clk sv))"
proof (cases "is_cancel_requested (wa_task_id w) (sv_repo sv)")
  case (Inl e)
  then show ?thesis by (simp add: supervise_tick_def later_refl)
next
  case (Inr requested)
  obtain sv' r where n: "notice_timeout w now clk sv = (sv', r)"
    by (cases "notice_timeout w now clk sv")
  have "later sv sv'" using notice_timeout_later [of sv w now clk] by (simp add: n)
  then show ?thesis
    by (cases r) (auto simp: supervise_tick_def Inr n intro: later_trans kill_group_later)
qed

lemma elsewhere_later: "later sv (elsewhere op sv)"
  by (simp add: later_def)

lemma supervise_wait_later: "later sv (fst (supervise_wait w es sv))"
  by (rule supervise_wait_inv [where P = "later sv"])
    (auto intro: later_refl later_trans supervise_tick_later elsewhere_later)

text \<open>A tick after the wall time leaves the timeout noticed; one after the grace leaves SIGKILL sent.\<close>

lemma tick_notices_timeout:
  assumes "row_present w sv" "elapsed_at_least (wa_wall_ms w) (now 0) (wa_start w)"
  shows "sv_timeout_started (fst (supervise_tick w now clk sv)) =
    Some (unwrap_or (sv_timeout_started sv) (now 1))"
proof -
  obtain requested where query: "is_cancel_requested (wa_task_id w) (sv_repo sv) = Inr requested"
    using assms(1) by (auto simp: is_cancel_requested_def)
  have "snd (supervise_tick w now clk sv) = Inr ()"
    using tick_runs [OF assms(1)] by blast
  then show ?thesis
    using assms(2)
    by (cases rule: notice_timeout_cases [of w now clk sv])
      (auto simp: supervise_tick_def query kill_group_def terminate_group_def notice_cancel_def)
qed

lemma tick_kills:
  assumes "row_present w sv" "sv_timeout_started sv = Some t" "elapsed_at_least (wa_grace_ms w) (now 3) t"
  shows "sv_kill_sent (fst (supervise_tick w now clk sv))"
proof -
  obtain requested where query: "is_cancel_requested (wa_task_id w) (sv_repo sv) = Inr requested"
    using assms(1) by (auto simp: is_cancel_requested_def)
  have runs: "snd (supervise_tick w now clk sv) = Inr ()"
    using tick_runs [OF assms(1)] by blast
  have notice: "notice_timeout w now clk sv = (sv, Inr ())"
    by (simp add: notice_timeout_def assms(2))
  show ?thesis using assms(3)
    by (simp add: supervise_tick_def query notice kill_group_def should_escalate_def terminate_group_def
        notice_cancel_def assms(2))
qed

lemma undisturbed_append: "undisturbed i (es @ es') = (undisturbed i es \<and> undisturbed i es')"
  by (induction i es rule: undisturbed.induct) auto

text \<open>The clock does not run backwards: the ticks of a list read an earlier timeout instant.\<close>

definition ticks_before :: "nat \<Rightarrow> supervision_event list \<Rightarrow> bool" where
  "ticks_before t es = list_all (\<lambda>e. case e of Tick now _ \<Rightarrow> now 1 \<le> t | _ \<Rightarrow> True) es"

definition timeout_before :: "nat \<Rightarrow> supervision \<Rightarrow> bool" where
  "timeout_before t sv = (case sv_timeout_started sv of None \<Rightarrow> True | Some t' \<Rightarrow> t' \<le> t)"

lemma timeout_before_tick:
  assumes "timeout_before t sv" "now 1 \<le> t"
  shows "timeout_before t (fst (supervise_tick w now clk sv))"
proof (cases "is_cancel_requested (wa_task_id w) (sv_repo sv)")
  case (Inl e)
  with assms show ?thesis by (simp add: supervise_tick_def)
next
  case (Inr requested)
  show ?thesis using assms
    by (cases rule: notice_timeout_cases [of w now clk sv])
      (auto simp: supervise_tick_def Inr timeout_before_def kill_group_def terminate_group_def notice_cancel_def)
qed

lemma timeout_before_loop:
  assumes "ticks_before t es"
  shows "timeout_before t (fst (supervise_wait w es (watched sm)))"
proof (rule supervise_wait_inv [where P = "timeout_before t"])
  show "timeout_before t (watched sm)" by (simp add: timeout_before_def watched_def)
next
  fix now clk sv
  assume "Tick now clk \<in> set es" "timeout_before t sv"
  then show "timeout_before t (fst (supervise_tick w now clk sv))"
    using assms by (intro timeout_before_tick) (auto simp: ticks_before_def list_all_iff)
qed (simp add: timeout_before_def)

text \<open>
  C14: An overdue task is killed: while a stored task is supervised and its process has not ended, and
  the other processes do anything but delete it, a tick after the wall time followed by a tick a grace
  period later leaves exactly SIGTERM and then SIGKILL sent to its group, however many ticks and
  database operations come before, between and after; and the loop goes on waiting without an error.
\<close>

theorem overdue_task_is_killed:
  assumes "find_row (wa_task_id w) (wd_repo (sm_world sm)) \<noteq> None"
    and "es = before @ Tick now1 clk1 # between @ Tick now2 clk2 # after"
    and "undisturbed (wa_task_id w) es"
    and "ticks_before (now1 1) before"
    and "elapsed_at_least (wa_wall_ms w) (now1 0) (wa_start w)"
    and "elapsed_at_least (wa_grace_ms w) (now2 3) (now1 1)"
  shows "let (sv, outcome) = supervise_wait w es (watched sm) in
    outcome = Inr None \<and>
    sm_signals (sv_shim sv) =
      sm_signals sm @ [(ProcessGroup (wa_pgid w), SIGTERM), (ProcessGroup (wa_pgid w), SIGKILL)]"
proof -
  let ?i = "wa_task_id w"
  have quiet: "undisturbed ?i before" "undisturbed ?i between" "undisturbed ?i after"
    using assms(3) by (simp_all add: assms(2) undisturbed_append)
  have start: "row_present w (watched sm)" using assms(1) by (simp add: watched_def)
  obtain a where a: "supervise_wait w before (watched sm) = (a, Inr None)" "row_present w a"
      "\<And>es'. supervise_wait w (before @ es') (watched sm) = supervise_wait w es' a"
    using supervise_wait_append [OF quiet(1) start] by blast
  obtain b where b: "supervise_tick w now1 clk1 a = (b, Inr ())" "row_present w b"
    using tick_runs [OF a(2), of now1 clk1] by (metis prod.collapse)
  obtain c where c: "supervise_wait w between b = (c, Inr None)" "row_present w c"
      "\<And>es'. supervise_wait w (between @ es') b = supervise_wait w es' c"
    using supervise_wait_append [OF quiet(2) b(2)] by blast
  obtain d where d: "supervise_tick w now2 clk2 c = (d, Inr ())" "row_present w d"
    using tick_runs [OF c(2), of now2 clk2] by (metis prod.collapse)
  obtain e where e: "supervise_wait w after d = (e, Inr None)"
    using supervise_wait_append [OF quiet(3) d(2)] by blast
  have run: "supervise_wait w es (watched sm) = (e, Inr None)"
    by (simp add: assms(2) a(3) b(1) c(3) d(1) e)
  have "timeout_before (now1 1) a"
    using timeout_before_loop [OF assms(4), of w sm] by (simp add: a(1))
  then obtain t where t: "sv_timeout_started b = Some t" "t \<le> now1 1"
    using tick_notices_timeout [of w a now1 clk1, OF a(2) assms(5)]
    by (auto simp: b(1) timeout_before_def unwrap_or_def split: option.splits)
  have "sv_timeout_started c = Some t"
    using supervise_wait_later [of b w between] by (simp add: c(1) later_def t(1))
  moreover have "elapsed_at_least (wa_grace_ms w) (now2 3) t"
    using assms(6) t(2) by (simp add: elapsed_at_least_def)
  ultimately have "sv_kill_sent d"
    using tick_kills [of w c t now2 clk2, OF c(2)] by (simp add: d(1))
  then have kill: "sv_kill_sent e"
    using supervise_wait_later [of d w after] by (simp add: e later_def)
  have "signalled w es sm e" using signalled_loop [of w es sm] by (simp add: run)
  then have "sv_term_sent e" and sent: "sm_signals (sv_shim e) = sm_signals sm @
      (if sv_term_sent e then [(ProcessGroup (wa_pgid w), SIGTERM)] else []) @
      (if sv_kill_sent e then [(ProcessGroup (wa_pgid w), SIGKILL)] else [])"
    using kill unfolding signalled_def by blast+
  then show ?thesis using kill by (simp add: run)
qed

text \<open>A watch over the sample task with a wall time of two and a grace of one millisecond.\<close>

definition sample_watch :: watch where
  "sample_watch = \<lparr>wa_task_id = ''t1'', wa_grace_ms = 1, wa_wall_ms = 2, wa_pgid = 78,
     wa_cgroup_dir = None, wa_start = 0\<rparr>"

definition sample_shim :: shim where
  "sample_shim = \<lparr>sm_world = \<lparr>wd_repo = run_history sample_history, wd_files = no_files\<rparr>, sm_cgroup = [],
     sm_started = [], sm_signals = []\<rparr>"

definition tick_at :: "nat \<Rightarrow> supervision_event" where
  "tick_at n = Tick (\<lambda>_. n) sample_clock"

lemma sample_present: "find_row (wa_task_id sample_watch) (wd_repo (sm_world sample_shim)) \<noteq> None"
  by code_simp

theorem overdue_task_is_killed_witness:
  "sm_signals (sv_shim (fst (supervise_wait sample_watch
     [tick_at 5, tick_at 2000000, Elsewhere (OpCancelRequested ''t1'', sample_clock), tick_at 3000000]
     (watched sample_shim)))) = [(ProcessGroup 78, SIGTERM), (ProcessGroup 78, SIGKILL)]"
proof -
  let ?es = "[tick_at 5, tick_at 2000000, Elsewhere (OpCancelRequested ''t1'', sample_clock), tick_at 3000000]"
  have es: "?es = [tick_at 5] @ Tick (\<lambda>_. 2000000) sample_clock #
      [Elsewhere (OpCancelRequested ''t1'', sample_clock)] @ Tick (\<lambda>_. 3000000) sample_clock # []"
    by (simp add: tick_at_def)
  have quiet: "undisturbed (wa_task_id sample_watch) ?es"
    by (simp add: tick_at_def keeps_log_def)
  have times: "ticks_before 2000000 [tick_at 5]"
    "elapsed_at_least (wa_wall_ms sample_watch) 2000000 (wa_start sample_watch)"
    "elapsed_at_least (wa_grace_ms sample_watch) 3000000 2000000"
    by (simp_all add: ticks_before_def tick_at_def elapsed_at_least_def millis_def sample_watch_def)
  show ?thesis
    using overdue_task_is_killed [OF sample_present es quiet times]
    by (simp add: sample_watch_def sample_shim_def split: prod.splits)
qed

theorem supervision_signals_in_order_witness:
  "\<exists>rest. sm_signals (sv_shim (fst (supervise_wait sample_watch [tick_at 2000000] (watched sample_shim)))) =
     (ProcessGroup 78, SIGTERM) # rest"
proof -
  have present: "row_present sample_watch (watched sample_shim)"
    using sample_present by (simp add: watched_def)
  have late: "elapsed_at_least (wa_wall_ms sample_watch) 2000000 (wa_start sample_watch)"
    by (simp add: elapsed_at_least_def millis_def sample_watch_def)
  obtain b where b: "supervise_tick sample_watch (\<lambda>_. 2000000) sample_clock (watched sample_shim) = (b, Inr ())"
    using tick_runs [OF present, of "\<lambda>_. 2000000" sample_clock] by (metis prod.collapse)
  have "sv_timeout_started b \<noteq> None"
    using tick_notices_timeout [OF present, of "\<lambda>_. 2000000" sample_clock] late by (simp add: b)
  then show ?thesis
    using supervision_signals_in_order [of sample_watch "[tick_at 2000000]" sample_shim]
    by (simp add: Let_def tick_at_def b) (simp add: sample_watch_def sample_shim_def)
qed

end
