(* ===== verification/Shim_Outcome.thy ===== *)
theory Shim_Outcome
  imports Supervision
begin

section \<open>Shim outcome: a validated task runs, and every run ends its task\<close>

text \<open>
  A request that passed validation always yields a command, and a run of the shim whose process ends
  leaves its task in a terminal status without a reservation, whatever fails on the way.
\<close>

subsection \<open>The command of a validated task\<close>

lemma cm_env_set:
  "cm_env (fold set_env env c) = fold (\<lambda>(key, value). bt_insert key value) env (cm_env c)"
  by (induction env arbitrary: c) (auto simp: set_env_def)

lemma cm_fields_set [simp]:
  "cm_program (fold set_env env c) = cm_program c" "cm_args (fold set_env env c) = cm_args c"
  "cm_dir (fold set_env env c) = cm_dir c" "cm_env_cleared (fold set_env env c) = cm_env_cleared c"
  by (induction env arbitrary: c) (auto simp: set_env_def)

lemma env_clear_fields [simp]:
  "cm_program (env_clear c) = cm_program c" "cm_args (env_clear c) = cm_args c" "cm_dir (env_clear c) = cm_dir c"
  "cm_env_cleared (env_clear c)" "cm_env (env_clear c) = []"
  by (simp_all add: env_clear_def)

lemma access_outcome:
  "(\<exists>err. access faults path effect fs = (fs, Inl (Io err))) \<or> access faults path effect fs = (effect fs, Inr ())"
  by (cases "faults path") (simp_all add: access_def)

lemma create_dir_all_outcome:
  "(\<exists>err. create_dir_all faults path fs = (fs, Inl (Io err))) \<or> (\<exists>fs'. create_dir_all faults path fs = (fs', Inr ()))"
  by (cases "faults path") (simp_all add: create_dir_all_def access_def)

lemma create_parent_outcome:
  "(\<exists>err. create_parent faults path fs = (fs, Inl (Io err))) \<or> (\<exists>fs'. create_parent faults path fs = (fs', Inr ()))"
  using create_dir_all_outcome [of faults "the (path_parent path)" fs]
  by (cases "path_parent path") (simp_all add: create_parent_def)

lemma write_script_file_outcome:
  "(\<exists>fs' err. write_script_file faults path script fs = (fs', Inl (Io err))) \<or>
   (\<exists>fs'. write_script_file faults path script fs = (fs', Inr ()) \<and> fl_script fs' path = Some script)"
proof (cases "\<exists>err. create_parent faults path fs = (fs, Inl (Io err))")
  case True
  then show ?thesis by (auto simp: write_script_file_def)
next
  case False
  then obtain fs1 where "create_parent faults path fs = (fs1, Inr ())"
    using create_parent_outcome [of faults path fs] by blast
  then show ?thesis
    using access_outcome [of faults path "\<lambda>fs. fs\<lparr>fl_script := (fl_script fs)(path \<mapsto> script)\<rparr>" fs1]
    by (auto simp: write_script_file_def)
qed

lemma validated_execution:
  assumes "validate_execution e = Inr ()"
  shows "es_kind e = Command \<Longrightarrow> \<exists>program. es_program e = Some program \<and> trim program \<noteq> []"
    "es_kind e = Script \<Longrightarrow> \<exists>script. es_script e = Some script \<and> trim script \<noteq> []"
    "es_kind e = Script \<Longrightarrow>
       es_interpreter e = None \<or> (\<exists>interp args. es_interpreter e = Some (interp # args) \<and> trim interp \<noteq> [])"
  using assms
  by (auto simp: validate_execution_def res_bind_eq_Inr trimmed_or_empty_def unwrap_or_def
      split: option.splits list.splits ExecutionKind.splits)

text \<open>
  C35: A validated task can be started: building its command never panics and never reports a missing
  part, it can only fail on the file system; the program is the one of the request, or the interpreter
  of the script, or the shell, it is not blank, and a script is on disk under the path that is recorded
  for it, which is what the interpreter is given.
\<close>

theorem validated_task_has_a_command:
  assumes "validate_execution (tr_execution task) = Inr ()"
  shows "case build_command faults environ task fs of
      (fs', Inl err) \<Rightarrow> \<exists>text. err = Io text
    | (fs', Inr None) \<Rightarrow> False
    | (fs', Inr (Some (command, script_path))) \<Rightarrow>
        trim (cm_program command) \<noteq> [] \<and> cm_dir command = tr_workspace_dir task \<and>
        (case es_kind (tr_execution task) of
           Command \<Rightarrow>
             Some (cm_program command) = es_program (tr_execution task) \<and>
             cm_args command = es_args (tr_execution task) \<and> script_path = None
         | Script \<Rightarrow>
             Option.bind script_path (fl_script fs') = es_script (tr_execution task) \<and>
             (case (es_interpreter (tr_execution task), script_path) of
                (Some words, Some path) \<Rightarrow> cm_program command # cm_args command = words @ [path]
              | _ \<Rightarrow> cm_program command = ''/bin/sh'' \<and>
                     Some (cm_args command) = map_option (\<lambda>script. [''-c'', script]) (es_script (tr_execution task))))"
proof (cases "\<exists>err. create_dir_all faults (tr_workspace_dir task) fs = (fs, Inl (Io err))")
  case True
  then show ?thesis by (auto simp: build_command_def)
next
  case False
  then obtain fs1 where created: "create_dir_all faults (tr_workspace_dir task) fs = (fs1, Inr ())"
    using create_dir_all_outcome [of faults "tr_workspace_dir task" fs] by blast
  note e = validated_execution [OF assms]
  show ?thesis
  proof (cases "es_kind (tr_execution task)")
    case Command
    with e(1) show ?thesis by (auto simp: build_command_def created Let_def)
  next
    case Script
    obtain script where s: "es_script (tr_execution task) = Some script" using e(2) [OF Script] by auto
    let ?path = "unwrap_or (tr_script_path task) (path_join (tr_task_dir task) ''script.sh'')"
    have sh: "trim ''/bin/sh'' \<noteq> []" by code_simp
    from write_script_file_outcome [of faults ?path script fs1] show ?thesis
    proof (elim disjE exE conjE)
      fix fs' err
      assume "write_script_file faults ?path script fs1 = (fs', Inl (Io err))"
      then show ?thesis by (simp add: build_command_def created Script s Let_def)
    next
      fix fs'
      assume "write_script_file faults ?path script fs1 = (fs', Inr ())" "fl_script fs' ?path = Some script"
      with e(3) [OF Script] show ?thesis
        by (auto simp: build_command_def created Script s sh Let_def)
    qed
  qed
qed

theorem validated_task_has_a_command_witness:
  "case build_command (\<lambda>_. None) (\<lambda>_. None) (fresh_record (sample_new ''t1'') 5) no_files of
     (fs', Inr (Some (command, script_path))) \<Rightarrow> trim (cm_program command) \<noteq> [] \<and> script_path = None
   | _ \<Rightarrow> False"
proof -
  let ?task = "fresh_record (sample_new ''t1'') 5"
  have ok: "validate_execution (tr_execution ?task) = Inr ()" by code_simp
  have kind: "es_kind (tr_execution ?task) = Command" by code_simp
  have "is_ok (snd (build_command (\<lambda>_. None) (\<lambda>_. None) ?task no_files))" by code_simp
  then show ?thesis
    using validated_task_has_a_command [OF ok, of "\<lambda>_. None" "\<lambda>_. None" no_files]
    by (auto simp: kind is_ok_conv split: prod.splits sum.splits option.splits)
qed

subsection \<open>The environment of a task\<close>

lemma bt_invar_map_of_rev: "bt_invar m \<Longrightarrow> map_of (rev m) key = map_of m key"
  using map_of_inject_set [of "rev m" m] by (simp add: bt_invar_def rev_map [symmetric])

lemma build_command_made:
  assumes "snd (build_command faults environ task fs) = Inr (Some (command, path))"
  obtains c where "command = fold set_env (minimal_env environ (es_env (tr_execution task))) (env_clear c)"
  using assms
  by (auto simp: build_command_def Let_def snd_and_then split: sum.splits option.splits list.splits ExecutionKind.splits)

text \<open>
  C32: The environment of the server does not leak into a task: in the environment of the process that
  the command of a task starts, a variable has the value the request gives it; one of \<open>PATH\<close>, \<open>HOME\<close>,
  \<open>LANG\<close>, \<open>TMPDIR\<close> and \<open>USER\<close> that the request does not name has its value in the server; and no other
  variable is set, whatever the environment of the server holds.
\<close>

theorem environment_does_not_leak:
  "case snd (build_command faults environ task fs) of
     Inr (Some (command, script_path)) \<Rightarrow>
       process_env environ command key =
         option_or (map_of (rev (es_env (tr_execution task))) key)
           (if key \<in> {''PATH'', ''HOME'', ''LANG'', ''TMPDIR'', ''USER''} then environ key else None)
   | _ \<Rightarrow> True"
proof -
  have env: "process_env environ command key =
      option_or (map_of (rev (es_env (tr_execution task))) key)
        (if key \<in> {''PATH'', ''HOME'', ''LANG'', ''TMPDIR'', ''USER''} then environ key else None)"
    if built: "snd (build_command faults environ task fs) = Inr (Some (command, path))" for command path
  proof -
    obtain c where c: "command = fold set_env (minimal_env environ (es_env (tr_execution task))) (env_clear c)"
      by (rule build_command_made [OF built])
    have "map_of (cm_env command) key = map_of (rev (minimal_env environ (es_env (tr_execution task)))) key"
      by (simp add: c cm_env_set fold_bt_insert)
    also have "\<dots> = map_of (minimal_env environ (es_env (tr_execution task))) key"
      using minimal_env_get(2) by (rule bt_invar_map_of_rev)
    finally show ?thesis
      by (simp add: process_env_def c minimal_env_get(1) inherited_names_def option_or_def split: option.split)
  qed
  show ?thesis
  proof (cases "\<exists>command path. snd (build_command faults environ task fs) = Inr (Some (command, path))")
    case True
    then obtain command path where built: "snd (build_command faults environ task fs) = Inr (Some (command, path))"
      by blast
    from env [OF built] show ?thesis unfolding built sum.case option.case prod.case .
  next
    case False
    then show ?thesis by (auto split: sum.splits option.splits)
  qed
qed

subsection \<open>The state of the database during a run\<close>

lemma in_shim_repo:
  "wd_repo (sm_world (fst (in_shim (on_repo f) sm))) = fst (f (wd_repo (sm_world sm)))"
  "snd (in_shim (on_repo f) sm) = snd (f (wd_repo (sm_world sm)))"
  "wd_repo (sm_world (fst (in_shim (on_files g) sm))) = wd_repo (sm_world sm)"
  by (simp_all add: in_shim_def on_repo_def on_files_def split: prod.split)

lemma wd_repo_in_shim_persist [simp]:
  "wd_repo (sm_world (fst (in_shim (persist_latest_result faults now i) sm))) = wd_repo (sm_world sm)"
  by (simp add: in_shim_def case_prod_beta)

lemma spawn_keeps_repo:
  "wd_repo (sm_world (fst (spawn_task_process host task plan cgroup_root sm))) = wd_repo (sm_world sm)"
  by (simp add: spawn_task_process_def fst_and_then in_shim_repo Let_def split: sum.split option.split prod.split)

lemma in_shim_frame [simp]:
  "sm_started (fst (in_shim f sm)) = sm_started sm" "sm_signals (fst (in_shim f sm)) = sm_signals sm"
  by (simp_all add: in_shim_def split: prod.split)

lemma finish_task_frame [simp]:
  "sm_started (fst (finish_task host i u sm)) = sm_started sm"
  "sm_signals (fst (finish_task host i u sm)) = sm_signals sm"
  by (simp_all add: finish_task_def fst_and_then split: sum.split)

lemma finish_task_repo:
  "wd_repo (sm_world (fst (finish_task host i u sm))) =
     fst (complete_task i u (sh_complete_clock host) (wd_repo (sm_world sm)))"
  by (simp add: finish_task_def fst_and_then in_shim_repo split: sum.split)

text \<open>The task is over: it reads back in a terminal status and holds no reservation.\<close>

definition task_over :: "string \<Rightarrow> repo \<Rightarrow> bool" where
  "task_over i s =
     (case get_task i s of Inl _ \<Rightarrow> False
      | Inr task \<Rightarrow> is_terminal (tr_status task) \<and> \<not> has_active_reservation task)"

lemma finish_task_over:
  assumes "is_ok (get_task i (wd_repo (sm_world sm)))" "is_terminal (cu_status u)" "duration_fits (cu_duration_ms u)"
  shows "task_over i (wd_repo (sm_world (fst (finish_task host i u sm))))"
proof -
  obtain task where get: "get_task i (wd_repo (sm_world sm)) = Inr task"
    using assms(1) by (auto simp: is_ok_conv)
  show ?thesis
    using complete_task_record [OF get assms(3), of "sh_complete_clock host"] assms(2)
    by (auto simp: finish_task_repo task_over_def)
qed

lemma early_update_over [simp]:
  "cu_status (early_update status now error) = status" "duration_fits (cu_duration_ms (early_update status now error))"
  by (simp_all add: early_update_def duration_fits_def i64_max_def)

lemma completion_outcome_terminal: "is_terminal (fst (completion_outcome usage timed_out cancelled oom))"
  by (simp add: completion_outcome_def split: option.split)

lemma classified_over [simp]:
  "is_terminal (cu_status (classify_completion read now usage d timed_out cancelled dir))"
  "cu_duration_ms (classify_completion read now usage d timed_out cancelled dir) = Some d"
  using completion_outcome_terminal [of usage timed_out cancelled "oom_killed read dir"]
  by (auto simp: classify_completion_def split: prod.split)

text \<open>The database stays well formed while a task is supervised.\<close>

lemma supervise_tick_repo:
  "sv_repo (fst (supervise_tick w now clk sv)) = sv_repo sv \<or>
   sv_repo (fst (supervise_tick w now clk sv)) = run_op (OpTimeout (wa_task_id w), clk) (sv_repo sv)"
proof -
  have kill: "sv_repo (kill_group w now (terminate_group w (notice_cancel now requested sv'))) = sv_repo sv'"
    for requested sv'
    by (simp add: kill_group_def terminate_group_def notice_cancel_def send_signal_def)
  show ?thesis
    by (simp add: supervise_tick_def notice_timeout_def fst_and_then kill in_supervision_repo split: sum.split)
qed

lemma supervise_wait_ok: "repo_ok (sv_repo sv) \<Longrightarrow> repo_ok (sv_repo (fst (supervise_wait w es sv)))"
proof (rule supervise_wait_inv [where P = "\<lambda>sv. repo_ok (sv_repo sv)"])
  fix now clk sv
  assume "repo_ok (sv_repo sv)"
  then show "repo_ok (sv_repo (fst (supervise_tick w now clk sv)))"
    using supervise_tick_repo [of w now clk sv] run_op_keeps_ok [of "sv_repo sv"] by metis
qed (simp_all add: run_op_keeps_ok)

subsection \<open>Every run ends its task\<close>

lemma mark_started_runs:
  assumes "repo_ok s" "find_row i s \<noteq> None"
  shows "snd (mark_started i p pg sp clk s) = Inr () \<and> repo_ok (fst (mark_started i p pg sp clk s)) \<and>
    find_row i (fst (mark_started i p pg sp clk s)) \<noteq> None"
proof -
  let ?s = "update_task i (\<lambda>r. True) (started_row p pg sp (clk 0)) s"
  have row: "find_row i ?s \<noteq> None" using assms(2) by (simp add: started.find_row_update)
  have "repo_ok (fst (mark_started i p pg sp clk s))"
    using run_op_keeps_ok [OF assms(1), of "(OpStarted i p pg sp, clk)"] by simp
  with row show ?thesis
    by (simp add: mark_started_def transact_def insert_event_tx_outcome del: not_None_eq)
qed

lemma get_task_present: "repo_ok s \<Longrightarrow> find_row i s \<noteq> None \<Longrightarrow> is_ok (get_task i s)"
  using find_row_None [of i s] by (simp add: get_task_ok)

lemma get_task_id: "get_task i s = Inr task \<Longrightarrow> tr_task_id task = i"
  by (auto simp: get_task_row record_fields dest!: find_row_Some)

lemma supervised_run:
  assumes "row_present w (watched sm)" "repo_ok (wd_repo (sm_world sm))" "undisturbed (wa_task_id w) quiet"
  obtains sv u where
    "supervise_wait w (quiet @ WaitDone (Inr (Inr usage)) now utc read # rest) (watched sm) = (sv, Inr (Some u))"
    "is_terminal (cu_status u)" "cu_duration_ms u = Some (of_nat ((now - wa_start w) div 1000000))"
    "row_present w sv" "repo_ok (sv_repo sv)"
proof -
  obtain sv where sv: "supervise_wait w quiet (watched sm) = (sv, Inr None)" "row_present w sv"
      "\<And>es'. supervise_wait w (quiet @ es') (watched sm) = supervise_wait w es' sv"
    using supervise_wait_append [OF assms(3,1)] by blast
  have ok: "repo_ok (sv_repo sv)"
    using supervise_wait_ok [of "watched sm" w quiet] assms(2) by (simp add: sv(1)) (simp add: watched_def)
  obtain requested where "is_cancel_requested (wa_task_id w) (sv_repo sv) = Inr requested"
    using sv(2) by (auto simp: is_cancel_requested_def)
  then obtain c where "supervise_exit w (Inr (Inr usage)) now utc read sv =
      Inr (classify_completion read utc usage (of_nat ((now - wa_start w) div 1000000))
             (sv_timeout_started sv \<noteq> None) c (wa_cgroup_dir w))"
    by (cases "sv_cancel_started sv") (auto simp: supervise_exit_def)
  then show thesis using that sv ok by simp
qed

lemma build_command_panic:
  "snd (build_command faults environ task fs) = Inr None \<Longrightarrow>
   es_kind (tr_execution task) = Script \<and> es_interpreter (tr_execution task) = Some []"
  by (auto simp: build_command_def Let_def snd_and_then
      split: sum.splits option.splits list.splits ExecutionKind.splits)

lemma snd_in_shim_on_files: "snd (in_shim (on_files f) sm) = snd (f (wd_files (sm_world sm)))"
  by (simp add: in_shim_def on_files_def case_prod_beta)

lemma spawn_never_panics:
  assumes "validate_execution (tr_execution task) = Inr ()"
  shows "snd (spawn_task_process host task plan cgroup_root sm) \<noteq> Inr None"
proof -
  have "snd (build_command faults environ task fs) \<noteq> Inr None" for faults environ fs
    using build_command_panic [of faults environ task fs] validated_execution(3) [OF assms] by auto
  then show ?thesis
    by (auto simp: spawn_task_process_def snd_and_then snd_in_shim_on_files Let_def case_prod_beta
        split: sum.splits option.splits)
qed

lemma persist_without_faults:
  "is_ok (get_task i (wd_repo w)) \<Longrightarrow> snd (persist_latest_result (\<lambda>_. None) now i w) = Inr ()"
  by (auto simp: is_ok_conv persist_latest_result_def build_status_response_def read_output_preview_def
      on_files_def write_result_file_def create_parent_def create_dir_all_def access_def Let_def
      split: option.split)

text \<open>What a run has to leave behind: the task over, and a normal return unless the disk is at fault.\<close>

definition ends_task :: "string \<Rightarrow> faults \<Rightarrow> shim \<times> shim_exit app_result \<Rightarrow> bool" where
  "ends_task i faults run =
     (task_over i (wd_repo (sm_world (fst run))) \<and> (snd run = Inr Returned \<or> faults \<noteq> (\<lambda>_. None)))"

lemma finish_task_ends:
  assumes "is_ok (get_task i (wd_repo (sm_world sm)))" "is_terminal (cu_status u)" "duration_fits (cu_duration_ms u)"
  shows "ends_task i (sh_faults host) (finish_task host i u sm)"
proof -
  obtain task where get: "get_task i (wd_repo (sm_world sm)) = Inr task"
    using assms(1) by (auto simp: is_ok_conv)
  let ?sm = "fst (in_shim (on_repo (complete_task i u (sh_complete_clock host))) sm)"
  have "snd (complete_task i u (sh_complete_clock host) (wd_repo (sm_world sm))) = Inr ()"
    "is_ok (get_task i (wd_repo (sm_world ?sm)))"
    using complete_task_record [OF get assms(3), of "sh_complete_clock host"] by (auto simp: in_shim_repo)
  then have "snd (finish_task host i u sm) = Inr Returned" if "sh_faults host = (\<lambda>_. None)"
    using persist_without_faults [of i "sm_world ?sm" "sh_now host"] that
    by (simp add: finish_task_def snd_and_then in_shim_repo) (simp add: in_shim_def case_prod_beta snd_and_then)
  then show ?thesis
    using finish_task_over [OF assms, of host] by (auto simp: ends_task_def)
qed

lemma supervise_spawned_ends:
  assumes "repo_ok (wd_repo (sm_world sm))" "find_row i (wd_repo (sm_world sm)) \<noteq> None"
    and "undisturbed i quiet" "(now - sh_start host) div 1000000 < 2 ^ 63"
  shows "ends_task i (sh_faults host) (supervise_spawned host args
      (quiet @ WaitDone (Inr (Inr usage)) now utc read # rest) i plan spawned sm)"
proof -
  let ?start = "in_shim (on_repo (mark_started i (sp_pid spawned) (sp_pgid spawned)
      (sp_script_path spawned) (sh_started_clock host))) sm"
  obtain sm1 where start: "?start = (sm1, Inr ())" "repo_ok (wd_repo (sm_world sm1))"
      "find_row i (wd_repo (sm_world sm1)) \<noteq> None"
    using mark_started_runs [OF assms(1,2), of "sp_pid spawned" "sp_pgid spawned" "sp_script_path spawned"
        "sh_started_clock host"] in_shim_repo(1,2) [of "mark_started i (sp_pid spawned) (sp_pgid spawned)
        (sp_script_path spawned) (sh_started_clock host)" sm]
    by (metis prod.collapse)
  obtain task where get: "get_task i (wd_repo (sm_world sm1)) = Inr task" "tr_task_id task = i"
    using get_task_present [OF start(2,3)] get_task_id by (auto simp: is_ok_conv)
  let ?w = "\<lparr>wa_task_id = i, wa_grace_ms = ia_termination_grace_ms args,
    wa_wall_ms = ep_wall_time_ms (pl_resource_enforcement plan), wa_pgid = sp_pgid spawned,
    wa_cgroup_dir = sp_cgroup_dir spawned, wa_start = sh_start host\<rparr>"
  have present: "row_present ?w (watched sm1)" using start(3) by (simp add: watched_def)
  have quiet: "undisturbed (wa_task_id ?w) quiet" using assms(3) by simp
  obtain sv u where run: "supervise_wait ?w (quiet @ WaitDone (Inr (Inr usage)) now utc read # rest) (watched sm1) =
        (sv, Inr (Some u))"
      "is_terminal (cu_status u)" "cu_duration_ms u = Some (of_nat ((now - sh_start host) div 1000000))"
      "find_row i (sv_repo sv) \<noteq> None" "repo_ok (sv_repo sv)"
    using supervised_run [OF present start(2) quiet, of usage now utc read rest] by auto
  have "uint (of_nat ((now - sh_start host) div 1000000) :: u64) \<le> i64_max"
    using assms(4) by (simp add: i64_max_def unsigned_of_nat take_bit_nat_eq_self uint_nat)
  then have "duration_fits (cu_duration_ms u)" by (simp add: run(3) duration_fits_def)
  then have "ends_task i (sh_faults host) (finish_task host i u (sv_shim sv))"
    by (rule finish_task_ends [OF get_task_present [OF run(5,4)] run(2)])
  then show ?thesis
    by (simp add: supervise_spawned_def start(1) get run(1))
qed

text \<open>
  C12: Every run of the shim ends its task: for a stored task that is not over and passed validation,
  once the waiting thread has reaped the process, whatever the other processes did to the database in
  the meantime short of deleting the task, and also when the process could not be started at all, the
  task reads back in a terminal status and holds no reservation; and the shim returns normally unless
  the file system refused a path. The duration must fit a signed 64-bit number of milliseconds.
\<close>

theorem shim_ends_its_task:
  assumes "repo_ok (wd_repo (sm_world sm))" "get_task (ia_task_id args) (wd_repo (sm_world sm)) = Inr task"
    and "validate_execution (tr_execution task) = Inr ()" "\<not> is_terminal (tr_status task)"
    and "undisturbed (ia_task_id args) quiet" "(now - sh_start host) div 1000000 < 2 ^ 63"
  shows "ends_task (ia_task_id args) (sh_faults host)
    (run_internal_shim host args (quiet @ WaitDone (Inr (Inr usage)) now utc read # rest) sm)"
proof -
  let ?i = "ia_task_id args" and ?s = "wd_repo (sm_world sm)"
  let ?plan = "unwrap_or (tr_execution_plan task) (legacy_execution_plan task)"
  have i: "tr_task_id task = ?i" by (rule get_task_id [OF assms(2)])
  have row: "find_row ?i ?s \<noteq> None" using assms(2) by (auto simp: get_task_row)
  obtain sm1 r where spawn: "spawn_task_process host task ?plan (ia_cgroup_root args) sm = (sm1, r)"
    by (cases "spawn_task_process host task ?plan (ia_cgroup_root args) sm")
  have same: "wd_repo (sm_world sm1) = ?s"
    using spawn_keeps_repo [of host task ?plan "ia_cgroup_root args" sm] by (simp add: spawn)
  have r: "r \<noteq> Inr None"
    using spawn_never_panics [OF assms(3), of host ?plan "ia_cgroup_root args" sm] by (simp add: spawn)
  have fail: "ends_task ?i (sh_faults host) (finish_task host ?i (early_update Failed (sh_finished_at host) e) sm1)" for e
    by (rule finish_task_ends) (simp_all add: same assms(2))
  have cancel: "ends_task ?i (sh_faults host) (finish_task host ?i (early_update Cancelled (sh_finished_at host) e) sm)" for e
    by (rule finish_task_ends) (simp_all add: assms(2))
  have supervise: "ends_task ?i (sh_faults host) (supervise_spawned host args
      (quiet @ WaitDone (Inr (Inr usage)) now utc read # rest) ?i ?plan spawned sm1)" for spawned
    by (rule supervise_spawned_ends [OF _ _ assms(5,6)]) (simp_all add: same assms(1) row del: not_None_eq)
  show ?thesis
    using r cancel fail supervise
    by (cases r) (auto simp: run_internal_shim_def assms(2,4) i spawn Let_def split: option.split)
qed

subsection \<open>Sample runs\<close>

definition sample_shim_host :: shim_host where
  "sample_shim_host =
     \<lparr>sh_faults = (\<lambda>_. None), sh_cgroup_faults = (\<lambda>_. None), sh_environ = (\<lambda>_. None), sh_fork = Inr 78,
      sh_call_fails = (\<lambda>_. None), sh_exec_error = None, sh_started_clock = sample_clock,
      sh_complete_clock = sample_clock, sh_finished_at = 9, sh_now = 9, sh_start = 0\<rparr>"

definition sample_shim_args :: InternalShimArgs where
  "sample_shim_args =
     \<lparr>ia_database = ''/d/runtime.db'', ia_data_dir = ''/d'', ia_task_id = ''t1'',
      ia_termination_grace_ms = 1, ia_cgroup_root = ''/c''\<rparr>"

definition sample_usage :: WaitUsage where
  "sample_usage =
     \<lparr>wu_exit_code = Some 0, wu_exit_signal = None, wu_user_cpu_ms = Some 1, wu_system_cpu_ms = Some 1,
      wu_max_rss_bytes = None\<rparr>"

theorem shim_ends_its_task_witness:
  "ends_task ''t1'' (\<lambda>_. None) (run_internal_shim sample_shim_host sample_shim_args
     ([tick_at 5, Elsewhere (OpRecovered ''t1'', sample_clock)] @
      WaitDone (Inr (Inr sample_usage)) 4000000 9 (\<lambda>_. None) # []) sample_shim)"
proof -
  have "case get_task ''t1'' (run_history sample_history) of Inl _ \<Rightarrow> False
    | Inr task \<Rightarrow> validate_execution (tr_execution task) = Inr () \<and> \<not> is_terminal (tr_status task)"
    by code_simp
  then obtain task where task: "get_task ''t1'' (run_history sample_history) = Inr task"
      "validate_execution (tr_execution task) = Inr ()" "\<not> is_terminal (tr_status task)"
    by (auto split: sum.splits)
  have ok: "repo_ok (wd_repo (sm_world sample_shim))" by (simp add: sample_shim_def run_history_ok)
  have get: "get_task (ia_task_id sample_shim_args) (wd_repo (sm_world sample_shim)) = Inr task"
    by (simp add: sample_shim_def sample_shim_args_def task(1))
  have quiet: "undisturbed (ia_task_id sample_shim_args) [tick_at 5, Elsewhere (OpRecovered ''t1'', sample_clock)]"
    by (simp add: tick_at_def keeps_log_def)
  have time: "(4000000 - sh_start sample_shim_host) div 1000000 < 2 ^ 63"
    by (simp add: sample_shim_host_def)
  show ?thesis
    using shim_ends_its_task [OF ok get task(2,3) quiet time, of sample_usage 9 "\<lambda>_. None" "[]"]
    by (simp add: sample_shim_args_def) (simp add: sample_shim_host_def)
qed

text \<open>A task in a Linux sandbox, whose plan asks for a cgroup.\<close>

definition sandboxed_shim :: shim where
  "sandboxed_shim =
     \<lparr>sm_world = \<lparr>wd_repo = run_history
        [(OpInsert ((sample_new ''t1'')\<lparr>nt_execution_plan :=
            legacy_plan (default_sandbox_policy\<lparr>sb_profile := LinuxSandbox\<rparr>) default_resource_limits,
            nt_request := sample_request\<lparr>rq_limits :=
              default_resource_limits\<lparr>rl_stdout_max_bytes := 8, rl_stderr_max_bytes := 8\<rparr>\<rparr>\<rparr>), sample_clock)],
        wd_files = no_files\<rparr>, sm_cgroup = [], sm_started = [], sm_signals = []\<rparr>"

text \<open>
  A cgroup error leaves the process running: the process of the task has been started when its
  cgroup is configured, so that an error there records the task as failed and over, while the process
  it started was neither signalled nor will be waited for.
\<close>

theorem cgroup_error_leaves_the_process_running:
  "let (sm, outcome) = run_internal_shim
         (sample_shim_host\<lparr>sh_cgroup_faults := (\<lambda>path. if path = ''/c/t1/cgroup.procs'' then Some ''e'' else None)\<rparr>)
         sample_shim_args [] sandboxed_shim
   in outcome = Inr Returned \<and> map fst (sm_started sm) = [78] \<and> sm_signals sm = [] \<and>
      task_status ''t1'' (wd_repo (sm_world sm)) = Some Failed \<and>
      map_option c_error_code (find_row ''t1'' (wd_repo (sm_world sm))) = Some (Some ''sandbox_setup_failed'')"
  by code_simp

end
