(* ===== verification/Kill.thy ===== *)
theory Kill
  imports Submission Lifecycle Shim_Outcome
begin

section \<open>Kill: what a kill does, from the request to the process\<close>

text \<open>
  The outcome of a kill on every branch, for the task that is named and for the others, and that a
  kill that comes before the process of a task is never lost.
\<close>

subsection \<open>The request\<close>

definition killed_view :: "TaskRecord \<Rightarrow> task_view" where
  "killed_view task = (view_of task)\<lparr>vw_killed := True\<rparr>"

lemma set_cancel_requested_record:
  assumes ok: "repo_ok s" and get: "get_task i s = Inr task"
  obtains t updated where "set_cancel_requested i clk s = (t, Inr updated)" "repo_ok t"
    "get_task i t = Inr updated" "view_of updated = killed_view task"
    "tr_status updated = tr_status task" "tr_pgid updated = tr_pgid task" "tr_pid updated = tr_pid task"
    "tr_kill_requested updated" "\<And>j. j \<noteq> i \<Longrightarrow> view j t = view j s"
proof -
  let ?c = "(OpCancelRequested i, clk)" and ?t = "fst (set_cancel_requested i clk s)"
  obtain r where r: "find_row i s = Some r" "row_to_task_record r = Inr task"
    using get by (auto simp: get_task_row)
  have ok': "repo_ok ?t" using run_op_keeps_ok [OF ok, of ?c] by simp
  have row: "find_row i ?t = Some (cancel_requested_row (clk 0) r)"
    by (simp add: rows_set_cancel_requested r)
  obtain updated where updated: "row_to_task_record (cancel_requested_row (clk 0) r) = Inr updated"
    by (rule stored_record [OF ok' row])
  have get': "get_task i ?t = Inr updated" by (simp add: get_task_def row updated)
  have "find_row i (update_task i (\<lambda>r. True) (cancel_requested_row (clk 0)) s) \<noteq> None"
    by (simp add: cancel_requested.find_row_update r)
  then have run: "set_cancel_requested i clk s = (?t, Inr updated)"
    using get' by (simp add: set_cancel_requested_def transact_def insert_event_tx_outcome)
  have other: "view j ?t = view j s" if "j \<noteq> i" for j
    using view_run_op [OF ok, of j "OpCancelRequested i" clk] that by (simp add: task_step_def)
  have "view i ?t = Some (killed_view task)"
    using view_run_op [OF ok, of i "OpCancelRequested i" clk]
    by (simp add: task_step_def view_get [OF get] killed_view_def)
  then have v: "view_of updated = killed_view task"
    by (simp add: view_get [OF get'])
  have status: "tr_status updated = tr_status task" "tr_kill_requested updated"
    using arg_cong [OF v, of vw_status] arg_cong [OF v, of vw_killed]
    by (simp_all add: view_of_def killed_view_def)
  have "tr_pgid updated = tr_pgid task" "tr_pid updated = tr_pid task"
    using record_fields(12,13) [OF r(2)] record_fields(12,13) [OF updated]
    by (simp_all add: cancel_requested_row_def)
  with that [OF run ok' get' v status(1) _ _ status(2) other] show thesis by blast
qed

lemma cancel_accepted_view:
  assumes ok: "repo_ok s" and get: "get_task i s = Inr task" and "tr_status task = Accepted"
  obtains t where "cancel_accepted_task i e clk s = (t, Inr ())" "repo_ok t"
    "view i t = Some ((view_of task)\<lparr>vw_status := Cancelled, vw_held := None\<rparr>)"
    "\<And>j. j \<noteq> i \<Longrightarrow> view j t = view j s"
proof -
  let ?c = "(OpCancelAccepted i e, clk)" and ?t = "fst (cancel_accepted_task i e clk s)"
  obtain r where r: "find_row i s = Some r" "row_to_task_record r = Inr task"
    using get by (auto simp: get_task_row)
  let ?u = "update_task i (\<lambda>r. c_status r = ''accepted'') (cancelled_row e (clk 0)) s"
  have row: "find_row i ?u \<noteq> None" by (simp add: cancelled.find_row_update r)
  then have "release_event i (active_reservation_json i s) m now ?u = Inr (released_log i task m now ?u)" for m now
    by (intro release_event_outcome [OF r])
  with row have "snd (cancel_accepted_task i e clk s) = Inr ()"
    by (simp add: cancel_accepted_task_def transact_def insert_event_tx_outcome)
  then have run: "cancel_accepted_task i e clk s = (?t, Inr ())" by (metis prod.collapse)
  have ok': "repo_ok ?t" using run_op_keeps_ok [OF ok, of ?c] by simp
  have other: "view j ?t = view j s" if "j \<noteq> i" for j
    using view_run_op [OF ok, of j "OpCancelAccepted i e" clk] that by (simp add: task_step_def)
  have "view i ?t = Some ((view_of task)\<lparr>vw_status := Cancelled, vw_held := None\<rparr>)"
    using view_run_op [OF ok, of i "OpCancelAccepted i e" clk] assms(3)
    by (simp add: task_step_def view_get [OF get]) (simp add: view_of_def)
  with that [OF run ok' _ other] show thesis by blast
qed

subsection \<open>The signal\<close>

text \<open>The process a kill is directed at: the group, else the process, else none.\<close>

definition kill_target :: "TaskRecord \<Rightarrow> signal_target option" where
  "kill_target task =
     (case tr_pgid task of
        Some pgid \<Rightarrow> Some (ProcessGroup pgid)
      | None \<Rightarrow> map_option (\<lambda>pid. SingleProcess (pid_as_i32 pid)) (tr_pid task))"

lemma kill_target_cong: "tr_pgid t = tr_pgid u \<Longrightarrow> tr_pid t = tr_pid u \<Longrightarrow> kill_target t = kill_target u"
  by (simp add: kill_target_def split: option.split)

lemma signal_task_termination_target:
  "fst (signal_task_termination fails task sig) =
     (case kill_target task of Some t \<Rightarrow> if fails t = None then [(t, sig)] else [] | None \<Rightarrow> [])"
  "is_ok (snd (signal_task_termination fails task sig)) =
     (case kill_target task of Some t \<Rightarrow> fails t = None | None \<Rightarrow> True)"
  by (auto simp: signal_task_termination_def kill_target_def split: option.split)

definition may_kill :: "string option \<Rightarrow> TaskRecord \<Rightarrow> bool" where
  "may_kill caller task =
     (case Option.bind (tr_control_context task) cc_owner of None \<Rightarrow> True | Some owner \<Rightarrow> caller = Some owner)"

lemma caller_is_owner_Inr: "caller_is_owner task caller = Inr u \<longleftrightarrow> may_kill caller task"
  by (auto simp: caller_is_owner_def may_kill_def split: option.splits)

lemma caller_is_owner_Inl:
  "caller_is_owner task caller = Inl e \<Longrightarrow> \<not> may_kill caller task \<and> status_code e = 403"
  by (auto simp: caller_is_owner_def may_kill_def split: option.splits if_splits)

text \<open>The part of a kill after the checks, on a task that has not ended.\<close>

definition carry_out_kill :: "kill_host \<Rightarrow> string \<Rightarrow> service \<Rightarrow> service \<times> TaskStatusResponse app_result" where
  "carry_out_kill host i sx =
     and_then (in_service (on_repo (set_cancel_requested i (kh_request_clock host))) sx) (\<lambda>sx updated.
     and_then (stop_task host i updated sx) (\<lambda>sx _.
     let sx = notify_dispatcher sx
     in (sx, get_task_status (kh_faults host) (kh_now host) i (sx_world sx))))"

lemma kill_task_eq:
  "get_task i (stored_repo sx) = Inr task \<Longrightarrow>
   kill_task host i caller sx =
     (case caller_is_owner task caller of
        Inl e \<Rightarrow> (sx, Inl e)
      | Inr _ \<Rightarrow>
          if is_terminal (tr_status task)
          then (sx, build_status_response (kh_faults host) (kh_now host) (wd_files (sx_world sx)) task)
          else carry_out_kill host i sx)"
  by (simp add: kill_task_def carry_out_kill_def split: sum.split)

lemma carry_out_kill_accepted:
  assumes ok: "repo_ok (stored_repo sx)" and get: "get_task i (stored_repo sx) = Inr task"
    and st: "tr_status task = Accepted"
  shows "let sx' = fst (carry_out_kill host i sx) in
    view i (stored_repo sx') = Some ((killed_view task)\<lparr>vw_status := Cancelled, vw_held := None\<rparr>) \<and>
    (\<forall>j. j = i \<or> view j (stored_repo sx') = view j (stored_repo sx)) \<and> repo_ok (stored_repo sx') \<and>
    sx_signals sx' = sx_signals sx \<and> sx_escalations sx' = sx_escalations sx \<and> sx_notified sx'"
proof -
  obtain t updated where u: "set_cancel_requested i (kh_request_clock host) (stored_repo sx) = (t, Inr updated)"
      "repo_ok t" "get_task i t = Inr updated" "view_of updated = killed_view task"
      "tr_status updated = Accepted" "\<And>j. j \<noteq> i \<Longrightarrow> view j t = view j (stored_repo sx)"
    using set_cancel_requested_record [OF ok get, of "kh_request_clock host"] st by metis
  obtain t' where c: "cancel_accepted_task i killed_before_execution (kh_cancel_clock host) t = (t', Inr ())" "repo_ok t'"
      "view i t' = Some ((view_of updated)\<lparr>vw_status := Cancelled, vw_held := None\<rparr>)"
      "\<And>j. j \<noteq> i \<Longrightarrow> view j t' = view j t"
    by (rule cancel_accepted_view [OF u(2,3,5)]) blast
  show ?thesis
    using u c by (auto simp: carry_out_kill_def stop_task_def in_service_def on_repo_def notify_dispatcher_def Let_def)
qed

lemma carry_out_kill_running:
  assumes ok: "repo_ok (stored_repo sx)" and get: "get_task i (stored_repo sx) = Inr task"
    and st: "tr_status task = Running"
  shows "let sx' = fst (carry_out_kill host i sx);
             delivered = (case kill_target task of Some t \<Rightarrow> kh_signal_fails host t = None | None \<Rightarrow> True)
    in
    view i (stored_repo sx') = Some (killed_view task) \<and>
    (\<forall>j. j = i \<or> view j (stored_repo sx') = view j (stored_repo sx)) \<and> repo_ok (stored_repo sx') \<and>
    sx_signals sx' = sx_signals sx @
      (case kill_target task of Some t \<Rightarrow> if delivered then [(t, SIGTERM)] else [] | None \<Rightarrow> []) \<and>
    sx_escalations sx' = sx_escalations sx @ (if delivered then [(i, tr_pgid task)] else []) \<and>
    (if delivered then sx_notified sx'
     else sx_notified sx' = sx_notified sx \<and> \<not> is_ok (snd (carry_out_kill host i sx)))"
proof -
  obtain t updated where u: "set_cancel_requested i (kh_request_clock host) (stored_repo sx) = (t, Inr updated)"
      "repo_ok t" "view i t = Some (killed_view task)"
      "tr_status updated = Running" "tr_pgid updated = tr_pgid task" "kill_target updated = kill_target task"
      "\<And>j. j \<noteq> i \<Longrightarrow> view j t = view j (stored_repo sx)"
    using set_cancel_requested_record [OF ok get, of "kh_request_clock host"] st kill_target_cong view_get by metis
  let ?sig = "signal_task_termination (kh_signal_fails host) updated SIGTERM"
  note sig = signal_task_termination_target [of "kh_signal_fails host" updated SIGTERM, unfolded u(6)]
  show ?thesis
  proof (cases "snd ?sig")
    case (Inl e)
    then have "?sig = (fst ?sig, Inl e)" by (metis prod.collapse)
    then show ?thesis
      using u sig Inl
      by (auto simp: carry_out_kill_def stop_task_def signal_task_def in_service_def on_repo_def Let_def is_ok_conv
          split: option.splits prod.splits)
  next
    case (Inr v)
    then have "?sig = (fst ?sig, Inr v)" by (metis prod.collapse)
    then show ?thesis
      using u sig Inr
      by (auto simp: carry_out_kill_def stop_task_def signal_task_def in_service_def on_repo_def notify_dispatcher_def
          Let_def is_ok_conv split: option.splits prod.splits)
  qed
qed

subsection \<open>The outcome of a kill\<close>

text \<open>
  C28: A kill does what it says on every branch. It never touches another task. Without the right of
  the owner it changes nothing and answers 403; for a task that is over it changes nothing and answers
  the status; a waiting task is cancelled with its reservation released and nothing is signalled; for
  a running task the request is recorded and \<open>SIGTERM\<close> goes to its process group (or process) with the
  escalation queued, or, when the signal fails, the request stays recorded and an error is answered.
\<close>

theorem kill_outcome:
  assumes "repo_ok (stored_repo sx)" "get_task i (stored_repo sx) = Inr task"
  shows "let (sx', r) = kill_task host i caller sx;
      delivered = (case kill_target task of Some t \<Rightarrow> kh_signal_fails host t = None | None \<Rightarrow> True)
    in (\<forall>j. j = i \<or> view j (stored_repo sx') = view j (stored_repo sx)) \<and>
       (if \<not> may_kill caller task
        then sx' = sx \<and> (case r of Inl e \<Rightarrow> status_code e = 403 | Inr _ \<Rightarrow> False)
        else if is_terminal (tr_status task)
        then sx' = sx \<and> r = build_status_response (kh_faults host) (kh_now host) (wd_files (sx_world sx)) task
        else if tr_status task = Accepted
        then view i (stored_repo sx') =
               Some \<lparr>vw_status = Cancelled, vw_killed = True, vw_timed_out = tr_timeout_triggered task, vw_held = None\<rparr> \<and>
             sx_signals sx' = sx_signals sx \<and> sx_escalations sx' = sx_escalations sx \<and> sx_notified sx'
        else view i (stored_repo sx') = Some ((view_of task)\<lparr>vw_killed := True\<rparr>) \<and>
             sx_signals sx' = sx_signals sx @
               (case kill_target task of Some t \<Rightarrow> if delivered then [(t, SIGTERM)] else [] | None \<Rightarrow> []) \<and>
             sx_escalations sx' = sx_escalations sx @ (if delivered then [(i, tr_pgid task)] else []) \<and>
             (if delivered then sx_notified sx' else \<not> is_ok r))"
proof (cases "may_kill caller task \<and> \<not> is_terminal (tr_status task)")
  case False
  then show ?thesis
    using caller_is_owner_Inl [of task caller] caller_is_owner_Inr [of task caller]
    by (auto simp: kill_task_eq [OF assms(2)] Let_def split: sum.split)
next
  case True
  then have run: "kill_task host i caller sx = carry_out_kill host i sx"
    using caller_is_owner_Inr [of task caller "()"] by (simp add: kill_task_eq [OF assms(2)])
  show ?thesis
  proof (cases "tr_status task = Accepted")
    case waiting: True
    then show ?thesis
      using True carry_out_kill_accepted [OF assms waiting, of host]
      by (simp add: run Let_def case_prod_beta killed_view_def) (simp add: view_of_def)
  next
    case False
    with True have running: "tr_status task = Running" by (cases "tr_status task") auto
    then show ?thesis
      using True carry_out_kill_running [OF assms running, of host]
      by (simp add: run Let_def case_prod_beta killed_view_def)
  qed
qed

theorem kill_outcome_witness:
  "let sx = sample_service\<lparr>sx_world := \<lparr>wd_repo = run_history sample_history, wd_files = no_files\<rparr>\<rparr>;
       (sx', r) = kill_task \<lparr>kh_faults = (\<lambda>_. None), kh_signal_fails = (\<lambda>_. None), kh_request_clock = sample_clock,
         kh_cancel_clock = sample_clock, kh_now = 9\<rparr> ''t1'' None sx
   in sx_signals sx' = [(ProcessGroup 78, SIGTERM)] \<and> sx_escalations sx' = [(''t1'', Some 78)]"
proof -
  let ?sx = "sample_service\<lparr>sx_world := \<lparr>wd_repo = run_history sample_history, wd_files = no_files\<rparr>\<rparr>"
  have "case get_task ''t1'' (run_history sample_history) of Inl _ \<Rightarrow> False
    | Inr task \<Rightarrow> tr_status task = Running \<and> tr_pgid task = Some 78 \<and> tr_control_context task = None"
    by code_simp
  then obtain task where task: "get_task ''t1'' (stored_repo ?sx) = Inr task"
      "tr_status task = Running" "tr_pgid task = Some 78" "tr_control_context task = None"
    by (auto split: sum.splits)
  have ok: "repo_ok (stored_repo ?sx)" by (simp add: run_history_ok)
  show ?thesis
    using kill_outcome [OF ok task(1), of "\<lparr>kh_faults = (\<lambda>_. None), kh_signal_fails = (\<lambda>_. None),
        kh_request_clock = sample_clock, kh_cancel_clock = sample_clock, kh_now = 9\<rparr>" None] task(2-4)
    by (auto simp: kill_target_def may_kill_def sample_service_def Let_def)
qed

subsection \<open>A kill before the process\<close>

text \<open>A request to kill that is stored while no process of the task is recorded.\<close>

definition kill_pending :: "string \<Rightarrow> repo \<Rightarrow> bool" where
  "kill_pending i s =
     is_some_and (find_row i s) (\<lambda>r. c_kill_requested r \<noteq> 0 \<and> c_pid r = None)"

text \<open>The operations that neither start a process for the task nor delete it.\<close>

definition starts_no_process :: "string \<Rightarrow> repo_op \<times> clock \<Rightarrow> bool" where
  "starts_no_process i c =
     (case fst c of OpStarted j _ _ _ \<Rightarrow> j \<noteq> i | OpDelete j \<Rightarrow> j \<noteq> i | _ \<Rightarrow> True)"

lemma row_edits_pending:
  "c_kill_requested (dispatched_row p now r) = c_kill_requested r" "c_pid (dispatched_row p now r) = c_pid r"
  "c_kill_requested (reserved_row rv now r) = c_kill_requested r" "c_pid (reserved_row rv now r) = c_pid r"
  "c_kill_requested (released_row now r) = c_kill_requested r" "c_pid (released_row now r) = c_pid r"
  "c_kill_requested (cancel_requested_row now r) = 1" "c_pid (cancel_requested_row now r) = c_pid r"
  "c_kill_requested (timeout_row now r) = c_kill_requested r" "c_pid (timeout_row now r) = c_pid r"
  "c_kill_requested (recovered_row now r) = c_kill_requested r" "c_pid (recovered_row now r) = c_pid r"
  "c_kill_requested (cancelled_row e now r) = c_kill_requested r" "c_pid (cancelled_row e now r) = c_pid r"
  "c_kill_requested (completed_row u r) = c_kill_requested r" "c_pid (completed_row u r) = c_pid r"
  by (simp_all add: dispatched_row_def reserved_row_def released_row_def cancel_requested_row_def timeout_row_def
      recovered_row_def cancelled_row_def completed_row_def)

lemma pending_step:
  assumes ok: "repo_ok s" and "kill_pending i s" "starts_no_process i (c, clk)"
  shows "kill_pending i (run_op (c, clk) s)"
proof (cases "op_task c = i")
  case False
  then show ?thesis
    using run_op_same_task [OF False, of s clk] assms(2) by (simp add: same_task_def kill_pending_def)
next
  case True
  from assms(2) obtain r where "find_row i s = Some r" "c_kill_requested r \<noteq> 0" "c_pid r = None"
    by (auto simp: kill_pending_def is_some_and_def split: option.splits)
  then show ?thesis
    using True assms(3)
    by (cases c) (auto simp: kill_pending_def is_some_and_def starts_no_process_def mark_recovery_lost_def
        rows_ops ok row_edits_pending)
qed

interpretation pending: monotone_ops run_op repo_ok "starts_no_process i" "\<lambda>s t. kill_pending i s \<longrightarrow> kill_pending i t" for i
  by unfold_locales (auto intro: pending_step)

lemma kill_makes_pending:
  assumes ok: "repo_ok (stored_repo sx)" and get: "get_task i (stored_repo sx) = Inr task" "tr_pid task = None"
  shows "repo_ok (stored_repo (fst (carry_out_kill host i sx))) \<and>
    kill_pending i (stored_repo (fst (carry_out_kill host i sx)))"
proof -
  let ?s1 = "run_op (OpCancelRequested i, kh_request_clock host) (stored_repo sx)"
  let ?s2 = "run_op (OpCancelAccepted i killed_before_execution, kh_cancel_clock host) ?s1"
  obtain r where r: "find_row i (stored_repo sx) = Some r" "c_pid r = None"
    using get record_fields(12) by (fastforce simp: get_task_row)
  have p1: "kill_pending i ?s1"
    by (simp add: kill_pending_def rows_set_cancel_requested r row_edits_pending)
  have ok1: "repo_ok ?s1" by (rule run_op_keeps_ok [OF ok])
  have p2: "kill_pending i ?s2"
    by (rule pending_step [OF ok1 p1]) (simp add: starts_no_process_def)
  have "stored_repo (fst (carry_out_kill host i sx)) \<in> {?s1, ?s2}"
    by (auto simp: carry_out_kill_def fst_and_then stop_task_def signal_task_def Let_def case_prod_beta
        split: sum.split)
  moreover have "repo_ok ?s2" by (rule run_op_keeps_ok [OF ok1])
  ultimately show ?thesis
    using p1 p2 ok1 by (elim insertE) (simp_all only: simp_thms empty_iff)
qed

lemma shim_of_pending_task:
  assumes ok: "repo_ok (wd_repo (sm_world sm))" and pending: "kill_pending (ia_task_id args) (wd_repo (sm_world sm))"
  shows "sm_started (fst (run_internal_shim host args es sm)) = sm_started sm \<and>
    (\<exists>st. task_status (ia_task_id args) (wd_repo (sm_world (fst (run_internal_shim host args es sm)))) = Some st \<and>
          is_terminal st)"
proof -
  let ?i = "ia_task_id args" and ?s = "wd_repo (sm_world sm)"
  from pending obtain r where r: "find_row ?i ?s = Some r" "c_kill_requested r \<noteq> 0" "c_pid r = None"
    by (auto simp: kill_pending_def is_some_and_def split: option.splits)
  obtain task where task: "row_to_task_record r = Inr task" by (rule stored_record [OF ok r(1)])
  have get: "get_task ?i ?s = Inr task" by (simp add: get_task_def r task)
  have flags: "tr_kill_requested task" "tr_pid task = None" "tr_task_id task = ?i"
    using record_fields(12,17) [OF task] r get_task_id [OF get] by simp_all
  have status: "task_status ?i s = Some (tr_status t)" if "get_task ?i s = Inr t" for s t
    using that record_fields(2) by (fastforce simp: get_task_row task_status_def)
  show ?thesis
  proof (cases "is_terminal (tr_status task)")
    case True
    then show ?thesis by (simp add: run_internal_shim_def get flags Let_def status [OF get])
  next
    case False
    let ?u = "early_update Cancelled (sh_finished_at host)
      (RuntimeErrorInfo EcCancelled ''task cancelled before process launch'' None)"
    have run: "run_internal_shim host args es sm = finish_task host ?i ?u sm"
      by (simp add: run_internal_shim_def get flags Let_def False)
    have "task_over ?i (wd_repo (sm_world (fst (finish_task host ?i ?u sm))))"
      by (rule finish_task_over) (simp_all add: get)
    then obtain t where "get_task ?i (wd_repo (sm_world (fst (finish_task host ?i ?u sm)))) = Inr t" "is_terminal (tr_status t)"
      by (auto simp: task_over_def split: sum.splits)
    then show ?thesis by (simp add: run status)
  qed
qed

text \<open>The request itself outlives everything but the deletion of the task.\<close>

definition kill_stored :: "string \<Rightarrow> repo \<Rightarrow> bool" where
  "kill_stored i s = is_some_and (find_row i s) (\<lambda>r. c_kill_requested r \<noteq> 0)"

lemma kill_stored_cancel: "kill_stored i s = (is_cancel_requested i s = Inr True)"
  by (simp add: kill_stored_def is_cancel_requested_def is_some_and_def split: option.split)

lemma kill_stored_step:
  assumes ok: "repo_ok s" and "kill_stored i s" "keeps_log i (c, clk)"
  shows "kill_stored i (run_op (c, clk) s)"
proof (cases "op_task c = i")
  case False
  then show ?thesis
    using run_op_same_task [OF False, of s clk] assms(2) by (simp add: same_task_def kill_stored_def)
next
  case True
  from assms(2) obtain r where r: "find_row i s = Some r" "c_kill_requested r \<noteq> 0"
    by (auto simp: kill_stored_def is_some_and_def split: option.splits)
  have started: "c_kill_requested (started_row p pg sp now r) = c_kill_requested r" for p pg sp now
    by (simp add: started_row_def)
  show ?thesis
    using True assms(3) r
    by (cases c) (auto simp: kill_stored_def is_some_and_def keeps_log_def mark_recovery_lost_def
        rows_ops ok row_edits_pending started)
qed

interpretation requested: monotone_ops run_op repo_ok "keeps_log i" "\<lambda>s t. kill_stored i s \<longrightarrow> kill_stored i t" for i
  by unfold_locales (auto intro: kill_stored_step)

text \<open>A supervision of a task to be killed: it stops the task at its first tick and knows why it ended.\<close>

lemma supervise_wait_kill_stored:
  assumes "undisturbed i es" "repo_ok (sv_repo sv)" "kill_stored i (sv_repo sv)" "wa_task_id w = i"
  shows "repo_ok (sv_repo (fst (supervise_wait w es sv))) \<and> kill_stored i (sv_repo (fst (supervise_wait w es sv)))"
proof (rule supervise_wait_inv [where P = "\<lambda>sv. repo_ok (sv_repo sv) \<and> kill_stored i (sv_repo sv)"])
  fix now clk sv
  assume sv: "repo_ok (sv_repo sv) \<and> kill_stored i (sv_repo sv)"
  then have "kill_stored i (run_op (OpTimeout i, clk) (sv_repo sv))" "repo_ok (run_op (OpTimeout i, clk) (sv_repo sv))"
    by (auto intro!: kill_stored_step run_op_keeps_ok simp: keeps_log_def simp del: run_op.simps)
  with sv show "repo_ok (sv_repo (fst (supervise_tick w now clk sv))) \<and> kill_stored i (sv_repo (fst (supervise_tick w now clk sv)))"
    using supervise_tick_repo [of w now clk sv] assms(4) by auto
next
  fix op sv
  assume op: "Elsewhere op \<in> set es" and sv: "repo_ok (sv_repo sv) \<and> kill_stored i (sv_repo sv)"
  have "keeps_log i op" using assms(1) op by (induction i es rule: undisturbed.induct) auto
  then show "repo_ok (sv_repo (elsewhere op sv)) \<and> kill_stored i (sv_repo (elsewhere op sv))"
    using sv kill_stored_step [of "sv_repo sv" i "fst op" "snd op"] run_op_keeps_ok [of "sv_repo sv" op] by simp
qed (use assms in simp)

lemma tick_stops:
  assumes "is_cancel_requested (wa_task_id w) (sv_repo sv) = Inr True"
    and "supervise_tick w now clk sv = (sv', Inr ())"
  shows "sv_cancel_started sv' \<noteq> None"
  using assms(2)
  by (cases rule: notice_timeout_cases [of w now clk sv])
    (auto simp: supervise_tick_def assms(1) kill_group_def terminate_group_def notice_cancel_def)

lemma supervised_kill:
  assumes "row_present w (watched sm)" "repo_ok (wd_repo (sm_world sm))" "kill_stored (wa_task_id w) (wd_repo (sm_world sm))"
    and "undisturbed (wa_task_id w) quiet"
  obtains sv u timed_out more where
    "supervise_wait w (Tick tick clk # quiet @ WaitDone (Inr (Inr usage)) now utc read # rest) (watched sm) =
       (sv, Inr (Some u))"
    "u = classify_completion read utc usage (of_nat ((now - wa_start w) div 1000000)) timed_out True (wa_cgroup_dir w)"
    "row_present w sv" "repo_ok (sv_repo sv)"
    "sm_signals (sv_shim sv) = sm_signals sm @ (ProcessGroup (wa_pgid w), SIGTERM) # more"
proof -
  let ?es = "Tick tick clk # quiet"
  have quiet: "undisturbed (wa_task_id w) ?es" using assms(4) by simp
  obtain sv where sv: "supervise_wait w ?es (watched sm) = (sv, Inr None)" "row_present w sv"
      "\<And>es'. supervise_wait w (?es @ es') (watched sm) = supervise_wait w es' sv"
    using supervise_wait_append [OF quiet assms(1)] by blast
  have stored: "repo_ok (sv_repo sv)" "kill_stored (wa_task_id w) (sv_repo sv)"
    using supervise_wait_kill_stored [OF quiet _ _ refl, of "watched sm"] assms(2,3) unfolding sv(1)
    by (simp_all add: watched_def)
  obtain sv1 where sv1: "supervise_tick w tick clk (watched sm) = (sv1, Inr ())"
    using tick_runs [OF assms(1), of tick clk] by (metis prod.collapse)
  have "is_cancel_requested (wa_task_id w) (sv_repo (watched sm)) = Inr True"
    using assms(3) by (simp add: kill_stored_cancel watched_def)
  from tick_stops [OF this sv1] have "sv_cancel_started sv1 \<noteq> None" .
  moreover have "fst (supervise_wait w quiet sv1) = sv" using sv(1) by (simp add: sv1)
  ultimately have "sv_cancel_started sv \<noteq> None"
    using supervise_wait_later [of sv1 w quiet] by (auto simp: later_def)
  moreover have "signalled w ?es sm sv" using signalled_loop [of w ?es sm] unfolding sv(1) by simp
  ultimately obtain more where "sm_signals (sv_shim sv) = sm_signals sm @ (ProcessGroup (wa_pgid w), SIGTERM) # more"
    unfolding signalled_def by auto
  moreover have "supervise_wait w (?es @ WaitDone (Inr (Inr usage)) now utc read # rest) (watched sm) =
      (sv, Inr (Some (classify_completion read utc usage (of_nat ((now - wa_start w) div 1000000))
         (sv_timeout_started sv \<noteq> None) True (wa_cgroup_dir w))))"
    using stored(2) \<open>sv_cancel_started sv \<noteq> None\<close> unfolding sv(3) by (simp add: supervise_exit_def)
  ultimately show thesis using that [OF _ refl sv(2) stored(1)] by simp
qed

lemma classified_kill:
  "u = classify_completion read utc usage d timed_out True dir \<Longrightarrow>
   map_option er_code (cu_error u) \<in> {Some EcCancelled, Some EcTimeout}"
  by (simp add: classify_completion_def completion_outcome_def)

lemma spawned_kill:
  assumes "repo_ok (wd_repo (sm_world sm))" "kill_stored i (wd_repo (sm_world sm))" "undisturbed i quiet"
    and "(now - sh_start host) div 1000000 < 2 ^ 63"
  shows "case supervise_spawned host args (Tick tick clk # quiet @ WaitDone (Inr (Inr usage)) now utc read # rest)
           i plan spawned sm of
     (sm', r) \<Rightarrow>
       (\<exists>more. sm_signals sm' = sm_signals sm @ (ProcessGroup (sp_pgid spawned), SIGTERM) # more) \<and>
       (\<exists>task. get_task i (wd_repo (sm_world sm')) = Inr task \<and> \<not> has_active_reservation task \<and>
          tr_error_code task \<in> {Some EcCancelled, Some EcTimeout})"
proof -
  let ?op = "(OpStarted i (sp_pid spawned) (sp_pgid spawned) (sp_script_path spawned), sh_started_clock host)"
  let ?start = "mark_started i (sp_pid spawned) (sp_pgid spawned) (sp_script_path spawned) (sh_started_clock host)"
  have row: "find_row i (wd_repo (sm_world sm)) \<noteq> None"
    using assms(2) by (auto simp: kill_stored_def is_some_and_def split: option.splits)
  obtain sm1 where start: "in_shim (on_repo ?start) sm = (sm1, Inr ())" "wd_repo (sm_world sm1) = run_op ?op (wd_repo (sm_world sm))"
      "find_row i (wd_repo (sm_world sm1)) \<noteq> None" "sm_signals sm1 = sm_signals sm"
    using mark_started_runs [OF assms(1) row, of "sp_pid spawned" "sp_pgid spawned" "sp_script_path spawned" "sh_started_clock host"]
      in_shim_repo(1,2) [of ?start sm] in_shim_frame(2) [of "on_repo ?start" sm]
    by (cases "in_shim (on_repo ?start) sm") simp
  have sm1: "repo_ok (wd_repo (sm_world sm1))" "kill_stored i (wd_repo (sm_world sm1))"
    unfolding start(2) by (rule run_op_keeps_ok [OF assms(1)])
      (rule kill_stored_step [OF assms(1,2)], simp add: keeps_log_def)
  obtain task where get: "get_task i (wd_repo (sm_world sm1)) = Inr task" "tr_task_id task = i"
    using get_task_present [OF sm1(1) start(3)] get_task_id by (auto simp: is_ok_conv)
  let ?w = "\<lparr>wa_task_id = i, wa_grace_ms = ia_termination_grace_ms args,
    wa_wall_ms = ep_wall_time_ms (pl_resource_enforcement plan), wa_pgid = sp_pgid spawned,
    wa_cgroup_dir = sp_cgroup_dir spawned, wa_start = sh_start host\<rparr>"
  have present: "row_present ?w (watched sm1)" using start(3) by (simp add: watched_def)
  have watch: "kill_stored (wa_task_id ?w) (wd_repo (sm_world sm1))" "undisturbed (wa_task_id ?w) quiet"
    using sm1(2) assms(3) by simp_all
  obtain sv u timed_out more where run:
      "supervise_wait ?w (Tick tick clk # quiet @ WaitDone (Inr (Inr usage)) now utc read # rest) (watched sm1) =
         (sv, Inr (Some u))"
      "u = classify_completion read utc usage (of_nat ((now - sh_start host) div 1000000)) timed_out True (sp_cgroup_dir spawned)"
      "find_row i (sv_repo sv) \<noteq> None" "repo_ok (sv_repo sv)"
      "sm_signals (sv_shim sv) = sm_signals sm @ (ProcessGroup (sp_pgid spawned), SIGTERM) # more"
    by (rule supervised_kill [OF present sm1(1) watch, of tick clk usage now utc read rest]) (simp add: start(4))
  obtain task' where get': "get_task i (sv_repo sv) = Inr task'"
    using get_task_present [OF run(4,3)] by (auto simp: is_ok_conv)
  have "uint (of_nat ((now - sh_start host) div 1000000) :: u64) \<le> i64_max"
    using assms(4) by (simp add: i64_max_def unsigned_of_nat take_bit_nat_eq_self uint_nat)
  then have fits: "duration_fits (cu_duration_ms u)" by (simp add: run(2) duration_fits_def)
  from complete_task_record [OF get' this, of "sh_complete_clock host"]
  obtain final where "get_task i (fst (complete_task i u (sh_complete_clock host) (sv_repo sv))) = Inr final"
      "\<not> has_active_reservation final" "tr_error_code final = map_option er_code (cu_error u)"
    by auto
  moreover have "supervise_spawned host args (Tick tick clk # quiet @ WaitDone (Inr (Inr usage)) now utc read # rest)
      i plan spawned sm = finish_task host i u (sv_shim sv)"
    by (simp add: supervise_spawned_def start(1) get run(1) del: supervise_wait.simps)
  ultimately show ?thesis
    using classified_kill [OF run(2)] run(5) by (auto simp: finish_task_repo case_prod_beta)
qed


definition sample_kill_host :: kill_host where
  "sample_kill_host =
     \<lparr>kh_faults = (\<lambda>_. None), kh_signal_fails = (\<lambda>_. None), kh_request_clock = sample_clock,
      kh_cancel_clock = sample_clock, kh_now = 9\<rparr>"


end
