(* ===== verification/Server.thy ===== *)
theory Server
  imports Capabilities Kill
begin

section \<open>Server: the HTTP routes of \<open>src/server.rs\<close>\<close>

text \<open>
  A request is a method, the decoded segments of its path, the owner header and its body; the answer
  is a status code with a body. The extraction of the body is that of the web framework: \<open>None\<close> is a
  body it rejects, with the status it answers as an argument. Its own answers are 404 for an unknown
  path and 405 for another method on a known one; its treatment of HEAD is left out.
\<close>

subsection \<open>Requests and answers\<close>

datatype http_method = Get | Post | OtherMethod

record http_request =
  hq_method :: http_method
  hq_path :: "string list"
  hq_owner :: "string option"
  hq_body :: "nat + SubmitTaskRequest"

datatype reply =
    RSubmitted SubmitTaskResponse
  | RTask TaskStatusResponse
  | REvents "EventRecord list"
  | RInfo RuntimeInfoResponse
  | RCapabilities RuntimeCapabilities
  | RConfig RuntimeConfigResponse
  | RResources RuntimeResourcesResponse
  | RHealth string string
  | RText string
  | RError RuntimeErrorInfo
  | RFramework

record http_reply =
  hp_status :: nat
  hp_body :: reply

text \<open>\<open>into_response\<close> of \<open>src/error.rs\<close>, and a handler that returns \<open>Ok(Json(response))\<close> or an error.\<close>

definition into_response :: "AppError \<Rightarrow> http_reply" where
  "into_response e = \<lparr>hp_status = status_code e, hp_body = RError (as_runtime_error e)\<rparr>"

definition json_reply :: "('a \<Rightarrow> reply) \<Rightarrow> 'a app_result \<Rightarrow> http_reply" where
  "json_reply f r = (case r of Inl e \<Rightarrow> into_response e | Inr response \<Rightarrow> \<lparr>hp_status = 200, hp_body = f response\<rparr>)"

definition framework_reply :: "nat \<Rightarrow> http_reply" where
  "framework_reply status = \<lparr>hp_status = status, hp_body = RFramework\<rparr>"

subsection \<open>The routes\<close>

datatype endpoint =
    CreateTask | GetTask string | KillTask string | GetEvents string | RuntimeInfo | RuntimeCaps
  | RuntimeConfig | RuntimeResources | Healthz | Readyz | Metrics

fun task_endpoint :: "string list \<Rightarrow> (http_method \<times> endpoint) option" where
  "task_endpoint [] = Some (Post, CreateTask)"
| "task_endpoint [i] = (if i = [] then None else Some (Get, GetTask i))"
| "task_endpoint [i, action] =
     (if i = [] then None
      else if action = ''kill'' then Some (Post, KillTask i)
      else if action = ''events'' then Some (Get, GetEvents i)
      else None)"
| "task_endpoint _ = None"

definition runtime_endpoint :: "string \<Rightarrow> (http_method \<times> endpoint) option" where
  "runtime_endpoint name =
     (if name = ''info'' then Some (Get, RuntimeInfo)
      else if name = ''capabilities'' then Some (Get, RuntimeCaps)
      else if name = ''config'' then Some (Get, RuntimeConfig)
      else if name = ''resources'' then Some (Get, RuntimeResources)
      else None)"

definition build_router :: "string list \<Rightarrow> (http_method \<times> endpoint) option" where
  "build_router path =
     (if take 3 path = [''api'', ''v1'', ''tasks''] then task_endpoint (drop 3 path)
      else if length path = 4 \<and> take 3 path = [''api'', ''v1'', ''runtime''] then runtime_endpoint (path ! 3)
      else if path = [''healthz''] then Some (Get, Healthz)
      else if path = [''readyz''] then Some (Get, Readyz)
      else if path = [''metrics''] then Some (Get, Metrics)
      else None)"

subsection \<open>The handlers\<close>

text \<open>What the operating system and the clock answer while a request is served.\<close>

record serve_host =
  vh_submit :: submit_host
  vh_kill :: kill_host
  vh_faults :: faults
  vh_now :: int
  vh_init :: "unit app_result"
  vh_statements :: "unit app_result"
  vh_version :: string

definition handle :: "runtime \<Rightarrow> serve_host \<Rightarrow> http_request \<Rightarrow> endpoint \<Rightarrow> service \<Rightarrow> service \<times> http_reply" where
  "handle rt host request endpoint sx =
     (let s = wd_repo (sx_world sx)
      in case endpoint of
           CreateTask \<Rightarrow>
             (case hq_body request of
                Inl status \<Rightarrow> (sx, framework_reply status)
              | Inr payload \<Rightarrow>
                  map_prod id (json_reply RSubmitted)
                    (submit_task (rt_settings rt) (rt_ledger rt) (rt_capabilities rt) (vh_submit host) payload sx))
         | GetTask i \<Rightarrow> (sx, json_reply RTask (get_task_status (vh_faults host) (vh_now host) i (sx_world sx)))
         | KillTask i \<Rightarrow>
             map_prod id (json_reply RTask) (kill_task (vh_kill host) i (caller_owner (hq_owner request)) sx)
         | GetEvents i \<Rightarrow> (sx, json_reply REvents (get_events i s))
         | RuntimeInfo \<Rightarrow> (sx, json_reply RInfo (Inr (runtime_info (vh_version host) rt)))
         | RuntimeCaps \<Rightarrow> (sx, json_reply RCapabilities (Inr (rt_capabilities rt)))
         | RuntimeConfig \<Rightarrow> (sx, json_reply RConfig (Inr (runtime_config (rt_settings rt))))
         | RuntimeResources \<Rightarrow> (sx, json_reply RResources (runtime_resources (rt_settings rt) (rt_ledger rt) s))
         | Healthz \<Rightarrow> (sx, \<lparr>hp_status = 200, hp_body = RHealth ''ok'' (vh_version host)\<rparr>)
         | Readyz \<Rightarrow> (sx, json_reply (\<lambda>_. RHealth ''ready'' (vh_version host)) (vh_init host))
         | Metrics \<Rightarrow> (case metrics (vh_statements host) s of (status, out) \<Rightarrow> (sx, \<lparr>hp_status = status, hp_body = RText out\<rparr>)))"

definition serve :: "runtime \<Rightarrow> serve_host \<Rightarrow> http_request \<Rightarrow> service \<Rightarrow> service \<times> http_reply" where
  "serve rt host request sx =
     (case build_router (hq_path request) of
        None \<Rightarrow> (sx, framework_reply 404)
      | Some (accepted_method, endpoint) \<Rightarrow>
          if hq_method request = accepted_method then handle rt host request endpoint sx
          else (sx, framework_reply 405))"

subsection \<open>What a caller can rely on\<close>

lemma routed_posts:
  "build_router path = Some (Get, endpoint) \<Longrightarrow> endpoint \<noteq> CreateTask \<and> (\<forall>i. endpoint \<noteq> KillTask i)"
  by (cases "drop 3 path" rule: task_endpoint.cases)
    (auto simp: build_router_def runtime_endpoint_def split: if_splits)

text \<open>
  A success, an error whose status is that of its code, the error text of the metrics, or an answer of
  the framework.
\<close>

definition metrics_error :: "http_reply \<Rightarrow> bool" where
  "metrics_error reply =
     (hp_status reply = 500 \<and> (\<exists>err. hp_body reply = RText (''metrics_error '' @ display_error err @ newline)))"

definition uniform :: "http_reply \<Rightarrow> bool" where
  "uniform reply =
     (case hp_body reply of
        RError info \<Rightarrow> hp_status reply = http_class (er_code info)
      | RFramework \<Rightarrow> True
      | RText text \<Rightarrow> hp_status reply = 200 \<or> metrics_error reply
      | _ \<Rightarrow> hp_status reply = 200)"

definition is_data :: "reply \<Rightarrow> bool" where
  "is_data body = (case body of RError _ \<Rightarrow> False | RFramework \<Rightarrow> False | _ \<Rightarrow> True)"

lemma uniform_json_reply: "(\<And>a. is_data (f a)) \<Longrightarrow> uniform (json_reply f r)"
proof (cases r)
  case (Inl e)
  then show ?thesis
    by (simp add: uniform_def json_reply_def into_response_def as_runtime_error_def status_code_http_class)
next
  case (Inr a)
  assume "\<And>a. is_data (f a)"
  from this [of a] show ?thesis
    by (simp add: Inr uniform_def json_reply_def is_data_def split: reply.splits)
qed

lemma uniform_framework_reply: "uniform (framework_reply n)"
  by (simp add: uniform_def framework_reply_def)

lemma metrics_cases:
  obtains (shown) m where "metrics statements s = (200, render_prometheus m)" "metrics_snapshot statements s = Inr m"
  | (failed) err where "metrics statements s = (500, ''metrics_error '' @ display_error err @ newline)" "statements = Inl err"
  by (cases statements) (simp_all add: metrics_def metrics_snapshot_def)

lemma handle_uniform: "uniform (snd (handle rt host request endpoint sx))"
proof (cases "endpoint = Metrics")
  case True
  then show ?thesis
    by (cases rule: metrics_cases [of "vh_statements host" "wd_repo (sx_world sx)"])
      (auto simp: handle_def uniform_def metrics_error_def)
next
  case False
  then show ?thesis
    by (cases endpoint; cases "hq_body request")
      (simp_all add: handle_def Let_def uniform_json_reply uniform_framework_reply is_data_def,
       simp_all add: uniform_def)
qed

lemma handle_reads:
  "endpoint \<noteq> CreateTask \<Longrightarrow> (\<forall>i. endpoint \<noteq> KillTask i) \<Longrightarrow> fst (handle rt host request endpoint sx) = sx"
  by (cases endpoint; cases "hq_body request") (simp_all add: handle_def Let_def split: prod.split)

text \<open>Only the metrics have an error of their own.\<close>

lemma handle_metrics_error:
  assumes "metrics_error (snd (handle rt host request endpoint sx))"
  shows "endpoint = Metrics \<and> \<not> is_ok (vh_statements host)"
proof -
  have "endpoint = Metrics"
    using assms
    by (cases endpoint; cases "hq_body request")
      (auto simp: handle_def Let_def metrics_error_def json_reply_def into_response_def framework_reply_def split: sum.splits)
  with assms show ?thesis
    by (cases "vh_statements host") (auto simp: handle_def Let_def metrics_error_def metrics_def metrics_snapshot_def is_ok_def)
qed

text \<open>
  C37: Reading is safe and answers are uniform: a request that is not a POST never changes the service,
  and every answer is data with status 200, an error envelope whose status is the one of its error
  code, or an answer of the web framework, with one exception: when the database fails while the
  metrics are read, the answer to \<open>GET /metrics\<close> is status 500 with the error as plain text.
\<close>

theorem serving_is_uniform:
  "let (sx', reply) = serve rt host request sx in
     (hq_method request = Post \<or> sx' = sx) \<and> uniform reply \<and>
     metrics_error reply =
       (hq_path request = [''metrics''] \<and> hq_method request = Get \<and> \<not> is_ok (vh_statements host))"
proof -
  have framework: "\<not> metrics_error (framework_reply n)" for n
    by (simp add: metrics_error_def framework_reply_def)
  have path: "(hq_path request = [''metrics'']) = (\<exists>m. build_router (hq_path request) = Some (m, Metrics))"
    by (cases "drop 3 (hq_path request)" rule: task_endpoint.cases)
      (auto simp: build_router_def runtime_endpoint_def split: if_splits)
  show ?thesis
  proof (cases "build_router (hq_path request)")
    case None
    then show ?thesis using path by (simp add: serve_def uniform_framework_reply framework)
  next
    case (Some r)
    obtain m endpoint where r: "r = (m, endpoint)" by (cases r)
    have verb: "m = Get \<or> m = Post"
      using Some by (cases "drop 3 (hq_path request)" rule: task_endpoint.cases)
        (auto simp: r build_router_def runtime_endpoint_def split: if_splits)
    have m: "endpoint = Metrics \<Longrightarrow> m = Get"
      using Some by (cases "drop 3 (hq_path request)" rule: task_endpoint.cases)
        (auto simp: r build_router_def runtime_endpoint_def split: if_splits)
    have failed: "metrics_error (snd (handle rt host request endpoint sx)) =
        (endpoint = Metrics \<and> \<not> is_ok (vh_statements host))"
    proof (cases "endpoint = Metrics \<and> \<not> is_ok (vh_statements host)")
      case True
      then obtain err where "vh_statements host = Inl err" by (auto simp: is_ok_def split: sum.splits)
      with True show ?thesis by (auto simp: handle_def Let_def metrics_def metrics_snapshot_def metrics_error_def)
    qed (use handle_metrics_error [of rt host request endpoint sx] in blast)
    show ?thesis
    proof (cases "hq_method request = m")
      case True
      then show ?thesis
        using handle_uniform [of rt host request endpoint sx] handle_reads [of endpoint rt host request sx]
          routed_posts [of "hq_path request" endpoint] Some verb m failed path
        by (auto simp: serve_def r split: prod.split)
    next
      case False
      then show ?thesis using Some m path by (auto simp: serve_def r uniform_framework_reply framework)
    qed
  qed
qed

subsection \<open>Owners\<close>

lemma dropWhile_dropWhile: "dropWhile p (dropWhile p xs) = dropWhile p xs"
  by (induction xs) simp_all

text \<open>Trimming the end keeps a start that is not white space.\<close>

lemma trim_start_trim_end: "trim_start (trim_end (trim_start s)) = trim_end (trim_start s)"
proof (cases "trim_end (trim_start s)")
  case Nil
  then show ?thesis by (simp add: trim_start_def)
next
  case (Cons c cs)
  let ?t = "trim_start s"
  obtain ws where "?t = trim_end ?t @ ws"
  proof
    have "rev ?t = takeWhile is_whitespace (rev ?t) @ dropWhile is_whitespace (rev ?t)" by simp
    then have "rev (rev ?t) = rev (dropWhile is_whitespace (rev ?t)) @ rev (takeWhile is_whitespace (rev ?t))"
      by (metis rev_append)
    then show "?t = trim_end ?t @ rev (takeWhile is_whitespace (rev ?t))" by (simp add: trim_end_def)
  qed
  then have "hd ?t = c" "?t \<noteq> []" using Cons by (metis append_Cons list.sel(1)) (use Cons \<open>?t = trim_end ?t @ ws\<close> in auto)
  then have "\<not> is_whitespace c" using hd_dropWhile [of is_whitespace s] by (simp add: trim_start_def)
  then show ?thesis unfolding Cons by (simp add: trim_start_def)
qed

lemma trim_trim: "trim (trim s) = trim s"
proof -
  have "trim_end (trim_end t) = trim_end t" for t
    by (simp add: trim_end_def dropWhile_dropWhile)
  then show ?thesis by (simp add: trim_def trim_start_trim_end)
qed

lemma caller_owner_trimmed: "caller_owner header = Some c \<Longrightarrow> trim c = c"
  by (auto simp: caller_owner_def trim_trim split: option.splits if_splits)

lemma padded_owner_may_not:
  "Option.bind (tr_control_context task) cc_owner = Some owner \<Longrightarrow> trim owner \<noteq> owner \<Longrightarrow>
   \<not> may_kill (caller_owner header) task"
  using caller_owner_trimmed [of header] by (auto simp: may_kill_def)

text \<open>
  An owner with surrounding white space locks its task: \<open>validate\<close> accepts such an owner and it is
  stored as it is, but the owner of a caller is trimmed before it is compared, so that no request over
  HTTP, whatever its header, can ever kill the task; each is answered 403 and changes nothing.
\<close>

theorem padded_owner_locks_the_task:
  assumes "get_task i (stored_repo sx) = Inr task" "Option.bind (tr_control_context task) cc_owner = Some owner"
    and "trim owner \<noteq> owner" "i \<noteq> []"
  shows "case serve rt host \<lparr>hq_method = Post, hq_path = [''api'', ''v1'', ''tasks'', i, ''kill''], hq_owner = header,
             hq_body = body\<rparr> sx of
     (sx', reply) \<Rightarrow> sx' = sx \<and> hp_status reply = 403"
proof -
  obtain e where e: "caller_is_owner task (caller_owner header) = Inl e" "status_code e = 403"
    using padded_owner_may_not [OF assms(2,3), of header] caller_is_owner_Inr [of task "caller_owner header"]
      caller_is_owner_Inl [of task "caller_owner header"]
    by (cases "caller_is_owner task (caller_owner header)") auto
  have "build_router [''api'', ''v1'', ''tasks'', i, ''kill''] = Some (Post, KillTask i)"
    using assms(4) by (simp add: build_router_def)
  then show ?thesis
    using e by (simp add: serve_def handle_def Let_def kill_task_eq [OF assms(1)] json_reply_def into_response_def)
qed

definition padded_context :: ControlContext where
  "padded_context = \<lparr>cc_control_plane_mode = None, cc_tenant = None, cc_owner = Some ''bob '',
     cc_expected_runtime_profile = None, cc_requires_strict_sandbox = False, cc_requires_resource_reservation = False,
     cc_labels = []\<rparr>"

definition padded_service :: service where
  "padded_service = sample_service\<lparr>sx_world := \<lparr>wd_repo = run_history
     [(OpInsert ((sample_new ''t1'')\<lparr>nt_control_context := Some padded_context\<rparr>), sample_clock)], wd_files = no_files\<rparr>\<rparr>"

theorem padded_owner_locks_the_task_witness:
  "validate_control_context padded_context = Inr () \<and>
   (\<forall>rt host. case serve rt host \<lparr>hq_method = Post, hq_path = [''api'', ''v1'', ''tasks'', ''t1'', ''kill''],
         hq_owner = Some ''bob '', hq_body = Inl 400\<rparr> padded_service of
      (sx', reply) \<Rightarrow> sx' = padded_service \<and> hp_status reply = 403)"
proof (intro conjI allI)
  show "validate_control_context padded_context = Inr ()" by code_simp
  fix rt host
  have "case get_task ''t1'' (stored_repo padded_service) of Inl _ \<Rightarrow> False
    | Inr task \<Rightarrow> Option.bind (tr_control_context task) cc_owner = Some ''bob ''"
    by code_simp
  then obtain task where task: "get_task ''t1'' (stored_repo padded_service) = Inr task"
      "Option.bind (tr_control_context task) cc_owner = Some ''bob ''"
    by (auto split: sum.splits)
  have padded: "trim ''bob '' \<noteq> ''bob ''" by code_simp
  show "case serve rt host \<lparr>hq_method = Post, hq_path = [''api'', ''v1'', ''tasks'', ''t1'', ''kill''],
         hq_owner = Some ''bob '', hq_body = Inl 400\<rparr> padded_service of
      (sx', reply) \<Rightarrow> sx' = padded_service \<and> hp_status reply = 403"
    by (rule padded_owner_locks_the_task [OF task padded]) simp
qed

end
