(* ===== verification/Recovery.thy ===== *)
theory Recovery
  imports Submission Lifecycle Shim_Outcome
begin

section \<open>Recovery: the sweeps over the stored tasks\<close>

text \<open>
  Recovery at start-up and garbage collection list some tasks and treat them one by one. What such a
  sweep does to each task is proved once, for any step that touches only its own task.
\<close>

subsection \<open>Sweeps\<close>

text \<open>A list that names each task once and as it is stored.\<close>

definition listed :: "TaskRecord list \<Rightarrow> repo \<Rightarrow> bool" where
  "listed tasks s =
     (distinct (map tr_task_id tasks) \<and> list_all (\<lambda>task. get_task (tr_task_id task) s = Inr task) tasks)"

lemma listed_other: "listed (t # tasks) s \<Longrightarrow> u \<in> set tasks \<Longrightarrow> tr_task_id u \<noteq> tr_task_id t"
  by (simp add: listed_def) (metis imageI)

text \<open>
  A step on a listed task, and what is observed of a task: the step on a task gives its expected
  observation, and a step on another task leaves it.
\<close>

locale task_sweep =
  fixes step :: "TaskRecord \<Rightarrow> world \<Rightarrow> world"
    and obs :: "string \<Rightarrow> repo \<Rightarrow> 'o"
    and expected :: "TaskRecord \<Rightarrow> 'o \<Rightarrow> 'o"
  assumes step_ok: "repo_ok (wd_repo w) \<Longrightarrow> repo_ok (wd_repo (step task w))"
    and step_other: "j \<noteq> tr_task_id task \<Longrightarrow> same_task j (wd_repo w) (wd_repo (step task w))"
    and step_self: "repo_ok (wd_repo w) \<Longrightarrow> get_task (tr_task_id task) (wd_repo w) = Inr task \<Longrightarrow>
      obs (tr_task_id task) (wd_repo (step task w)) = expected task (obs (tr_task_id task) (wd_repo w))"
    and obs_same: "same_task j s t \<Longrightarrow> obs j t = obs j s"
begin

lemma listed_step: "listed (task # tasks) (wd_repo w) \<Longrightarrow> listed tasks (wd_repo (step task w))"
proof -
  assume l: "listed (task # tasks) (wd_repo w)"
  have "get_task (tr_task_id t) (wd_repo (step task w)) = Inr t" if "t \<in> set tasks" for t
  proof -
    have "tr_task_id t \<noteq> tr_task_id task" using listed_other [OF l that] .
    then have "same_task (tr_task_id t) (wd_repo w) (wd_repo (step task w))" by (rule step_other)
    then show ?thesis
      using l that by (simp add: listed_def list_all_iff same_task_def get_task_def)
  qed
  with l show ?thesis by (auto simp: listed_def list_all_iff)
qed

lemma sweep_ok: "repo_ok (wd_repo w) \<Longrightarrow> repo_ok (wd_repo (fold step tasks w))"
  by (induction tasks arbitrary: w) (simp_all add: step_ok)

lemma sweep_other:
  "i \<notin> set (map tr_task_id tasks) \<Longrightarrow> obs i (wd_repo (fold step tasks w)) = obs i (wd_repo w)"
proof (induction tasks arbitrary: w)
  case (Cons task tasks)
  then have "obs i (wd_repo (step task w)) = obs i (wd_repo w)"
    by (intro obs_same step_other) auto
  with Cons show ?case by simp
qed simp

lemma sweep:
  "repo_ok (wd_repo w) \<Longrightarrow> listed tasks (wd_repo w) \<Longrightarrow> task \<in> set tasks \<Longrightarrow>
   obs (tr_task_id task) (wd_repo (fold step tasks w)) =
     expected task (obs (tr_task_id task) (wd_repo w))"
proof (induction tasks arbitrary: w)
  case (Cons t tasks)
  have l: "listed tasks (wd_repo (step t w))" by (rule listed_step [OF Cons.prems(2)])
  have ok: "repo_ok (wd_repo (step t w))" by (rule step_ok [OF Cons.prems(1)])
  show ?case
  proof (cases "task = t")
    case True
    have "tr_task_id t \<notin> set (map tr_task_id tasks)" using Cons.prems(2) by (simp add: listed_def)
    then have "obs (tr_task_id t) (wd_repo (fold step tasks (step t w))) = obs (tr_task_id t) (wd_repo (step t w))"
      by (rule sweep_other)
    moreover have "get_task (tr_task_id t) (wd_repo w) = Inr t" using Cons.prems(2) by (simp add: listed_def)
    ultimately show ?thesis using step_self [OF Cons.prems(1)] True by simp
  next
    case False
    then have t: "task \<in> set tasks" using Cons.prems(3) by simp
    then have "tr_task_id task \<noteq> tr_task_id t" using listed_other [OF Cons.prems(2)] by simp
    then have "obs (tr_task_id task) (wd_repo (step t w)) = obs (tr_task_id task) (wd_repo w)"
      by (intro obs_same step_other)
    with Cons.IH [OF ok l t] show ?thesis by simp
  qed
qed simp

end

text \<open>The lists of the queries are such lists.\<close>

lemma query_lists_stored:
  assumes ok: "repo_ok s" and q: "map_res row_to_task_record (sort_key k (filter P (rp_tasks s))) = Inr tasks"
  shows "listed tasks s"
  unfolding listed_def
proof
  have "distinct (map c_task_id (filter P (rp_tasks s)))"
    using ok by (simp add: repo_ok_def task_ids_def distinct_map_filter)
  then have "distinct (map c_task_id (sort_key k (filter P (rp_tasks s))))"
    by (simp add: distinct_map)
  then show "distinct (map tr_task_id tasks)" using map_res_rows [OF q] by simp
  show "list_all (\<lambda>task. get_task (tr_task_id task) s = Inr task) tasks"
  proof (unfold list_all_iff, intro ballI)
    fix task assume "task \<in> set tasks"
    then obtain r where r: "r \<in> set (rp_tasks s)" "row_to_task_record r = Inr task"
      using decoded_rows [OF q] by auto
    moreover have "find_row (c_task_id r) s = Some r" by (rule find_row_mem [OF ok r(1)])
    ultimately show "get_task (tr_task_id task) s = Inr task"
      by (simp add: get_task_def record_fields(1))
  qed
qed

lemma query_lists_exactly:
  assumes q: "map_res row_to_task_record (sort_key k (filter P (rp_tasks s))) = Inr tasks"
    and "get_task i s = Inr task" "\<And>r. row_to_task_record r = Inr task \<Longrightarrow> P r = Q task"
  shows "(task \<in> set tasks) = Q task"
  using select_exact [OF q assms(2)] assms(3) by blast

subsection \<open>Recovery of one task\<close>

lemma recovery_ops_succeed:
  assumes ok: "repo_ok s" and get: "get_task i s = Inr task"
  shows "snd (reserve_resources i rv m clk s) = Inr ()" "snd (release_resources i m clk s) = Inr ()"
    "snd (mark_recovered i clk s) = Inr ()" "snd (mark_recovery_lost i clk s) = Inr ()"
proof -
  obtain r where r: "find_row i s = Some r" "row_to_task_record r = Inr task"
    using get by (auto simp: get_task_row)
  show "snd (reserve_resources i rv m clk s) = Inr ()"
    by (simp add: reserve_resources_def transact_def insert_event_tx_outcome reserved.find_row_update r)
  show "snd (mark_recovered i clk s) = Inr ()"
    by (simp add: mark_recovered_def transact_def insert_event_tx_outcome recovered.find_row_update r)
  show "snd (release_resources i m clk s) = Inr ()"
    by (cases "tr_reservation task")
      (auto simp: release_resources_def transact_def active_reservation_record [OF r] parse_reservation_def
        has_active_reservation_def insert_event_tx_outcome released.find_row_update r)
  have "duration_fits (cu_duration_ms (recovery_lost_update (clk 0)))"
    by (simp add: recovery_lost_update_def duration_fits_def i64_max_def)
  then show "snd (mark_recovery_lost i clk s) = Inr ()"
    using complete_task_record [OF get, of "recovery_lost_update (clk 0)" clk] by (simp add: mark_recovery_lost_def)
qed

definition shim_alive :: "recover_host \<Rightarrow> TaskRecord \<Rightarrow> bool" where
  "shim_alive host task =
     is_some_and (tr_shim_pid task) (\<lambda>pid. process_exists (rh_alive host) (pid_as_i32 pid))"

text \<open>What recovery is to make of a task.\<close>

definition recovered_view :: "recover_host \<Rightarrow> TaskRecord \<Rightarrow> task_view" where
  "recovered_view host task =
     (let v = view_of task
      in if tr_status task = Accepted then v\<lparr>vw_held := None\<rparr>
         else if tr_status task = Running
         then (if shim_alive host task
               then v\<lparr>vw_held := Some (unwrap_or (vw_held v) (from_limits (tr_limits task)))\<rparr>
               else v\<lparr>vw_status := Failed, vw_held := None\<rparr>)
         else v)"

lemma recovery_lost_repo:
  "wd_repo (fst (recovery_lost host i w)) = run_op (OpRecoveryLost i, rh_lost_clock host i) (wd_repo w)"
  by (simp add: recovery_lost_def fst_and_then split: sum.split)

text \<open>A task as operations on the repository.\<close>

lemma recover_task_ops:
  "\<exists>ops. wd_repo (fst (recover_task host task w)) = fold run_op ops (wd_repo w) \<and>
     list_all (\<lambda>c. op_task (fst c) = tr_task_id task) ops"
proof -
  let ?i = "tr_task_id task"
  let ?rel = "(OpRelease ?i ''orphan accepted-task reservation released during recovery'', rh_release_clock host ?i)"
  let ?res = "(OpReserve ?i (from_limits (tr_limits task)) ''resource reservation reconstructed during recovery'',
    rh_reserve_clock host ?i)"
  let ?rec = "(OpRecovered ?i, rh_recovered_clock host ?i)"
  let ?lost = "(OpRecoveryLost ?i, rh_lost_clock host ?i)"
  have "\<exists>ops \<in> {[], [?rel], [?res], [?rec], [?res, ?rec], [?lost]}.
      wd_repo (fst (recover_task host task w)) = fold run_op ops (wd_repo w)"
    by (simp add: recover_task_def Let_def fst_and_then recovery_lost_repo
        split: TaskStatus.split option.split sum.split)
  then show ?thesis by (elim bexE) (intro exI conjI, assumption, auto)
qed

lemma ops_on_one_task:
  "list_all (\<lambda>c. op_task (fst c) = i) ops \<Longrightarrow> j \<noteq> i \<Longrightarrow> same_task j s (fold run_op ops s)"
proof (induction ops arbitrary: s)
  case (Cons c ops)
  then have "same_task j s (run_op c s)"
    using run_op_same_task [of "fst c" j s "snd c"] by simp
  with Cons show ?case by (auto simp: same_task_def)
qed (simp add: same_task_def)

lemma recover_task_self:
  assumes ok: "repo_ok (wd_repo w)" and get: "get_task (tr_task_id task) (wd_repo w) = Inr task"
  shows "view (tr_task_id task) (wd_repo (fst (recover_task host task w))) = Some (recovered_view host task)"
proof -
  let ?i = "tr_task_id task" and ?s = "wd_repo w"
  note runs = recovery_ops_succeed [OF ok get]
  note views = view_run_op [OF ok, of ?i] view_get [OF get] task_step_def
  have held: "\<not> has_active_reservation task \<Longrightarrow> vw_held (view_of task) = None"
    "has_active_reservation task \<Longrightarrow> \<exists>rv. vw_held (view_of task) = Some rv"
    by (auto simp: view_of_def has_active_reservation_def)
  have [simp]: "vw_status (view_of task) = tr_status task" by (simp add: view_of_def)
  show ?thesis
  proof (cases "tr_status task")
    case Accepted
    have "view ?i (run_op (OpRelease ?i m, clk) ?s) = Some ((view_of task)\<lparr>vw_held := None\<rparr>)" for m clk
      by (simp only: views fst_conv split_conv op_task.simps if_True spec_step.simps simp_thms)
    then show ?thesis
      using held(1) by (auto simp: recover_task_def Let_def Accepted recovered_view_def view_get [OF get])
  next
    case Running
    let ?s1 = "run_op (OpReserve ?i (from_limits (tr_limits task))
      ''resource reservation reconstructed during recovery'', rh_reserve_clock host ?i) ?s"
    let ?v1 = "(view_of task)\<lparr>vw_held := Some (from_limits (tr_limits task))\<rparr>"
    have ok1: "repo_ok ?s1" by (rule run_op_keeps_ok [OF ok])
    have "view ?i ?s1 = Some ?v1"
      by (simp only: views fst_conv split_conv op_task.simps if_True spec_step.simps simp_thms)
    then have v1: "view ?i (run_op (OpRecovered ?i, clk) ?s1) = Some ?v1" for clk
      by (simp only: view_run_op [OF ok1] task_step_def split_conv op_task.simps if_True spec_step.simps simp_thms)
    have v2: "view ?i (run_op (OpRecovered ?i, clk) ?s) = Some (view_of task)" for clk
      by (simp only: views fst_conv split_conv op_task.simps if_True spec_step.simps simp_thms)
    have v3: "view ?i (run_op (OpRecoveryLost ?i, clk) ?s) = Some ((view_of task)\<lparr>vw_status := Failed, vw_held := None\<rparr>)" for clk
      by (simp only: views fst_conv split_conv op_task.simps if_True spec_step.simps simp_thms)
    show ?thesis
    proof (cases "shim_alive host task")
      case False
      then show ?thesis
        using v3 by (auto simp: recover_task_def Let_def Running recovered_view_def shim_alive_def recovery_lost_repo
            split: option.split)
    next
      case True
      then obtain pid where pid: "tr_shim_pid task = Some pid" "process_exists (rh_alive host) (pid_as_i32 pid)"
        by (auto simp: shim_alive_def is_some_and_def split: option.splits)
      show ?thesis
      proof (cases "has_active_reservation task")
        case active: True
        then show ?thesis
          using v2 held(2) True by (auto simp: recover_task_def Let_def Running recovered_view_def pid)
      next
        case inactive: False
        then show ?thesis
          using v1 held(1) True runs(1)
          by (simp add: recover_task_def Let_def Running recovered_view_def pid fst_and_then)
      qed
    qed
  qed (simp_all add: recover_task_def Let_def recovered_view_def view_get [OF get])
qed

lemma view_present: "view i s \<noteq> None \<Longrightarrow> \<exists>task. get_task i s = Inr task"
  by (auto simp: view_def split: sum.splits)

lemma recover_task_succeeds:
  assumes ok: "repo_ok (wd_repo w)" and get: "get_task (tr_task_id task) (wd_repo w) = Inr task"
    and faults: "rh_faults host = (\<lambda>_. None)"
  shows "snd (recover_task host task w) = Inr ()"
proof -
  let ?i = "tr_task_id task" and ?s = "wd_repo w"
  note runs = recovery_ops_succeed [OF ok get]
  have after: "\<exists>t. get_task ?i (run_op (c, clk) ?s) = Inr t" if "spec_step c (Some (view_of task)) \<noteq> None" "op_task c = ?i" for c clk
    by (rule view_present) (use that view_run_op [OF ok, of ?i c clk] view_get [OF get] in \<open>simp add: task_step_def\<close>)
  have lost: "snd (recovery_lost host ?i w) = Inr ()"
    using after [of "OpRecoveryLost ?i" "rh_lost_clock host ?i"] runs(4) [of "rh_lost_clock host ?i"]
    by (auto simp: recovery_lost_def snd_and_then faults is_ok_conv intro!: persist_without_faults)
  let ?c = "(OpReserve ?i (from_limits (tr_limits task)) ''resource reservation reconstructed during recovery'',
    rh_reserve_clock host ?i)"
  obtain t where t: "get_task ?i (run_op ?c ?s) = Inr t" using after [of "fst ?c" "snd ?c"] by auto
  have recovered: "snd (mark_recovered ?i clk (run_op ?c ?s)) = Inr ()" for clk
    by (rule recovery_ops_succeed(3) [OF run_op_keeps_ok [OF ok] t])
  show ?thesis
    using lost runs recovered
    by (cases "tr_status task") (simp_all add: recover_task_def Let_def snd_and_then split: option.split)
qed

interpretation recovery: task_sweep "\<lambda>task w. fst (recover_task host task w)" view
    "\<lambda>task old. Some (recovered_view host task)" for host
proof
  fix w task
  show "repo_ok (wd_repo w) \<Longrightarrow> repo_ok (wd_repo (fst (recover_task host task w)))"
    using recover_task_ops [of host task w] by (auto intro: repo_sys.fold_inv)
  show "j \<noteq> tr_task_id task \<Longrightarrow> same_task j (wd_repo w) (wd_repo (fst (recover_task host task w)))" for j
    using recover_task_ops [of host task w] by (auto intro: ops_on_one_task)
qed (simp_all add: recover_task_self view_same_task)

lemma recover_tasks_fold:
  assumes "rh_faults host = (\<lambda>_. None)"
  shows "repo_ok (wd_repo w) \<Longrightarrow> listed tasks (wd_repo w) \<Longrightarrow>
    recover_tasks host tasks w = (fold (\<lambda>task w. fst (recover_task host task w)) tasks w, Inr ())"
proof (induction tasks arbitrary: w)
  case (Cons task tasks)
  have "get_task (tr_task_id task) (wd_repo w) = Inr task" using Cons.prems(2) by (simp add: listed_def)
  then obtain w' where w': "recover_task host task w = (w', Inr ())"
    using recover_task_succeeds [OF Cons.prems(1) _ assms] by (metis prod.collapse)
  moreover have "repo_ok (wd_repo w')" "listed tasks (wd_repo w')"
    using recovery.step_ok [OF Cons.prems(1), of host task] recovery.listed_step [OF Cons.prems(2), of host]
    by (simp_all add: w')
  ultimately show ?case using Cons.IH [of w'] by simp
qed simp

text \<open>
  C13: Recovery restores order: when the file system refuses nothing, it succeeds, wakes the dispatcher
  and makes of every stored task exactly what it should be. Afterwards no waiting task holds
  resources, and a running task is one whose shim lives, and holds its resources; a running task
  whose shim is gone has failed and holds nothing; tasks that were over are as they were. A shim lives
  when there is a process with its recorded number, as in the code.
\<close>

theorem recovery_restores_order:
  assumes "repo_ok (stored_repo sx)" "rh_faults host = (\<lambda>_. None)"
  shows "let (sx', r) = recover host sx in r = Inr () \<and> sx_notified sx' \<and>
    (case get_task i (stored_repo sx) of
       Inl _ \<Rightarrow> view i (stored_repo sx') = None
     | Inr task \<Rightarrow>
         view i (stored_repo sx') = Some (recovered_view host task) \<and>
         (vw_status (recovered_view host task) = Accepted \<longrightarrow> vw_held (recovered_view host task) = None) \<and>
         (vw_status (recovered_view host task) = Running \<longrightarrow>
            vw_held (recovered_view host task) \<noteq> None \<and> shim_alive host task) \<and>
         (is_terminal (tr_status task) \<longrightarrow> recovered_view host task = view_of task))"
proof -
  let ?s = "stored_repo sx" and ?sweep = "fold (\<lambda>task w. fst (recover_task host task w))"
  obtain tasks where tasks: "list_non_terminal ?s = Inr tasks"
    using list_queries_ok(2) [OF assms(1)] by (auto simp: is_ok_conv)
  note q = tasks [unfolded list_non_terminal_def]
  have listed: "listed tasks ?s" by (rule query_lists_stored [OF assms(1) q])
  have run: "recover host sx = (notify_dispatcher (sx\<lparr>sx_world := ?sweep tasks (sx_world sx)\<rparr>), Inr ())"
    by (simp add: recover_def tasks in_service_def recover_tasks_fold [OF assms(2,1) listed])
  have spec: "(vw_status (recovered_view host task) = Accepted \<longrightarrow> vw_held (recovered_view host task) = None) \<and>
      (vw_status (recovered_view host task) = Running \<longrightarrow>
         vw_held (recovered_view host task) \<noteq> None \<and> shim_alive host task) \<and>
      (is_terminal (tr_status task) \<longrightarrow> recovered_view host task = view_of task)" for task
    by (cases "tr_status task") (auto simp: recovered_view_def Let_def view_of_def)
  show ?thesis
  proof (cases "get_task i ?s")
    case (Inl e)
    then have "view i ?s = None" by (simp add: view_def)
    moreover have "i \<notin> set (map tr_task_id tasks)"
      using listed Inl by (auto simp: listed_def list_all_iff)
    ultimately show ?thesis
      using recovery.sweep_other [of i tasks host "sx_world sx"] by (simp add: run Inl)
  next
    case (Inr task)
    then have i: "tr_task_id task = i" by (rule get_task_id)
    have mem: "(task \<in> set tasks) = (\<not> is_terminal (tr_status task))"
      by (rule query_lists_exactly [OF q Inr]) (cases "tr_status task"; simp add: status_column)
    have "view i (wd_repo (?sweep tasks (sx_world sx))) = Some (recovered_view host task)"
    proof (cases "is_terminal (tr_status task)")
      case True
      have "i \<notin> set (map tr_task_id tasks)"
        using listed mem True Inr by (auto simp: listed_def list_all_iff)
      then show ?thesis
        using recovery.sweep_other [of i tasks host "sx_world sx"] view_get [OF Inr] spec [of task] True by simp
    next
      case False
      then show ?thesis using recovery.sweep [OF assms(1) listed, of task host] mem i by simp
    qed
    with spec [of task] show ?thesis by (simp add: run Inr)
  qed
qed

definition sample_recover_host :: recover_host where
  "sample_recover_host =
     \<lparr>rh_alive = (\<lambda>pid. pid = 77), rh_release_clock = (\<lambda>_. sample_clock), rh_reserve_clock = (\<lambda>_. sample_clock),
      rh_recovered_clock = (\<lambda>_. sample_clock), rh_lost_clock = (\<lambda>_. sample_clock), rh_faults = (\<lambda>_. None), rh_now = 9\<rparr>"

theorem recovery_restores_order_witness:
  "let sx = sample_service\<lparr>sx_world := \<lparr>wd_repo = run_history sample_history, wd_files = no_files\<rparr>\<rparr>;
       (sx', r) = recover sample_recover_host sx
   in r = Inr () \<and> (case view ''t1'' (stored_repo sx') of None \<Rightarrow> False
        | Some v \<Rightarrow> vw_status v = Running \<and> vw_held v \<noteq> None)"
proof -
  let ?sx = "sample_service\<lparr>sx_world := \<lparr>wd_repo = run_history sample_history, wd_files = no_files\<rparr>\<rparr>"
  have "case get_task ''t1'' (run_history sample_history) of Inl _ \<Rightarrow> False
    | Inr task \<Rightarrow> tr_status task = Running \<and> tr_shim_pid task = Some 77"
    by code_simp
  then obtain task where task: "get_task ''t1'' (stored_repo ?sx) = Inr task"
      "tr_status task = Running" "tr_shim_pid task = Some 77"
    by (auto split: sum.splits)
  have ok: "repo_ok (stored_repo ?sx)" by (simp add: run_history_ok)
  have host: "rh_faults sample_recover_host = (\<lambda>_. None)" by (simp add: sample_recover_host_def)
  have "pid_as_i32 77 = 77" by code_simp
  then have "shim_alive sample_recover_host task"
    by (simp add: shim_alive_def task(3) process_exists_def sample_recover_host_def)
  then have "vw_status (recovered_view sample_recover_host task) = Running \<and>
      vw_held (recovered_view sample_recover_host task) \<noteq> None"
    by (simp add: recovered_view_def Let_def task(2)) (simp add: view_of_def task(2))
  then show ?thesis
    using recovery_restores_order [OF ok host, of "''t1''"] task(1)
    by (auto simp: Let_def simp del: not_None_eq split: prod.splits)
qed

subsection \<open>Garbage collection\<close>

text \<open>What is kept of a task: what a client reads of it, and its events.\<close>

definition kept :: "string \<Rightarrow> repo \<Rightarrow> TaskRecord option \<times> event_row list" where
  "kept i s = (case get_task i s of Inl _ \<Rightarrow> None | Inr task \<Rightarrow> Some task, task_log i s)"

lemma kept_Some: "kept i s = (Some task, l) \<longleftrightarrow> get_task i s = Inr task \<and> task_log i s = l"
  by (auto simp: kept_def split: sum.splits)

lemma kept_None: "repo_ok s \<Longrightarrow> kept i s = (None, l) \<Longrightarrow> get_task i s = Inl (NotFound i) \<and> task_log i s = l"
proof -
  assume ok: "repo_ok s" and k: "kept i s = (None, l)"
  then have "\<not> is_ok (get_task i s)" by (auto simp: kept_def is_ok_conv split: sum.splits)
  then have "find_row i s = None" using get_task_ok [OF ok, of i] find_row_None [of i s] by simp
  with k show ?thesis by (auto simp: kept_def get_task_def)
qed

lemma gc_task_repo:
  "wd_repo (gc_task remove task w) =
     (if remove (tr_task_dir task) = NotRemoved then wd_repo w
      else run_op (OpDelete (tr_task_id task), clk) (wd_repo w))"
  by (simp add: gc_task_def split: removal.split)

lemma task_log_deleted: "task_log i (fst (delete_task i s)) = []"
  by (simp add: task_log_def delete_task_def)

interpretation gc: task_sweep "gc_task remove" kept
    "\<lambda>task old. if remove (tr_task_dir task) = NotRemoved then old else (None, [])" for remove
proof
  fix w task
  show "repo_ok (wd_repo w) \<Longrightarrow> repo_ok (wd_repo (gc_task remove task w))"
    using run_op_keeps_ok by (simp add: gc_task_repo [of _ _ _ sample_clock] del: run_op.simps)
  show "j \<noteq> tr_task_id task \<Longrightarrow> same_task j (wd_repo w) (wd_repo (gc_task remove task w))" for j
    using run_op_same_task [of "OpDelete (tr_task_id task)" j "wd_repo w" sample_clock]
    by (simp add: gc_task_repo [of _ _ _ sample_clock] same_task_def)
  show "kept (tr_task_id task) (wd_repo (gc_task remove task w)) =
      (if remove (tr_task_dir task) = NotRemoved then kept (tr_task_id task) (wd_repo w) else (None, []))"
    by (simp add: gc_task_repo [of _ _ _ sample_clock] kept_def get_task_def rows_delete_task task_log_deleted)
qed (simp add: kept_def get_task_def same_task_def)

text \<open>A finished task whose end is at least the retention, in seconds, ago.\<close>

definition past_retention :: "u64 \<Rightarrow> int \<Rightarrow> TaskRecord \<Rightarrow> bool" where
  "past_retention retention_secs now task =
     (is_terminal (tr_status task) \<and>
      (case tr_finished_at task of None \<Rightarrow> False | Some t \<Rightarrow> 1000 * uint retention_secs \<le> now - t))"

text \<open>
  C30: Garbage collection deletes exactly what has expired: for a retention that the time library can
  represent, a stored task disappears with its events when it is over, ended at least the retention of
  the settings ago and its directory is gone or could be removed; every other task, and every event of
  it, stays as it was, also when some removals fail.
\<close>

theorem gc_deletes_exactly_the_expired:
  assumes "repo_ok (wd_repo w)" "get_task i (wd_repo w) = Inr task"
    and "from_std (se_result_retention_secs settings) = Some (1000 * uint (se_result_retention_secs settings))"
  shows "let s = wd_repo (gc_pass from_std remove settings now w)
    in repo_ok s \<and>
       (if past_retention (se_result_retention_secs settings) now task \<and> remove (tr_task_dir task) \<noteq> NotRemoved
        then get_task i s = Inl (NotFound i) \<and> task_log i s = []
        else get_task i s = Inr task \<and> task_log i s = task_log i (wd_repo w))"
proof -
  let ?cutoff = "gc_cutoff from_std (se_result_retention_secs settings) now" and ?s = "wd_repo w"
  obtain tasks where tasks: "list_gc_candidates ?cutoff ?s = Inr tasks"
    using list_queries_ok(4) [OF assms(1), of ?cutoff] by (auto simp: is_ok_conv)
  note q = tasks [unfolded list_gc_candidates_def]
  have listed: "listed tasks ?s" by (rule query_lists_stored [OF assms(1) q])
  let ?w = "fold (gc_task remove) tasks w"
  have run: "gc_pass from_std remove settings now w = ?w" by (simp add: gc_pass_def tasks)
  have i: "tr_task_id task = i" by (rule get_task_id [OF assms(2)])
  have "(task \<in> set tasks) =
      (is_terminal (tr_status task) \<and> is_some_and (tr_finished_at task) (\<lambda>t. t \<le> ?cutoff))"
    by (rule query_lists_exactly [OF q assms(2)])
      (simp only: gc_row_def status_column terminal_status_texts record_fields(10))
  moreover have "(t \<le> ?cutoff) = (1000 * uint (se_result_retention_secs settings) \<le> now - t)" for t
    by (auto simp: gc_cutoff_def assms(3))
  ultimately have mem: "(task \<in> set tasks) = past_retention (se_result_retention_secs settings) now task"
    by (simp add: past_retention_def is_some_and_def)
  have ok: "repo_ok (wd_repo ?w)" by (rule gc.sweep_ok [OF assms(1)])
  have old: "kept i ?s = (Some task, task_log i ?s)" by (simp add: kept_Some assms(2))
  have new: "kept i (wd_repo ?w) =
      (if task \<in> set tasks \<and> remove (tr_task_dir task) \<noteq> NotRemoved then (None, []) else kept i ?s)"
  proof (cases "task \<in> set tasks")
    case True
    then show ?thesis using gc.sweep [OF assms(1) listed True, of remove] by (simp add: i)
  next
    case False
    then have "i \<notin> set (map tr_task_id tasks)"
      using listed assms(2) by (auto simp: listed_def list_all_iff)
    then show ?thesis using False gc.sweep_other [of i tasks remove w] by simp
  qed
  show ?thesis
  proof (cases "task \<in> set tasks \<and> remove (tr_task_dir task) \<noteq> NotRemoved")
    case True
    then have "kept i (wd_repo ?w) = (None, [])" using new by simp
    from kept_None [OF ok this] True show ?thesis by (simp add: run Let_def ok mem)
  next
    case False
    then have "kept i (wd_repo ?w) = (Some task, task_log i ?s)" using new old by (simp only: if_False)
    then show ?thesis using False by (auto simp: run Let_def ok mem kept_Some)
  qed
qed

theorem gc_deletes_exactly_the_expired_witness:
  "let w = \<lparr>wd_repo = run_history (sample_history @ [(OpComplete ''t1'' sample_completion, sample_clock)]), wd_files = no_files\<rparr>;
       from_std = (\<lambda>secs. Some (1000 * uint secs))
   in get_task ''t1'' (wd_repo (gc_pass from_std (\<lambda>_. NothingToRemove) sample_settings 70000 w)) = Inl (NotFound ''t1'') \<and>
      is_ok (get_task ''t1'' (wd_repo (gc_pass from_std (\<lambda>_. NotRemoved) sample_settings 70000 w))) \<and>
      is_ok (get_task ''t1'' (wd_repo (gc_pass from_std (\<lambda>_. NothingToRemove) sample_settings 60000 w)))"
proof -
  let ?ops = "sample_history @ [(OpComplete ''t1'' sample_completion, sample_clock)]"
  let ?w = "\<lparr>wd_repo = run_history ?ops, wd_files = no_files\<rparr>"
  have secs: "se_result_retention_secs sample_settings = 60" by (simp add: sample_settings_def)
  have "case get_task ''t1'' (run_history ?ops) of Inl _ \<Rightarrow> False
    | Inr task \<Rightarrow> is_terminal (tr_status task) \<and> is_some_and (tr_finished_at task) (\<lambda>t. 0 < t \<and> t \<le> 10000)"
    by code_simp
  then obtain task where task: "get_task ''t1'' (wd_repo ?w) = Inr task"
      "past_retention 60 70000 task" "\<not> past_retention 60 60000 task"
    by (auto simp: past_retention_def is_some_and_def split: sum.splits option.splits)
  have ok: "repo_ok (wd_repo ?w)" by (simp add: run_history_ok)
  note gone = gc_deletes_exactly_the_expired [OF ok task(1), of "\<lambda>secs. Some (1000 * uint secs)" sample_settings]
  show ?thesis
    using gone [of "\<lambda>_. NothingToRemove" 70000] gone [of "\<lambda>_. NotRemoved" 70000]
      gone [of "\<lambda>_. NothingToRemove" 60000] task(2,3)
    by (simp add: secs Let_def is_ok_conv)
qed

end
