(* ===== verification/Programs.thy ===== *)
theory Programs
  imports Threads Server Recovery
begin

section \<open>Programs: the threads of the server and the shims, one transaction at a time\<close>

text \<open>
  The operations of the other theories run from start to end. The server runs them concurrently: a
  request and the dispatcher take turns at the database, and a shim starts as soon as it is spawned.
  Here each operation is a program of atomic actions, one for every transaction or query of the
  database, every access to the files of a task and every signal; what an operation read earlier it
  keeps, stale or not. A program that runs alone is the operation, which is proved for each. Two
  accesses are one action for brevity where nothing is modelled between them: the files a submission
  prepares, a result file and the status it is made of, and a status a client reads.
\<close>

subsection \<open>What the threads share\<close>

record machine =
  mc_service :: service
  mc_spawned :: "(string \<times> u32 \<times> string list) list"
  mc_cgroup :: "(string \<times> string) list"
  mc_started :: "(u32 \<times> command) list"
  mc_sent :: "(signal_target \<times> signal) list"

abbreviation mc_world :: "machine \<Rightarrow> world" where
  "mc_world m \<equiv> sx_world (mc_service m)"

abbreviation mc_repo :: "machine \<Rightarrow> repo" where
  "mc_repo m \<equiv> wd_repo (mc_world m)"

definition put_world :: "world \<Rightarrow> machine \<Rightarrow> machine" where
  "put_world w m = m\<lparr>mc_service := (mc_service m)\<lparr>sx_world := w\<rparr>\<rparr>"

definition put_service :: "service \<Rightarrow> machine \<Rightarrow> machine" where
  "put_service sx m = m\<lparr>mc_service := sx\<rparr>"

definition on_service :: "(service \<Rightarrow> service \<times> 'r) \<Rightarrow> unit \<Rightarrow> (machine, unit \<times> 'r) act" where
  "on_service = focus (\<lambda>m _. mc_service m) put_service (\<lambda>_. ())"

text \<open>The dispatcher keeps its two accounts.\<close>

type_synonym accounts = "ResourceCapacity \<times> ResourceCapacity btree"

definition get_dispatcher :: "machine \<Rightarrow> accounts \<Rightarrow> dispatcher" where
  "get_dispatcher m a =
     \<lparr>dp_world = mc_world m, dp_reserved = fst a, dp_tenants = snd a, dp_spawned = mc_spawned m\<rparr>"

definition put_dispatcher :: "dispatcher \<Rightarrow> machine \<Rightarrow> machine" where
  "put_dispatcher d m = (put_world (dp_world d) m)\<lparr>mc_spawned := dp_spawned d\<rparr>"

definition accounts_of :: "dispatcher \<Rightarrow> accounts" where
  "accounts_of d = (dp_reserved d, dp_tenants d)"

definition on_dispatcher :: "(dispatcher \<Rightarrow> dispatcher \<times> 'r) \<Rightarrow> accounts \<Rightarrow> (machine, accounts \<times> 'r) act" where
  "on_dispatcher = focus get_dispatcher put_dispatcher accounts_of"

definition get_shim :: "machine \<Rightarrow> shim" where
  "get_shim m =
     \<lparr>sm_world = mc_world m, sm_cgroup = mc_cgroup m, sm_started = mc_started m, sm_signals = mc_sent m\<rparr>"

definition put_shim :: "shim \<Rightarrow> machine \<Rightarrow> machine" where
  "put_shim sm m =
     (put_world (sm_world sm) m)\<lparr>mc_cgroup := sm_cgroup sm, mc_started := sm_started sm, mc_sent := sm_signals sm\<rparr>"

definition on_shim :: "(shim \<Rightarrow> shim \<times> 'r) \<Rightarrow> unit \<Rightarrow> (machine, unit \<times> 'r) act" where
  "on_shim = focus (\<lambda>m _. get_shim m) put_shim (\<lambda>_. ())"

text \<open>The supervision loop keeps what it noticed and which signals it sent.\<close>

record noticed =
  no_timeout_started :: "nat option"
  no_cancel_started :: "nat option"
  no_term_sent :: bool
  no_kill_sent :: bool

definition get_supervision :: "machine \<Rightarrow> noticed \<Rightarrow> supervision" where
  "get_supervision m k =
     \<lparr>sv_shim = get_shim m, sv_timeout_started = no_timeout_started k, sv_cancel_started = no_cancel_started k,
      sv_term_sent = no_term_sent k, sv_kill_sent = no_kill_sent k\<rparr>"

definition noticed_of :: "supervision \<Rightarrow> noticed" where
  "noticed_of sv =
     \<lparr>no_timeout_started = sv_timeout_started sv, no_cancel_started = sv_cancel_started sv,
      no_term_sent = sv_term_sent sv, no_kill_sent = sv_kill_sent sv\<rparr>"

definition on_supervision :: "(supervision \<Rightarrow> supervision \<times> 'r) \<Rightarrow> noticed \<Rightarrow> (machine, noticed \<times> 'r) act" where
  "on_supervision = focus get_supervision (\<lambda>sv. put_shim (sv_shim sv)) noticed_of"

interpretation serving: part "\<lambda>m (_ :: unit). mc_service m" put_service "\<lambda>_. ()"
  by unfold_locales (simp_all add: put_service_def)

interpretation dispatching: part get_dispatcher put_dispatcher accounts_of
  by unfold_locales (simp_all add: get_dispatcher_def put_dispatcher_def accounts_of_def put_world_def)

interpretation shimming: part "\<lambda>m (_ :: unit). get_shim m" put_shim "\<lambda>_. ()"
  by unfold_locales (simp_all add: get_shim_def put_shim_def put_world_def)

interpretation supervising: part get_supervision "\<lambda>sv. put_shim (sv_shim sv)" noticed_of
  by unfold_locales
    (simp_all add: get_supervision_def noticed_of_def get_shim_def put_shim_def put_world_def)

subsection \<open>The dispatcher\<close>

definition launch_program ::
    "Settings \<Rightarrow> ResourceLedger \<Rightarrow> dispatch_host \<Rightarrow> TaskRecord \<Rightarrow> TaskResourceReservation \<Rightarrow> accounts \<Rightarrow>
     (machine, accounts \<times> unit app_result) act" where
  "launch_program settings l host task reservation a =
     (let i = tr_task_id task in
      act_then (on_dispatcher (in_world (on_repo
          (reserve_resources i reservation ''task resources reserved'' (dh_reserve_clock host)))) a) (\<lambda>_ a.
      let a = (add_reservation (fst a) reservation,
               case task_tenant task of
                 Some t \<Rightarrow> charge_tenant l t reservation (snd a)
               | None \<Rightarrow> snd a)
      in case dh_exe host of
           Inl err \<Rightarrow> Return (a, Inl (LaunchFailed (''resolve current exe: '' @ err)))
         | Inr exe \<Rightarrow>
             (case dh_spawn host of
                Inr pid \<Rightarrow>
                  act_then (on_dispatcher (\<lambda>d.
                    (d\<lparr>dp_spawned := dp_spawned d @ [(i, pid, exe # shim_args settings i)]\<rparr>, Inr ())) a) (\<lambda>_ a.
                  on_dispatcher (in_world (on_repo (mark_dispatched i pid (dh_dispatched_clock host)))) a)
              | Inl err \<Rightarrow>
                  act_then (on_dispatcher (in_world (on_repo (complete_task i
                      (spawn_failed_update (dh_failed_at host) err) (dh_complete_clock host)))) a) (\<lambda>_ a.
                  on_dispatcher (in_world (persist_latest_result (dh_faults host) (dh_now host) i))
                    (subtract_reservation (fst a) reservation, snd a)))))"

definition dispatch_task_program ::
    "Settings \<Rightarrow> ResourceLedger \<Rightarrow> dispatch_host \<Rightarrow> TaskRecord \<Rightarrow> accounts \<Rightarrow>
     (machine, accounts \<times> unit app_result) act" where
  "dispatch_task_program settings l host task a =
     (let i = tr_task_id task in
      if tr_kill_requested task then
        act_then (on_dispatcher (in_world (on_repo
            (cancel_accepted_task i killed_before_execution (dh_cancel_clock host)))) a) (\<lambda>_ a.
        on_dispatcher (in_world (persist_latest_result (dh_faults host) (dh_now host) i)) a)
      else if has_active_reservation task then Return (a, Inr ())
      else
        let reservation = unwrap_or (tr_reservation task) (from_limits (tr_limits task)) in
        if \<not> can_reserve l (fst a) reservation then Return (a, Inr ())
        else
          let tenant = task_tenant task;
              tr = unwrap_or (Option.bind tenant (map_of (snd a)))
                     (empty_tenant_capacity l (unwrap_or tenant []))
          in if \<not> can_reserve_for_tenant l tenant tr reservation then Return (a, Inr ())
             else launch_program settings l host task reservation a)"

fun dispatch_tasks_program ::
    "Settings \<Rightarrow> ResourceLedger \<Rightarrow> (string \<Rightarrow> dispatch_host) \<Rightarrow> TaskRecord list \<Rightarrow> accounts \<Rightarrow>
     (machine, accounts \<times> unit app_result) act" where
  "dispatch_tasks_program settings l hosts [] a = Return (a, Inr ())"
| "dispatch_tasks_program settings l hosts (task # tasks) a =
     act_then (dispatch_task_program settings l (hosts (tr_task_id task)) task a) (\<lambda>_ a.
     dispatch_tasks_program settings l hosts tasks a)"

definition dispatch_program ::
    "Settings \<Rightarrow> ResourceLedger \<Rightarrow> (string \<Rightarrow> dispatch_host) \<Rightarrow> (machine, accounts \<times> unit app_result) act" where
  "dispatch_program settings l hosts =
     act_then (on_dispatcher (\<lambda>d. (d, list_active_reservations (wd_repo (dp_world d)))) (reserved_capacity l [], []))
       (\<lambda>active _.
     act_then (on_dispatcher (\<lambda>d. (d, list_accepted (se_max_queued_tasks settings) (wd_repo (dp_world d))))
         (reserved_capacity l (List.map_filter tr_reservation active), tenant_account l [] active)) (\<lambda>tasks a.
     dispatch_tasks_program settings l hosts tasks a))"

subsection \<open>Requests\<close>

definition store_program ::
    "submit_host \<Rightarrow> string \<Rightarrow> NewTaskRecord \<Rightarrow> (machine, unit \<times> SubmitTaskResponse app_result) act" where
  "store_program host task_id n =
     act_then (on_service (in_service (on_files (prepare_task_files (sb_faults host) n))) ()) (\<lambda>_ _.
     act_then (on_service (in_service (on_repo (insert_task n (sb_insert_clock host)))) ()) (\<lambda>_ _.
     on_service (\<lambda>sx. (notify_dispatcher sx,
       Inr \<lparr>sr_task_id = task_id, sr_handle_id = task_id, sr_status = Accepted\<rparr>)) ()))"

definition submit_program ::
    "Settings \<Rightarrow> ResourceLedger \<Rightarrow> RuntimeCapabilities \<Rightarrow> submit_host \<Rightarrow> SubmitTaskRequest \<Rightarrow>
     (machine, unit \<times> SubmitTaskResponse app_result) act" where
  "submit_program settings l caps host request =
     (case check_submission settings l caps request of
        Inl e \<Rightarrow> Return ((), Inl e)
      | Inr plan \<Rightarrow>
          act_then (on_service (\<lambda>sx. (sx, Inr (count_accepted (wd_repo (sx_world sx))))) ()) (\<lambda>queued _.
          if unat (se_max_queued_tasks settings) \<le> queued then Return ((), Inl QueueFull)
          else
            (let task_id = unwrap_or (rq_task_id request) (sb_generated_id host)
             in case resolve_workspace_dir (path_join (se_tasks_dir settings) task_id) (rq_sandbox request) of
                  Inl e \<Rightarrow> Return ((), Inl e)
                | Inr workspace_dir \<Rightarrow>
                    store_program host task_id (new_task_record settings task_id request plan workspace_dir))))"

definition stop_program :: "kill_host \<Rightarrow> string \<Rightarrow> TaskRecord \<Rightarrow> (machine, unit \<times> unit app_result) act" where
  "stop_program host i updated =
     (if tr_status updated = Accepted
      then on_service (in_service (on_repo (cancel_accepted_task i killed_before_execution (kh_cancel_clock host)))) ()
      else act_then (on_service (signal_task host updated) ()) (\<lambda>_ _.
           on_service (\<lambda>sx. (sx\<lparr>sx_escalations := sx_escalations sx @ [(i, tr_pgid updated)]\<rparr>, Inr ())) ()))"

text \<open>\<open>set_cancel_requested\<close> commits before it reads the task again.\<close>

definition request_cancel :: "string \<Rightarrow> clock \<Rightarrow> repo \<Rightarrow> repo \<times> unit app_result" where
  "request_cancel i clk s =
     transact (\<lambda>s.
       insert_event_tx i EvKillRequested (Some ''kill requested'') None (clk 1)
         (update_task i (\<lambda>r. True) (cancel_requested_row (clk 0)) s)) s"

definition kill_program ::
    "kill_host \<Rightarrow> string \<Rightarrow> string option \<Rightarrow> (machine, unit \<times> TaskStatusResponse app_result) act" where
  "kill_program host i caller =
     act_then (on_service (\<lambda>sx. (sx, get_task i (wd_repo (sx_world sx)))) ()) (\<lambda>task _.
     case caller_is_owner task caller of
       Inl e \<Rightarrow> Return ((), Inl e)
     | Inr _ \<Rightarrow>
         if is_terminal (tr_status task)
         then on_service (\<lambda>sx. (sx, build_status_response (kh_faults host) (kh_now host) (wd_files (sx_world sx)) task)) ()
         else
           act_then (on_service (in_service (on_repo (request_cancel i (kh_request_clock host)))) ()) (\<lambda>_ _.
           act_then (on_service (\<lambda>sx. (sx, get_task i (wd_repo (sx_world sx)))) ()) (\<lambda>updated _.
           act_then (stop_program host i updated) (\<lambda>_ _.
           act_then (on_service (\<lambda>sx. (notify_dispatcher sx, Inr ())) ()) (\<lambda>_ _.
           on_service (\<lambda>sx. (sx, get_task_status (kh_faults host) (kh_now host) i (sx_world sx))) ())))))"

text \<open>Every other request only reads.\<close>

definition handle_program ::
    "runtime \<Rightarrow> serve_host \<Rightarrow> http_request \<Rightarrow> endpoint \<Rightarrow> (machine, unit \<times> http_reply) act" where
  "handle_program rt host request endpoint =
     (case endpoint of
        CreateTask \<Rightarrow>
          (case hq_body request of
             Inl status \<Rightarrow> Return ((), framework_reply status)
           | Inr payload \<Rightarrow>
               act_bind (submit_program (rt_settings rt) (rt_ledger rt) (rt_capabilities rt) (vh_submit host) payload)
                 (\<lambda>(_, r). Return ((), json_reply RSubmitted r)))
      | KillTask i \<Rightarrow>
          act_bind (kill_program (vh_kill host) i (caller_owner (hq_owner request)))
            (\<lambda>(_, r). Return ((), json_reply RTask r))
      | _ \<Rightarrow> on_service (handle rt host request endpoint) ())"

definition serve_program :: "runtime \<Rightarrow> serve_host \<Rightarrow> http_request \<Rightarrow> (machine, unit \<times> http_reply) act" where
  "serve_program rt host request =
     (case build_router (hq_path request) of
        None \<Rightarrow> Return ((), framework_reply 404)
      | Some (accepted_method, endpoint) \<Rightarrow>
          if hq_method request = accepted_method then handle_program rt host request endpoint
          else Return ((), framework_reply 405))"

subsection \<open>Escalation, garbage collection and recovery\<close>

definition escalation_program :: "string \<times> int option \<Rightarrow> (machine, unit \<times> unit app_result) act" where
  "escalation_program = (\<lambda>(i, pgid).
     act_then (on_service (\<lambda>sx. (sx, get_task i (wd_repo (sx_world sx)))) ()) (\<lambda>task _.
     if tr_status task = Running
     then
       (case option_or pgid (tr_pgid task) of
          Some pgid \<Rightarrow> on_service (\<lambda>sx. (sx\<lparr>sx_signals := sx_signals sx @ [(ProcessGroup pgid, SIGKILL)]\<rparr>, Inr ())) ()
        | None \<Rightarrow>
            (case tr_pid task of
               Some pid \<Rightarrow>
                 on_service (\<lambda>sx. (sx\<lparr>sx_signals := sx_signals sx @ [(SingleProcess (pid_as_i32 pid), SIGKILL)]\<rparr>, Inr ())) ()
             | None \<Rightarrow> Return ((), Inr ())))
     else Return ((), Inr ())))"

abbreviation with_world :: "(world \<Rightarrow> world \<times> 'a app_result) \<Rightarrow> (machine, unit \<times> 'a app_result) act" where
  "with_world f \<equiv> on_service (in_service f) ()"

text \<open>A task that cannot be removed is skipped, and so is an error of the database.\<close>

fun gc_tasks_program :: "(string \<Rightarrow> removal) \<Rightarrow> TaskRecord list \<Rightarrow> (machine, unit \<times> unit app_result) act" where
  "gc_tasks_program remove [] = Return ((), Inr ())"
| "gc_tasks_program remove (task # tasks) =
     (case remove (tr_task_dir task) of
        NotRemoved \<Rightarrow> gc_tasks_program remove tasks
      | NothingToRemove \<Rightarrow>
          act_bind (with_world (on_repo (delete_task (tr_task_id task)))) (\<lambda>_. gc_tasks_program remove tasks)
      | Removed \<Rightarrow>
          act_bind (with_world (\<lambda>w. (w\<lparr>wd_files := remove_dir_all (tr_task_dir task) (wd_files w)\<rparr>, Inr ()))) (\<lambda>_.
          act_bind (with_world (on_repo (delete_task (tr_task_id task)))) (\<lambda>_. gc_tasks_program remove tasks)))"

definition gc_program ::
    "(u64 \<Rightarrow> int option) \<Rightarrow> (string \<Rightarrow> removal) \<Rightarrow> Settings \<Rightarrow> int \<Rightarrow> (machine, unit \<times> unit app_result) act" where
  "gc_program from_std remove settings now =
     act_then (with_world (\<lambda>w.
         (w, list_gc_candidates (gc_cutoff from_std (se_result_retention_secs settings) now) (wd_repo w)))) (\<lambda>tasks _.
     gc_tasks_program remove tasks)"

definition lost_program :: "recover_host \<Rightarrow> string \<Rightarrow> (machine, unit \<times> unit app_result) act" where
  "lost_program host i =
     act_then (with_world (on_repo (mark_recovery_lost i (rh_lost_clock host i)))) (\<lambda>_ _.
     with_world (persist_latest_result (rh_faults host) (rh_now host) i))"

definition recover_task_program :: "recover_host \<Rightarrow> TaskRecord \<Rightarrow> (machine, unit \<times> unit app_result) act" where
  "recover_task_program host task =
     (let i = tr_task_id task
      in case tr_status task of
           Accepted \<Rightarrow>
             if has_active_reservation task
             then with_world (on_repo (release_resources i
                    ''orphan accepted-task reservation released during recovery'' (rh_release_clock host i)))
             else Return ((), Inr ())
         | Running \<Rightarrow>
             (case tr_shim_pid task of
                Some shim_pid \<Rightarrow>
                  if process_exists (rh_alive host) (pid_as_i32 shim_pid)
                  then
                    act_then
                      (if \<not> has_active_reservation task
                       then with_world (on_repo (reserve_resources i (from_limits (tr_limits task))
                              ''resource reservation reconstructed during recovery'' (rh_reserve_clock host i)))
                       else Return ((), Inr ())) (\<lambda>_ _.
                    with_world (on_repo (mark_recovered i (rh_recovered_clock host i))))
                  else lost_program host i
              | None \<Rightarrow> lost_program host i)
         | _ \<Rightarrow> Return ((), Inr ()))"

fun recover_tasks_program :: "recover_host \<Rightarrow> TaskRecord list \<Rightarrow> (machine, unit \<times> unit app_result) act" where
  "recover_tasks_program host [] = Return ((), Inr ())"
| "recover_tasks_program host (task # tasks) =
     act_then (recover_task_program host task) (\<lambda>_ _. recover_tasks_program host tasks)"

definition recover_program :: "recover_host \<Rightarrow> (machine, unit \<times> unit app_result) act" where
  "recover_program host =
     act_then (on_service (\<lambda>sx. (sx, list_non_terminal (wd_repo (sx_world sx)))) ()) (\<lambda>tasks _.
     act_then (recover_tasks_program host tasks) (\<lambda>_ _.
     on_service (\<lambda>sx. (notify_dispatcher sx, Inr ())) ()))"

subsection \<open>The shim\<close>

definition finish_program ::
    "shim_host \<Rightarrow> string \<Rightarrow> CompletionUpdate \<Rightarrow> (machine, unit \<times> shim_exit app_result) act" where
  "finish_program host i u =
     act_then (on_shim (in_shim (on_repo (complete_task i u (sh_complete_clock host)))) ()) (\<lambda>_ _.
     act_then (on_shim (in_shim (persist_latest_result (sh_faults host) (sh_now host) i)) ()) (\<lambda>_ _.
     Return ((), Inr Returned)))"

text \<open>The loop; the operations of others are those of other threads, and none of its own.\<close>

fun supervise_program ::
    "watch \<Rightarrow> supervision_event list \<Rightarrow> noticed \<Rightarrow> (machine, noticed \<times> CompletionUpdate option app_result) act" where
  "supervise_program w [] k = Return (k, Inr None)"
| "supervise_program w (Tick now clk # es) k =
     act_then (on_supervision (\<lambda>sv. (sv, is_cancel_requested (wa_task_id w) (sv_repo sv))) k) (\<lambda>cancel_requested k.
     act_then (on_supervision (notice_timeout w now clk) k) (\<lambda>_ k.
     act_then (on_supervision (\<lambda>sv.
       (kill_group w now (terminate_group w (notice_cancel now cancel_requested sv)), Inr ())) k) (\<lambda>_ k.
     supervise_program w es k)))"
| "supervise_program w (WaitDone result now utc read # es) k =
     on_supervision (\<lambda>sv. (sv, res_bind (supervise_exit w result now utc read sv) (\<lambda>u. Inr (Some u)))) k"
| "supervise_program w (Elsewhere op # es) k = supervise_program w es k"

definition nothing_noticed :: noticed where
  "nothing_noticed =
     \<lparr>no_timeout_started = None, no_cancel_started = None, no_term_sent = False, no_kill_sent = False\<rparr>"

definition supervise_spawned_program ::
    "shim_host \<Rightarrow> InternalShimArgs \<Rightarrow> supervision_event list \<Rightarrow> string \<Rightarrow> ExecutionPlan \<Rightarrow> SpawnedProcess \<Rightarrow>
     (machine, unit \<times> shim_exit app_result) act" where
  "supervise_spawned_program host args es i plan spawned =
     act_then (on_shim (in_shim (on_repo (mark_started i (sp_pid spawned) (sp_pgid spawned)
         (sp_script_path spawned) (sh_started_clock host)))) ()) (\<lambda>_ _.
     act_then (on_shim (\<lambda>sm. (sm, get_task i (wd_repo (sm_world sm)))) ()) (\<lambda>task _.
     act_bind (supervise_program
         \<lparr>wa_task_id = tr_task_id task, wa_grace_ms = ia_termination_grace_ms args,
          wa_wall_ms = ep_wall_time_ms (pl_resource_enforcement plan), wa_pgid = sp_pgid spawned,
          wa_cgroup_dir = sp_cgroup_dir spawned, wa_start = sh_start host\<rparr> es nothing_noticed) (\<lambda>(_, r).
     case r of
       Inl e \<Rightarrow> Return ((), Inl e)
     | Inr None \<Rightarrow> Return ((), Inr StillWaiting)
     | Inr (Some u) \<Rightarrow> finish_program host (tr_task_id task) u)))"

definition shim_program ::
    "shim_host \<Rightarrow> InternalShimArgs \<Rightarrow> supervision_event list \<Rightarrow> (machine, unit \<times> shim_exit app_result) act" where
  "shim_program host args es =
     act_then (on_shim (\<lambda>sm. (sm, get_task (ia_task_id args) (wd_repo (sm_world sm)))) ()) (\<lambda>task _.
     let i = tr_task_id task in
     if is_terminal (tr_status task) then Return ((), Inr Returned)
     else if tr_kill_requested task \<and> tr_pid task = None
     then finish_program host i (early_update Cancelled (sh_finished_at host)
            (RuntimeErrorInfo EcCancelled ''task cancelled before process launch'' None))
     else
       let plan = unwrap_or (tr_execution_plan task) (legacy_execution_plan task) in
       act_bind (on_shim (spawn_task_process host task plan (ia_cgroup_root args)) ()) (\<lambda>(_, r).
       case r of
         Inl err \<Rightarrow> finish_program host i (early_update Failed (sh_finished_at host) (launch_error err))
       | Inr None \<Rightarrow> Return ((), Inr Panicked)
       | Inr (Some spawned) \<Rightarrow> supervise_spawned_program host args es i plan spawned))"

end
