(* ===== verification/Entry.thy ===== *)
theory Entry
  imports Client Programs
begin

section \<open>Entry: the command line and \<open>main\<close>, \<open>src/cli.rs\<close>, \<open>src/runtime.rs\<close> and \<open>src/main.rs\<close>\<close>

text \<open>
  \<open>main\<close> parses the command line, hands the arguments to a subcommand and turns its result into the exit
  status of the process. Arguments are what other libraries answer: the parser of the command line,
  the network, the listener and the loop of the web framework. The lines of the log are left out.
\<close>

subsection \<open>The subcommands\<close>

datatype Command =
    Serve ServeArgs
  | Submit RemoteTaskArgs
  | StatusOf StatusArgs
  | Wait WaitArgs
  | Kill KillArgs
  | Run RemoteTaskArgs
  | InternalShim InternalShimArgs

text \<open>
  What \<open>Cli::parse\<close> of clap does: it gives the command, or ends the process having shown the help or the
  version, or having rejected the arguments.
\<close>

datatype parsed = Parsed Command | Shown string | Rejected string

record environment =
  en_libraries :: libraries
  en_read :: "string \<Rightarrow> string + string"
  en_send :: "remote_request \<Rightarrow> string + answer"
  en_polls :: "string \<Rightarrow> poll list"
  en_hostname :: "string option"
  en_faults :: faults
  en_open_db :: "unit app_result"
  en_probe :: probe_host
  en_now :: int
  en_recover :: recover_host
  en_bind :: "runtime \<Rightarrow> machine \<Rightarrow> machine \<times> (string + unit)"
  en_axum :: "runtime \<Rightarrow> machine \<Rightarrow> machine \<times> (string + unit) option"
  en_shim_host :: shim_host
  en_shim_events :: "supervision_event list"
  en_panic :: string

text \<open>How far a command is: it printed lines and has a result, it panicked, or it has not ended.\<close>

datatype progress = Finished "unit command_outcome" | Aborted | Unfinished

definition client_progress :: "unit command_outcome option \<Rightarrow> progress" where
  "client_progress outcome = (case outcome of None \<Rightarrow> Unfinished | Some result \<Rightarrow> Finished result)"

definition shim_progress :: "shim_exit app_result \<Rightarrow> progress" where
  "shim_progress outcome =
     (case outcome of
        Inl e \<Rightarrow> Finished ([], Inl e)
      | Inr Returned \<Rightarrow> Finished ([], Inr ())
      | Inr Panicked \<Rightarrow> Aborted
      | Inr StillWaiting \<Rightarrow> Unfinished)"

text \<open>
  \<open>run_server\<close>. Once the background loops are started they work while the address is bound and the
  framework serves; what they and the requests do to the machine comes with \<open>en_bind\<close> and \<open>en_axum\<close>,
  and is the subject of the theory \<open>Running_System\<close>.
\<close>

definition serve_command :: "environment \<Rightarrow> ServeArgs \<Rightarrow> machine \<Rightarrow> machine \<times> unit command_outcome option" where
  "serve_command en args m =
     (case from_args (en_hostname en) args of
        Inl e \<Rightarrow> (m, Some ([], Inl e))
      | Inr settings \<Rightarrow>
          (case new_runtime (en_faults en) (en_open_db en) (en_probe en) (en_now en) settings (wd_files (mc_world m)) of
             (fs, r) \<Rightarrow>
               let m = put_service ((mc_service m)\<lparr>sx_world := (mc_world m)\<lparr>wd_files := fs\<rparr>, sx_notified := False\<rparr>) m in
               (case r of
                  Inl e \<Rightarrow> (m, Some ([], Inl e))
                | Inr rt \<Rightarrow>
                    (case recover (en_recover en) (mc_service m) of
                       (sx, Inl e) \<Rightarrow> (put_service sx m, Some ([], Inl e))
                     | (sx, Inr _) \<Rightarrow>
                         (case en_bind en rt (put_service sx m) of
                            (m, Inl err) \<Rightarrow> (m, Some ([], Inl (Internal (''bind failed: '' @ err))))
                          | (m, Inr _) \<Rightarrow>
                              (case en_axum en rt m of
                                 (m, None) \<Rightarrow> (m, None)
                               | (m, Some (Inl err)) \<Rightarrow> (m, Some ([], Inl (Internal (''server error: '' @ err))))
                               | (m, Some (Inr _)) \<Rightarrow> (m, Some ([], Inr ()))))))))"

text \<open>The shim opens the database itself.\<close>

definition shim_command :: "environment \<Rightarrow> InternalShimArgs \<Rightarrow> machine \<Rightarrow> machine \<times> shim_exit app_result" where
  "shim_command en args m =
     (case en_open_db en of
        Inl e \<Rightarrow> (m, Inl e)
      | Inr _ \<Rightarrow>
          (case run_internal_shim (en_shim_host en) args (en_shim_events en) (get_shim m) of
             (sm, outcome) \<Rightarrow> (put_shim sm m, outcome)))"

fun run :: "environment \<Rightarrow> Command \<Rightarrow> machine \<Rightarrow> machine \<times> progress" where
  "run en (Serve args) m = map_prod id client_progress (serve_command en args m)"
| "run en (Submit args) m = (m, Finished (submit_remote (en_libraries en) (en_read en) (en_send en) args))"
| "run en (StatusOf args) m = (m, Finished (status_remote (en_libraries en) (en_send en) args))"
| "run en (Kill args) m = (m, Finished (kill_remote (en_libraries en) (en_send en) args))"
| "run en (Wait args) m = (m, client_progress (wait_remote (en_libraries en) args (en_polls en (wr_task_id args))))"
| "run en (Run args) m =
     (m, client_progress (run_remote (en_libraries en) (en_read en) (en_send en) args (en_polls en)))"
| "run en (InternalShim args) m = map_prod id shim_progress (shim_command en args m)"

subsection \<open>The process\<close>

record process_end =
  pe_stdout :: "string list"
  pe_stderr :: "string list"
  pe_status :: nat

text \<open>A panic of the main thread ends the process with status 101 and its message.\<close>

definition main :: "environment \<Rightarrow> parsed \<Rightarrow> machine \<Rightarrow> machine \<times> process_end option" where
  "main en cli m =
     (case cli of
        Shown text \<Rightarrow> (m, Some \<lparr>pe_stdout = [text], pe_stderr = [], pe_status = 0\<rparr>)
      | Rejected text \<Rightarrow> (m, Some \<lparr>pe_stdout = [], pe_stderr = [text], pe_status = 2\<rparr>)
      | Parsed command \<Rightarrow>
          (case run en command m of
             (m, Unfinished) \<Rightarrow> (m, None)
           | (m, Aborted) \<Rightarrow> (m, Some \<lparr>pe_stdout = [], pe_stderr = [en_panic en], pe_status = 101\<rparr>)
           | (m, Finished (out, Inl err)) \<Rightarrow>
               (m, Some \<lparr>pe_stdout = out, pe_stderr = [display_error err], pe_status = 1\<rparr>)
           | (m, Finished (out, Inr _)) \<Rightarrow> (m, Some \<lparr>pe_stdout = out, pe_stderr = [], pe_status = 0\<rparr>)))"

subsection \<open>The end of a shim\<close>

lemma complete_task_stored:
  assumes "complete_task i u clk s = (s', Inr ())" "get_task i s' = Inr task"
  shows "tr_status task = cu_status u"
proof -
  have row: "\<exists>r. find_row i s' = Some (completed_row u r)"
    using assms(1)
    by (auto simp: complete_task_def transact_def Let_def release_event_def insert_event_tx_def
        completed.find_row_update res_bind_eq_Inr split: sum.splits option.splits if_splits)
  obtain r where "find_row i s' = Some (completed_row u r)" using row by blast
  with assms(2) have "row_to_task_record (completed_row u r) = Inr task" by (auto simp: get_task_row)
  from record_fields(2) [OF this] show ?thesis by (simp add: completed_row_def status.dec_enc)
qed

lemma finish_task_returned:
  assumes "finish_task host i u sm = (sm', Inr Returned)"
  shows "\<exists>task. get_task i (wd_repo (sm_world sm')) = Inr task \<and> tr_status task = cu_status u"
proof -
  let ?sm = "fst (in_shim (on_repo (complete_task i u (sh_complete_clock host))) sm)"
  have repo: "wd_repo (sm_world sm') = wd_repo (sm_world ?sm)"
    and completed: "snd (complete_task i u (sh_complete_clock host) (wd_repo (sm_world sm))) = Inr ()"
    and persisted: "snd (in_shim (persist_latest_result (sh_faults host) (sh_now host) i) ?sm) = Inr ()"
    using assms by (auto simp: finish_task_def in_shim_repo prod_eq_iff fst_and_then snd_and_then split: sum.splits)
  have "\<exists>task. get_task i (wd_repo (sm_world ?sm)) = Inr task"
    using persisted by (auto simp: in_shim_def case_prod_beta persist_latest_result_def split: sum.splits)
  then obtain task where task: "get_task i (wd_repo (sm_world ?sm)) = Inr task" by blast
  have "tr_status task = cu_status u"
    by (rule complete_task_stored [of i u "sh_complete_clock host" "wd_repo (sm_world sm)" "wd_repo (sm_world ?sm)"])
      (simp_all add: in_shim_repo prod_eq_iff completed, use task in \<open>simp add: in_shim_repo\<close>)
  with task repo show ?thesis by simp
qed

lemma supervise_wait_over:
  "supervise_wait w es sv = (sv', Inr (Some u)) \<Longrightarrow> is_terminal (cu_status u)"
proof (induction w es sv rule: supervise_wait.induct)
  case (2 w now clk es sv)
  then show ?case by (auto simp: and_then_eq_Inr)
next
  case (3 w result now utc read es sv)
  then show ?case by (auto simp: supervise_exit_def res_bind_eq_Inr split: sum.splits)
qed simp_all

lemma supervised_returned:
  assumes "supervise_spawned host args es i plan spawned sm = (sm', Inr Returned)"
  shows "\<exists>task. get_task i (wd_repo (sm_world sm')) = Inr task \<and> is_terminal (tr_status task)"
proof -
  let ?w = "\<lambda>task. \<lparr>wa_task_id = tr_task_id task, wa_grace_ms = ia_termination_grace_ms args,
    wa_wall_ms = ep_wall_time_ms (pl_resource_enforcement plan), wa_pgid = sp_pgid spawned,
    wa_cgroup_dir = sp_cgroup_dir spawned, wa_start = sh_start host\<rparr>"
  let ?run = "\<lambda>sm1 task. case supervise_wait (?w task) es (watched sm1) of
        (sv, Inl e) \<Rightarrow> (sv_shim sv, Inl e)
      | (sv, Inr None) \<Rightarrow> (sv_shim sv, Inr StillWaiting)
      | (sv, Inr (Some u)) \<Rightarrow> finish_task host (tr_task_id task) u (sv_shim sv)"
  obtain sm1 where sm1: "(case get_task i (wd_repo (sm_world sm1)) of Inl e \<Rightarrow> (sm1, Inl e) | Inr task \<Rightarrow> ?run sm1 task)
      = (sm', Inr Returned)"
    using assms unfolding supervise_spawned_def and_then_eq_Inr by blast
  then obtain task where get: "get_task i (wd_repo (sm_world sm1)) = Inr task" and run: "?run sm1 task = (sm', Inr Returned)"
    by (cases "get_task i (wd_repo (sm_world sm1))") simp_all
  obtain sv u where "supervise_wait (?w task) es (watched sm1) = (sv, Inr (Some u))"
      "finish_task host i u (sv_shim sv) = (sm', Inr Returned)"
    using run get_task_id [OF get] by (auto split: prod.splits sum.splits option.splits)
  then show ?thesis using finish_task_returned supervise_wait_over by fastforce
qed

text \<open>A shim that returned leaves its task over; one that panics found a task that no submission lets pass.\<close>

lemma shim_returned:
  assumes "run_internal_shim host args es sm = (sm', Inr Returned)"
  shows "\<exists>task. get_task (ia_task_id args) (wd_repo (sm_world sm')) = Inr task \<and> is_terminal (tr_status task)"
proof -
  obtain task where get: "get_task (ia_task_id args) (wd_repo (sm_world sm)) = Inr task"
    using assms by (auto simp: run_internal_shim_def split: sum.splits)
  then show ?thesis
    using assms get_task_id [OF get]
    by (auto simp: run_internal_shim_def Let_def split: sum.splits prod.splits option.splits if_splits
        dest!: finish_task_returned supervised_returned)
qed

lemma finish_task_exit: "snd (finish_task host i u sm) \<noteq> Inr Panicked"
  by (auto simp: finish_task_def snd_and_then split: sum.splits)

lemma shim_panicked:
  assumes "run_internal_shim host args es sm = (sm', Inr Panicked)"
  shows "\<exists>task. get_task (ia_task_id args) (wd_repo (sm_world sm)) = Inr task \<and>
    validate_execution (tr_execution task) \<noteq> Inr ()"
proof -
  obtain task where get: "get_task (ia_task_id args) (wd_repo (sm_world sm)) = Inr task"
    using assms by (auto simp: run_internal_shim_def split: sum.splits)
  have "snd (supervise_spawned host args es i plan spawned sm1) \<noteq> Inr Panicked" for i plan spawned sm1
    using finish_task_exit by (auto simp: supervise_spawned_def snd_and_then split: sum.splits prod.splits option.splits)
  then have "snd (spawn_task_process host task (unwrap_or (tr_execution_plan task) (legacy_execution_plan task))
      (ia_cgroup_root args) sm) = Inr None"
    using assms finish_task_exit [of host] by (auto simp: run_internal_shim_def get Let_def dest: arg_cong [where f = snd] split: sum.splits prod.splits option.splits if_splits)
  with get spawn_never_panics show ?thesis by blast
qed

subsection \<open>What the exit status says\<close>

definition answered :: "environment \<Rightarrow> remote_request \<Rightarrow> string \<Rightarrow> bool" where
  "answered en request body = (\<exists>status. en_send en request = Inr (status, Inr body) \<and> is_success status)"

text \<open>The task was seen to be over, and what was printed is that answer.\<close>

definition shown_over :: "environment \<Rightarrow> string \<Rightarrow> string list \<Rightarrow> bool" where
  "shown_over en i out =
     (\<exists>p \<in> set (en_polls en i). \<exists>payload.
        seen_over (en_libraries en) p payload \<and> out = [lb_pretty (en_libraries en) payload])"

text \<open>The server was configured, recovered its tasks, bound its address and was stopped without an error.\<close>

definition served :: "environment \<Rightarrow> ServeArgs \<Rightarrow> machine \<Rightarrow> machine \<Rightarrow> bool" where
  "served en args m m' =
     (\<exists>settings fs rt sx m1.
        from_args (en_hostname en) args = Inr settings \<and>
        new_runtime (en_faults en) (en_open_db en) (en_probe en) (en_now en) settings (wd_files (mc_world m)) = (fs, Inr rt) \<and>
        recover (en_recover en)
          ((mc_service m)\<lparr>sx_world := (mc_world m)\<lparr>wd_files := fs\<rparr>, sx_notified := False\<rparr>) = (sx, Inr ()) \<and>
        en_bind en rt (put_service sx m) = (m1, Inr ()) \<and> en_axum en rt m1 = (m', Some (Inr ())))"

text \<open>
  What has to have happened for a command to be a success, and what it prints of it: the server
  answered with success, for \<open>wait\<close> and \<open>run\<close> that the task is over; a shim left the task over in the database.
\<close>

fun confirmed :: "environment \<Rightarrow> Command \<Rightarrow> machine \<Rightarrow> machine \<Rightarrow> string list \<Rightarrow> bool" where
  "confirmed en (Serve args) m m' out = (out = [] \<and> served en args m m')"
| "confirmed en (Submit args) m m' out =
     (\<exists>request body. load_request (en_libraries en) (en_read en) args = Inr request \<and>
        answered en (submit_request (ra_server args) request) body \<and> out = [body])"
| "confirmed en (StatusOf args) m m' out =
     (\<exists>body. answered en (status_request (sa_server args) (sa_task_id args)) body \<and> out = [body])"
| "confirmed en (Kill args) m m' out =
     (\<exists>body. answered en (RemotePost (trim_server (ka_server args) @ ''/api/v1/tasks/'' @ ka_task_id args @ ''/kill'') None
        (owner_header (ka_owner args))) body \<and> out = [body])"
| "confirmed en (Wait args) m m' out = shown_over en (wr_task_id args) out"
| "confirmed en (Run args) m m' out =
     (\<exists>request body submitted. load_request (en_libraries en) (en_read en) args = Inr request \<and>
        answered en (submit_request (ra_server args) request) body \<and>
        lb_decode_submitted (en_libraries en) body = Inr submitted \<and> shown_over en (sr_task_id submitted) out)"
| "confirmed en (InternalShim args) m m' out =
     (out = [] \<and> (\<exists>task. get_task (ia_task_id args) (mc_repo m') = Inr task \<and> is_terminal (tr_status task)))"

fun single_request :: "Command \<Rightarrow> bool" where
  "single_request (Submit _) = True"
| "single_request (StatusOf _) = True"
| "single_request (Kill _) = True"
| "single_request _ = False"

lemma client_progress_eq [simp]:
  "client_progress outcome = Finished result \<longleftrightarrow> outcome = Some result"
  "client_progress outcome \<noteq> Aborted"
  by (simp_all add: client_progress_def split: option.split)

lemma shim_progress_eq:
  "shim_progress outcome = Finished (out, Inr u) \<longleftrightarrow> out = [] \<and> outcome = Inr Returned"
  "shim_progress outcome = Aborted \<longleftrightarrow> outcome = Inr Panicked"
  by (auto simp: shim_progress_def split: sum.splits shim_exit.splits)

lemma send_and_print_success:
  "send_and_print lib (en_send en) request = (out, Inr u) \<Longrightarrow> \<exists>body. answered en request body \<and> out = [body]"
  by (auto simp: send_and_print_def print_json_response_def answered_def split: sum.splits if_splits)

lemma send_and_print_failure:
  "send_and_print lib (en_send en) request = (out, Inl e) \<Longrightarrow> \<not> answered en request body"
  by (auto simp: send_and_print_def print_json_response_def answered_def split: sum.splits if_splits)

lemma run_remote_success:
  assumes "run_remote (en_libraries en) (en_read en) (en_send en) args (en_polls en) = Some (out, Inr u)"
  shows "confirmed en (Run args) m m' out"
proof -
  obtain request status answer where sent: "load_request (en_libraries en) (en_read en) args = Inr request"
      "en_send en (submit_request (ra_server args) request) = Inr (status, answer)" "is_success status"
    using assms by (fastforce simp: run_remote_def print_json_response_def split: sum.splits if_splits)
  with assms obtain body submitted where "answer = Inr body"
      "lb_decode_submitted (en_libraries en) body = Inr submitted"
      "wait_remote (en_libraries en) \<lparr>wr_server = ra_server args, wr_task_id = sr_task_id submitted,
         wr_timeout_ms = ra_timeout_ms args, wr_poll_interval_ms = ra_poll_interval_ms args\<rparr>
         (en_polls en (sr_task_id submitted)) = Some (out, Inr u)"
    by (auto simp: run_remote_def decode_answer_def split: sum.splits)
  with sent show ?thesis by (auto simp: answered_def shown_over_def dest!: wait_remote_success)
qed

lemma serve_command_success:
  "serve_command en args m = (m', Some (out, Inr u)) \<Longrightarrow> confirmed en (Serve args) m m' out"
  by (auto simp: serve_command_def served_def put_service_def Let_def split: sum.splits prod.splits option.splits)

lemma shim_command_success:
  "shim_command en args m = (m', Inr Returned) \<Longrightarrow> confirmed en (InternalShim args) m m' []"
  by (auto simp: shim_command_def put_shim_def put_world_def split: sum.splits prod.splits dest!: shim_returned)

lemma run_success: "run en command m = (m', Finished (out, Inr u)) \<Longrightarrow> confirmed en command m m' out"
proof (cases command)
  case (Submit args)
  moreover assume "run en command m = (m', Finished (out, Inr u))"
  ultimately show ?thesis
    by (auto simp: submit_remote_def split: sum.splits dest!: send_and_print_success)
next
  case (Run args)
  moreover assume "run en command m = (m', Finished (out, Inr u))"
  ultimately show ?thesis using run_remote_success by simp
qed (auto simp: status_remote_def kill_remote_def shown_over_def map_prod_def shim_progress_eq
      simp del: confirmed.simps(1,7) split: prod.splits
      dest!: send_and_print_success wait_remote_success serve_command_success shim_command_success)

lemma run_failure:
  "run en command m = (m', Finished (out, Inl e)) \<Longrightarrow> single_request command \<Longrightarrow> \<not> confirmed en command m m' out'"
  by (cases command)
    (auto simp: submit_remote_def status_remote_def kill_remote_def split: sum.splits dest: send_and_print_failure)

lemma run_aborted:
  "run en command m = (m', Aborted) \<Longrightarrow>
   \<exists>args task. command = InternalShim args \<and> get_task (ia_task_id args) (mc_repo m) = Inr task \<and>
     validate_execution (tr_execution task) \<noteq> Inr ()"
  by (cases command)
    (auto simp: map_prod_def shim_progress_eq shim_command_def get_shim_def split: prod.splits sum.splits dest!: shim_panicked)

lemma run_unfinished: "run en command m = (m', Unfinished) \<Longrightarrow> \<not> single_request command"
  by (cases command) simp_all


end
