(* ===== verification/Sequential.thy ===== *)
theory Sequential
  imports Programs
begin

section \<open>Sequential: a program that runs alone is its operation\<close>

lemma run_act_then:
  "run_act (act_then p k) m =
     (case run_act p m of (m', l, r) \<Rightarrow> (case r of Inl e \<Rightarrow> (m', (l, Inl e)) | Inr a \<Rightarrow> run_act (k a l) m'))"
  by (simp add: act_then_def run_act_bind split: prod.split sum.split)

lemma get_put_dispatcher:
  "get_dispatcher (put_dispatcher d m) a = d\<lparr>dp_reserved := fst a, dp_tenants := snd a\<rparr>"
  by (simp add: get_dispatcher_def put_dispatcher_def put_world_def)

lemma put_accounts:
  "put_dispatcher (d\<lparr>dp_reserved := x, dp_tenants := y\<rparr>) m = put_dispatcher d m"
  "put_dispatcher (d\<lparr>dp_reserved := x\<rparr>) m = put_dispatcher d m"
  by (simp_all add: put_dispatcher_def)

lemmas dispatcher_runs = on_dispatcher_def dispatching.run_focus run_act_then focused_def get_put_dispatcher
  dispatching.put_put

lemma launch_program_alone:
  "run_act (launch_program settings l host task rv a) m =
     focused get_dispatcher put_dispatcher accounts_of (launch_task settings l host task rv) a m"
  by (simp add: launch_program_def launch_task_def Let_def dispatcher_runs and_then_def in_world_def put_accounts
      split: prod.splits sum.splits option.splits)
    (auto simp: accounts_of_def put_dispatcher_def)

lemma dispatch_task_program_alone:
  "run_act (dispatch_task_program settings l host task a) m =
     focused get_dispatcher put_dispatcher accounts_of (dispatch_task settings l host task) a m"
proof -
  have a: "dp_reserved (get_dispatcher m a) = fst a" "dp_tenants (get_dispatcher m a) = snd a"
    "put_dispatcher (get_dispatcher m a) m = m" "accounts_of (get_dispatcher m a) = a"
    by (simp_all add: dispatching.put_get dispatching.own_get) (simp_all add: get_dispatcher_def)
  show ?thesis
    by (simp add: dispatch_task_program_def dispatch_task_def Let_def launch_program_alone a focused_def)
      (auto simp: dispatcher_runs and_then_def in_world_def a accounts_of_def put_dispatcher_def
        get_dispatcher_def put_world_def split: prod.splits sum.splits)
qed

lemma dispatch_tasks_program_alone:
  "run_act (dispatch_tasks_program settings l hosts tasks a) m =
     focused get_dispatcher put_dispatcher accounts_of (dispatch_tasks settings l hosts tasks) a m"
proof (induction tasks arbitrary: a m)
  case (Cons task tasks)
  show ?case
    unfolding dispatch_tasks_program.simps dispatch_tasks.simps
    by (rule dispatching.run_then [OF dispatch_task_program_alone Cons.IH])
qed (simp add: focused_def dispatching.put_get dispatching.own_get)

text \<open>The shims started before a cycle are of no concern to it.\<close>

definition after :: "(string \<times> u32 \<times> string list) list \<Rightarrow> dispatcher \<Rightarrow> dispatcher" where
  "after spawned d = d\<lparr>dp_spawned := spawned @ dp_spawned d\<rparr>"

lemma dispatch_task_after:
  "dispatch_task settings l host task (after xs d) = map_prod (after xs) id (dispatch_task settings l host task d)"
  by (simp add: dispatch_task_def launch_task_def Let_def and_then_def in_world_def after_def
      split: prod.splits sum.splits option.splits)

lemma dispatch_tasks_after:
  "dispatch_tasks settings l hosts tasks (after xs d) = map_prod (after xs) id (dispatch_tasks settings l hosts tasks d)"
  by (induction tasks arbitrary: d) (simp_all add: dispatch_task_after and_then_def split: prod.splits sum.splits)

lemma dispatch_program_alone:
  "run_act (dispatch_program settings l hosts) m =
     (let (d, r) = dispatch_once_sync settings l hosts (mc_world m)
      in (put_dispatcher (after (mc_spawned m) d) m, (accounts_of d, r)))"
proof -
  let ?d = "\<lambda>x y. \<lparr>dp_world = mc_world m, dp_reserved = x, dp_tenants = y, dp_spawned = []\<rparr>"
  have get: "get_dispatcher m (x, y) = after (mc_spawned m) (?d x y)"
    "put_dispatcher (after (mc_spawned m) (?d x y)) m = m"
    "accounts_of (?d x y) = (x, y)" "accounts_of (after xs d) = accounts_of d" "dp_world (after xs d) = dp_world d"
    for x y xs d
    using dispatching.put_get [of m "(x, y)"] by (simp_all add: get_dispatcher_def after_def accounts_of_def)
  show ?thesis
    by (simp add: dispatch_program_def dispatch_once_sync_def Let_def on_dispatcher_def run_act_then dispatching.run_focus
        focused_def get dispatch_tasks_program_alone dispatch_tasks_after split: sum.split prod.split)
qed

subsection \<open>Requests\<close>

abbreviation serving_focused :: "(service \<Rightarrow> service \<times> 'r) \<Rightarrow> machine \<Rightarrow> machine \<times> (unit \<times> 'r)" where
  "serving_focused f \<equiv> focused (\<lambda>m _. mc_service m) put_service (\<lambda>_. ()) f ()"

lemma mc_service_put [simp]: "mc_service (put_service sx m) = sx" "put_service (mc_service m) m = m"
    "put_service sy (put_service sx m) = put_service sy m"
  by (simp_all add: put_service_def)

lemmas service_runs = on_service_def serving.run_focus run_act_then focused_def and_then_def

lemma submit_program_alone:
  "run_act (submit_program settings l caps host request) m =
     serving_focused (submit_task settings l caps host request) m"
  by (auto simp: submit_program_def store_program_def submit_task_def Let_def service_runs
      split: prod.split sum.split)

lemma set_cancel_requested_split:
  "in_service (on_repo (set_cancel_requested i clk)) sx =
     and_then (in_service (on_repo (request_cancel i clk)) sx) (\<lambda>sx _. (sx, get_task i (wd_repo (sx_world sx))))"
  by (simp add: set_cancel_requested_def request_cancel_def in_service_def on_repo_def and_then_def
      split: prod.split sum.split)

lemma stop_program_alone: "run_act (stop_program host i updated) m = serving_focused (stop_task host i updated) m"
  by (simp add: stop_program_def stop_task_def service_runs split: prod.split sum.split)

lemma kill_program_alone: "run_act (kill_program host i caller) m = serving_focused (kill_task host i caller) m"
  by (auto simp: kill_program_def kill_task_def Let_def set_cancel_requested_split stop_program_alone service_runs
      split: prod.split sum.split)

lemma serve_program_alone: "run_act (serve_program rt host request) m = serving_focused (serve rt host request) m"
proof -
  have "run_act (handle_program rt host request endpoint) m = serving_focused (handle rt host request endpoint) m"
    for endpoint
    by (cases endpoint; cases "hq_body request")
      (simp_all add: handle_program_def handle_def Let_def run_act_bind submit_program_alone kill_program_alone
        focused_def case_prod_beta on_service_def serving.run_focus)
  then show ?thesis
    by (simp add: serve_program_def serve_def focused_def split: option.split prod.split)
qed

subsection \<open>Escalation, garbage collection and recovery\<close>

lemma escalation_program_alone:
  "fst (run_act (escalation_program esc) m) = put_service (spawn_escalation esc (mc_service m)) m"
  by (cases esc) (simp add: escalation_program_def spawn_escalation_def service_runs split: sum.split option.split)

abbreviation world_of :: "world \<Rightarrow> machine \<Rightarrow> machine" where
  "world_of w m \<equiv> put_service ((mc_service m)\<lparr>sx_world := w\<rparr>) m"

lemma run_with_world:
  "run_act (with_world f) m = (case f (mc_world m) of (w, r) \<Rightarrow> (world_of w m, ((), r)))"
  by (simp add: on_service_def serving.run_focus focused_def in_service_def split: prod.split)

lemma gc_tasks_program_alone:
  "run_act (gc_tasks_program remove tasks) m = (world_of (fold (gc_task remove) tasks (mc_world m)) m, ((), Inr ()))"
proof (induction tasks arbitrary: m)
  case (Cons task tasks)
  show ?case
    by (simp add: gc_task_def run_act_bind run_with_world Cons.IH case_prod_beta split: removal.split)
qed simp

lemma gc_program_alone:
  "fst (run_act (gc_program from_std remove settings now) m) =
     world_of (gc_pass from_std remove settings now (mc_world m)) m"
  by (simp add: gc_program_def gc_pass_def run_act_then run_with_world gc_tasks_program_alone split: sum.split)

lemma recover_task_program_alone:
  "run_act (recover_task_program host task) m =
     (case recover_task host task (mc_world m) of (w, r) \<Rightarrow> (world_of w m, ((), r)))"
  by (simp add: recover_task_program_def recover_task_def lost_program_def recovery_lost_def Let_def run_act_then
      run_with_world and_then_def split: TaskStatus.split option.split sum.split prod.split)

lemma recover_tasks_program_alone:
  "run_act (recover_tasks_program host tasks) m =
     (case recover_tasks host tasks (mc_world m) of (w, r) \<Rightarrow> (world_of w m, ((), r)))"
proof (induction tasks arbitrary: m)
  case (Cons task tasks)
  show ?case
    by (simp add: run_act_then recover_task_program_alone Cons.IH and_then_def split: sum.split prod.split)
qed simp

lemma recover_program_alone: "run_act (recover_program host) m = serving_focused (recover host) m"
  by (simp add: recover_program_def recover_def recover_tasks_program_alone service_runs in_service_def
      split: sum.split prod.split)

subsection \<open>The shim\<close>

abbreviation shim_focused :: "(shim \<Rightarrow> shim \<times> 'r) \<Rightarrow> machine \<Rightarrow> machine \<times> (unit \<times> 'r)" where
  "shim_focused f \<equiv> focused (\<lambda>m _. get_shim m) put_shim (\<lambda>_. ()) f ()"

lemma get_put_shim [simp]: "get_shim (put_shim sm m) = sm" "put_shim (get_shim m) m = m"
    "put_shim sn (put_shim sm m) = put_shim sn m"
  by (simp_all add: get_shim_def put_shim_def put_world_def)

lemmas shim_runs = on_shim_def shimming.run_focus run_act_then focused_def and_then_def

lemma finish_program_alone: "run_act (finish_program host i u) m = shim_focused (finish_task host i u) m"
  by (simp add: finish_program_def finish_task_def shim_runs split: prod.split sum.split)

definition alone :: "supervision_event list \<Rightarrow> bool" where
  "alone es = list_all (\<lambda>e. case e of Elsewhere _ \<Rightarrow> False | _ \<Rightarrow> True) es"

lemma supervise_program_alone:
  "alone es \<Longrightarrow> run_act (supervise_program w es k) m =
     focused get_supervision (\<lambda>sv. put_shim (sv_shim sv)) noticed_of (supervise_wait w es) k m"
proof (induction w es k arbitrary: m rule: supervise_program.induct)
  case (1 w k)
  show ?case by (simp add: supervising.focused_return)
next
  case (2 w now clk es k)
  then have es: "alone es" by (simp add: alone_def)
  show ?case
    by (simp add: supervise_tick_def on_supervision_def supervising.run_focus run_act_then focused_def and_then_def
        supervising.get_put supervising.put_put supervising.put_get supervising.own_get "2.IH" [OF es]
        split: prod.split sum.split)
next
  case (3 w result now utc read es k)
  show ?case by (simp add: on_supervision_def supervising.run_focus)
next
  case (4 w op es k)
  then show ?case by (simp add: alone_def)
qed

lemma supervise_spawned_program_alone:
  assumes "alone es"
  shows "run_act (supervise_spawned_program host args es i plan spawned) m =
    shim_focused (supervise_spawned host args es i plan spawned) m"
proof -
  have "get_supervision (put_shim sm m) nothing_noticed = watched sm" for sm m
    by (simp add: get_supervision_def nothing_noticed_def watched_def)
  then show ?thesis
    by (simp add: supervise_spawned_program_def supervise_spawned_def run_act_bind supervise_program_alone [OF assms]
        finish_program_alone shim_runs split: prod.split sum.split option.split)
qed

lemma shim_program_alone:
  "alone es \<Longrightarrow> run_act (shim_program host args es) m = shim_focused (run_internal_shim host args es) m"
  by (simp add: shim_program_def run_internal_shim_def Let_def run_act_bind supervise_spawned_program_alone
      finish_program_alone shim_runs split: prod.split sum.split option.split)

subsection \<open>The operations and their programs\<close>

text \<open>
  A thread that is not interleaved with another changes the shared state and ends exactly as its
  operation does, so that whatever is proved of an operation that runs alone is a property of the
  program the running system interleaves.
\<close>

lemma programs_run_alone:
  assumes "alone es"
  shows "run_act (serve_program rt host request) m = serving_focused (serve rt host request) m \<and>
    run_act (dispatch_program settings l hosts) m =
      (case dispatch_once_sync settings l hosts (mc_world m) of
         (d, r) \<Rightarrow> (put_dispatcher (after (mc_spawned m) d) m, (accounts_of d, r))) \<and>
    fst (run_act (gc_program from_std remove settings now) m) =
      world_of (gc_pass from_std remove settings now (mc_world m)) m \<and>
    run_act (recover_program recovery) m = serving_focused (recover recovery) m \<and>
    fst (run_act (escalation_program esc) m) = put_service (spawn_escalation esc (mc_service m)) m \<and>
    run_act (shim_program shim_host args es) m = shim_focused (run_internal_shim shim_host args es) m"
  by (simp add: serve_program_alone dispatch_program_alone gc_program_alone recover_program_alone
      escalation_program_alone shim_program_alone [OF assms])

end
