(* ===== verification/Guarantees.thy ===== *)
theory Guarantees
  imports Sequential
begin

section \<open>Guarantees: what each thread does to the database\<close>

text \<open>
  Whatever it reads and whatever the others do, a thread changes the database only by operations of
  its own kind: a request inserts and cancels, the collector deletes, a shim starts and ends its own
  task, only the dispatcher and recovery reserve resources, and what is completed is over.
\<close>

text \<open>Only a thread that may mark tasks as dispatched starts shims.\<close>

definition may_spawn :: "(repo_op \<Rightarrow> bool) \<Rightarrow> bool" where
  "may_spawn K = (\<exists>i pid. K (OpDispatched i pid))"

definition by_ops :: "(repo_op \<Rightarrow> bool) \<Rightarrow> machine \<Rightarrow> machine \<Rightarrow> bool" where
  "by_ops K m m' =
     ((\<exists>ops. mc_repo m' = fold run_op ops (mc_repo m) \<and> list_all (\<lambda>c. K (fst c)) ops) \<and>
      (may_spawn K \<or> mc_spawned m' = mc_spawned m))"

lemma by_ops_same: "mc_repo m' = mc_repo m \<Longrightarrow> may_spawn K \<or> mc_spawned m' = mc_spawned m \<Longrightarrow> by_ops K m m'"
  unfolding by_ops_def by (auto intro: exI [of _ "[]"])

lemma by_ops_one:
  "mc_repo m' = run_op (c, clk) (mc_repo m) \<Longrightarrow> K c \<Longrightarrow> mc_spawned m' = mc_spawned m \<Longrightarrow> by_ops K m m'"
  unfolding by_ops_def by (auto intro: exI [of _ "[(c, clk)]"])

lemma by_ops_ok: "by_ops K m m' \<Longrightarrow> repo_ok (mc_repo m) \<Longrightarrow> repo_ok (mc_repo m')"
  by (auto simp: by_ops_def intro: repo_sys.fold_inv)

text \<open>A call that is one of the operations, whatever the state.\<close>

definition issues :: "(repo_op \<Rightarrow> bool) \<Rightarrow> (repo \<Rightarrow> repo \<times> 'r) \<Rightarrow> bool" where
  "issues K g = (\<exists>c clk. K c \<and> (\<forall>s. fst (g s) = run_op (c, clk) s))"

lemma issues_ops:
  "K (OpInsert n) \<Longrightarrow> issues K (insert_task n clk)"
  "K (OpDispatched i shim) \<Longrightarrow> issues K (mark_dispatched i shim clk)"
  "K (OpStarted i pid pgid path) \<Longrightarrow> issues K (mark_started i pid pgid path clk)"
  "K (OpReserve i rv msg) \<Longrightarrow> issues K (reserve_resources i rv msg clk)"
  "K (OpRelease i msg) \<Longrightarrow> issues K (release_resources i msg clk)"
  "K (OpCancelRequested i) \<Longrightarrow> issues K (request_cancel i clk)"
  "K (OpTimeout i) \<Longrightarrow> issues K (mark_timeout_triggered i clk)"
  "K (OpCancelAccepted i error) \<Longrightarrow> issues K (cancel_accepted_task i error clk)"
  "K (OpComplete i u) \<Longrightarrow> issues K (complete_task i u clk)"
  "K (OpRecovered i) \<Longrightarrow> issues K (mark_recovered i clk)"
  "K (OpRecoveryLost i) \<Longrightarrow> issues K (mark_recovery_lost i clk)"
  "K (OpDelete i) \<Longrightarrow> issues K (delete_task i)"
  unfolding issues_def
  by (rule exI conjI exI [of _ clk] | assumption | simp add: fst_set_cancel_requested request_cancel_def)+

lemma issues_by_ops:
  "issues K g \<Longrightarrow> mc_repo m' = fst (g (mc_repo m)) \<Longrightarrow> mc_spawned m' = mc_spawned m \<Longrightarrow> by_ops K m m'"
  unfolding issues_def using by_ops_one by metis

subsection \<open>Kinds of operations\<close>

fun request_op :: "repo_op \<Rightarrow> bool" where
  "request_op (OpInsert _) = True"
| "request_op (OpCancelRequested _) = True"
| "request_op (OpCancelAccepted _ _) = True"
| "request_op _ = False"

fun dispatcher_op :: "repo_op \<Rightarrow> bool" where
  "dispatcher_op (OpReserve _ _ _) = True"
| "dispatcher_op (OpDispatched _ _) = True"
| "dispatcher_op (OpComplete _ u) = is_terminal (cu_status u)"
| "dispatcher_op (OpCancelAccepted _ _) = True"
| "dispatcher_op _ = False"

fun recovery_op :: "repo_op \<Rightarrow> bool" where
  "recovery_op (OpRelease _ _) = True"
| "recovery_op (OpReserve _ _ _) = True"
| "recovery_op (OpRecovered _) = True"
| "recovery_op (OpRecoveryLost _) = True"
| "recovery_op _ = False"

fun shim_op :: "string \<Rightarrow> repo_op \<Rightarrow> bool" where
  "shim_op i (OpStarted j _ _ _) = (j = i)"
| "shim_op i (OpTimeout j) = (j = i)"
| "shim_op i (OpComplete j u) = (j = i \<and> is_terminal (cu_status u))"
| "shim_op i _ = False"

subsection \<open>The parts of the state\<close>

lemma mc_repo_puts [simp]:
  "mc_repo (put_service sx m) = stored_repo sx" "mc_repo (put_dispatcher d m) = dp_repo d"
  "mc_repo (put_shim sm m) = wd_repo (sm_world sm)" "dp_world (get_dispatcher m a) = mc_world m"
  "sm_world (get_shim m) = mc_world m" "sv_shim (get_supervision m k) = get_shim m"
  by (simp_all add: put_service_def put_dispatcher_def put_shim_def put_world_def get_dispatcher_def get_shim_def
      get_supervision_def)

lemma mc_spawned_puts [simp]:
  "mc_spawned (put_service sx m) = mc_spawned m" "mc_spawned (put_dispatcher d m) = dp_spawned d"
  "mc_spawned (put_shim sm m) = mc_spawned m" "dp_spawned (get_dispatcher m a) = mc_spawned m"
  "dp_spawned (fst (in_world f d)) = dp_spawned d"
  by (simp_all add: put_service_def put_dispatcher_def put_shim_def put_world_def get_dispatcher_def in_world_def
      case_prod_beta)

lemma acts_on_service:
  "issues K g \<Longrightarrow> acts (by_ops K) (on_service (in_service (on_repo g)) l)"
  "(\<And>sx. stored_repo (h sx) = stored_repo sx) \<Longrightarrow> acts (by_ops K) (on_service (\<lambda>sx. (h sx, r sx)) l)"
  "(\<And>w. wd_repo (k w) = wd_repo w) \<Longrightarrow> acts (by_ops K) (on_service (in_service (\<lambda>w. (k w, r' w))) l)"
  "acts (by_ops K) (on_service (in_service (on_files e)) l)"
  "acts (by_ops K) (on_service (in_service (persist_latest_result faults now i)) l)"
  unfolding on_service_def by (auto intro!: acts_focus intro: by_ops_same issues_by_ops)

lemma acts_on_dispatcher:
  "issues K g \<Longrightarrow> acts (by_ops K) (on_dispatcher (in_world (on_repo g)) a)"
  "(\<And>d. dp_repo (h d) = dp_repo d) \<Longrightarrow> (\<And>d. may_spawn K \<or> dp_spawned (h d) = dp_spawned d) \<Longrightarrow>
   acts (by_ops K) (on_dispatcher (\<lambda>d. (h d, r d)) a)"
  "acts (by_ops K) (on_dispatcher (in_world (persist_latest_result faults now i)) a)"
  unfolding on_dispatcher_def
  by (cases "may_spawn K"; auto intro!: acts_focus intro: by_ops_same issues_by_ops)+

lemma sm_world_in_shim [simp]: "sm_world (fst (in_shim f sm)) = fst (f (sm_world sm))"
  by (simp add: in_shim_def case_prod_beta)

lemma acts_on_shim:
  "issues K g \<Longrightarrow> acts (by_ops K) (on_shim (in_shim (on_repo g)) l)"
  "(\<And>sm. wd_repo (sm_world (h sm)) = wd_repo (sm_world sm)) \<Longrightarrow> acts (by_ops K) (on_shim (\<lambda>sm. (h sm, r sm)) l)"
  "acts (by_ops K) (on_shim (in_shim (persist_latest_result faults now i)) l)"
  unfolding on_shim_def by (auto intro!: acts_focus intro: by_ops_same issues_by_ops)

lemma acts_return: "acts R (Return a)"
  by simp

lemmas acts_rules = acts_return acts_then acts_on_service acts_on_dispatcher acts_on_shim issues_ops

subsection \<open>The threads\<close>

lemma acts_submit: "acts (by_ops request_op) (submit_program settings l caps host request)"
  by (auto simp: submit_program_def store_program_def Let_def intro!: acts_rules split: sum.split)

lemma signal_task_repo [simp]: "stored_repo (fst (signal_task host task sx)) = stored_repo sx"
  by (simp add: signal_task_def case_prod_beta)

lemma acts_kill: "acts (by_ops request_op) (kill_program host i caller)"
proof -
  have "acts (by_ops request_op) (on_service (signal_task host task) ())" for task
    unfolding on_service_def by (simp add: acts_focus by_ops_same)
  then show ?thesis
    by (auto simp: kill_program_def stop_program_def intro!: acts_rules split: sum.split)
qed

lemma acts_handle: "acts (by_ops request_op) (handle_program rt host request endpoint)"
proof -
  have "acts (by_ops request_op) (on_service (handle rt host request endpoint) ())"
    if "endpoint \<noteq> CreateTask" "\<forall>i. endpoint \<noteq> KillTask i"
    unfolding on_service_def by (simp add: acts_focus by_ops_same handle_reads [OF that])
  then show ?thesis
    by (auto simp: handle_program_def intro!: acts_bind acts_submit acts_kill split: endpoint.split sum.split)
qed

lemma acts_serve: "acts (by_ops request_op) (serve_program rt host request)"
  by (simp add: serve_program_def acts_handle split: option.split prod.split)

lemma acts_escalation: "acts (by_ops K) (escalation_program esc)"
  by (auto simp: escalation_program_def intro!: acts_rules split: prod.split option.split)

lemma acts_gc_tasks: "acts (by_ops is_delete) (gc_tasks_program remove tasks)"
  by (induction tasks) (auto intro!: acts_bind acts_rules split: removal.split)

lemma acts_gc: "acts (by_ops is_delete) (gc_program from_std remove settings now)"
  by (auto simp: gc_program_def intro!: acts_rules acts_gc_tasks)

lemma acts_recover_tasks: "acts (by_ops recovery_op) (recover_tasks_program host tasks)"
  by (induction tasks)
    (auto simp: recover_task_program_def lost_program_def Let_def intro!: acts_rules split: TaskStatus.split option.split)

lemma acts_recover: "acts (by_ops recovery_op) (recover_program host)"
  by (auto simp: recover_program_def intro!: acts_rules acts_recover_tasks)

lemma dispatcher_may_spawn [simp]: "may_spawn dispatcher_op"
  by (simp add: may_spawn_def)

lemma acts_dispatch_task: "acts (by_ops dispatcher_op) (dispatch_task_program settings l host task a)"
  by (auto simp: dispatch_task_program_def launch_program_def spawn_failed_update_def Let_def intro!: acts_rules
      split: sum.split)

lemma acts_dispatch_tasks: "acts (by_ops dispatcher_op) (dispatch_tasks_program settings l hosts tasks a)"
  by (induction tasks arbitrary: a) (auto intro!: acts_rules acts_dispatch_task)

lemma acts_dispatch: "acts (by_ops dispatcher_op) (dispatch_program settings l hosts)"
  by (auto simp: dispatch_program_def intro!: acts_rules acts_dispatch_tasks)

subsection \<open>The shim works on its own task\<close>

lemma spawn_task_process_repo [simp]:
  "wd_repo (sm_world (fst (spawn_task_process host task plan root sm))) = wd_repo (sm_world sm)"
  by (simp add: spawn_task_process_def fst_and_then Let_def case_prod_beta split: sum.split option.split)

lemma acts_finish: "is_terminal (cu_status u) \<Longrightarrow> acts (by_ops (shim_op i)) (finish_program host i u)"
  by (auto simp: finish_program_def intro!: acts_rules)

lemma supervision_repo [simp]:
  "sv_repo (notice_cancel now c sv) = sv_repo sv" "sv_repo (terminate_group w sv) = sv_repo sv"
  "sv_repo (kill_group w now sv) = sv_repo sv"
  by (simp_all add: notice_cancel_def terminate_group_def kill_group_def send_signal_def)

lemma notice_timeout_by_ops:
  "by_ops (shim_op (wa_task_id w)) m (put_shim (sv_shim (fst (notice_timeout w now clk (get_supervision m k)))) m)"
proof (cases "sv_timeout_started (get_supervision m k) = None \<and> elapsed_at_least (wa_wall_ms w) (now 0) (wa_start w)")
  case True
  have "issues (shim_op (wa_task_id w)) (mark_timeout_triggered (wa_task_id w) clk)" by (rule issues_ops) simp
  moreover have "sv_repo (fst (notice_timeout w now clk (get_supervision m k))) =
      fst (mark_timeout_triggered (wa_task_id w) clk (mc_repo m))"
    using True by (simp add: notice_timeout_def fst_and_then in_supervision_def case_prod_beta split: sum.split)
  ultimately show ?thesis by (intro issues_by_ops) simp_all
next
  case False
  then show ?thesis unfolding notice_timeout_def if_not_P [OF False] by (simp add: by_ops_same)
qed

lemma acts_supervise: "acts (by_ops (shim_op (wa_task_id w))) (supervise_program w es k)"
proof (induction w es k rule: supervise_program.induct)
  case (2 w now clk es k)
  then show ?case
    by (auto simp: on_supervision_def intro!: acts_then acts_focus notice_timeout_by_ops by_ops_same)
qed (simp_all add: on_supervision_def acts_focus by_ops_same)

definition over_at_end :: "noticed \<times> CompletionUpdate option app_result \<Rightarrow> bool" where
  "over_at_end r = (case snd r of Inr (Some u) \<Rightarrow> is_terminal (cu_status u) | _ \<Rightarrow> True)"

lemma yields_then: "(\<And>l e. Q (l, Inl e)) \<Longrightarrow> (\<And>a l. yields Q (k a l)) \<Longrightarrow> yields Q (act_then p k)"
  unfolding act_then_def by (rule yields_bind [OF yields_any]) (auto split: sum.split)

lemma supervise_yields: "yields over_at_end (supervise_program w es k)"
proof (induction w es k rule: supervise_program.induct)
  case (2 w now clk es k)
  then show ?case by (auto intro!: yields_then simp: over_at_end_def)
next
  case (3 w result now utc read es k)
  have "is_terminal (cu_status u)" if "supervise_exit w result now utc read sv = Inr u" for u sv
    using that by (auto simp: supervise_exit_def res_bind_eq_Inr split: sum.splits)
  then show ?case
    by (auto simp: on_supervision_def focus_def over_at_end_def case_prod_beta res_bind_eq_Inr split: sum.split option.split)
qed (simp_all add: over_at_end_def)

text \<open>The task it reads is the one it was started for.\<close>

lemma acts_reading_shim:
  assumes "\<And>task. tr_task_id task = i \<Longrightarrow> acts (by_ops K) (k task ())"
  shows "acts (by_ops K) (act_then (on_shim (\<lambda>sm. (sm, get_task i (wd_repo (sm_world sm)))) ()) k)"
  using assms by (simp add: act_then_def on_shim_def focus_def by_ops_same get_task_id split: sum.split)

lemma acts_supervise_spawned: "acts (by_ops (shim_op i)) (supervise_spawned_program host args es i plan spawned)"
proof -
  have "acts (by_ops (shim_op i)) (supervise_program w es k)" if "wa_task_id w = i" for w k
    using acts_supervise [of w es k] that by simp
  then show ?thesis
    by (auto simp: supervise_spawned_program_def
        intro!: acts_then acts_on_shim issues_ops acts_reading_shim acts_bind_yields [OF _ supervise_yields] acts_finish
        simp: over_at_end_def split: sum.split option.split)
qed

lemma acts_shim: "acts (by_ops (shim_op (ia_task_id args))) (shim_program host args es)"
proof -
  have "acts (by_ops K) (on_shim (spawn_task_process host task plan root) ())" for K task plan root
    unfolding on_shim_def by (simp add: acts_focus by_ops_same)
  then show ?thesis
    by (auto simp: shim_program_def early_update_def Let_def
        intro!: acts_reading_shim acts_bind acts_finish acts_supervise_spawned
        split: sum.split option.split)
qed

end
