(* ===== verification/Accounts.thy ===== *)
theory Accounts
  imports Guarantees
begin

section \<open>Accounts: the dispatcher among the other threads\<close>

text \<open>
  The accounts of a cycle are taken once, at its start, and then kept in memory while requests, shims
  and the collector change the database. They still cover what is reserved: nobody but the dispatcher
  reserves, so that to the dispatcher the others only give back.
\<close>

text \<open>
  Everything is for the runtime (\<open>sel\<close> is \<open>None\<close>) and for the quota of each tenant. What a tenant
  holds depends on the control context of a task, which nobody changes; but an identifier could be
  used again under another tenant once its task was deleted, while the dispatcher still has the old
  task in its list. To the account of a tenant the others therefore must not delete tasks.
\<close>

subsection \<open>What each task holds\<close>

definition hold :: "string option \<Rightarrow> string \<Rightarrow> repo \<Rightarrow> TaskResourceReservation multiset" where
  "hold sel i s = (case find_row i s of None \<Rightarrow> {#} | Some r \<Rightarrow> holding sel r)"

lemma holding_view: "holding None r = (case vw_held (row_view r) of None \<Rightarrow> {#} | Some rv \<Rightarrow> {#rv#})"
proof -
  have "vw_held (row_view r) = row_reservation r" by (simp add: row_view_def row_reservation_def)
  then show ?thesis by (cases "row_reservation r") (simp_all add: holding_def selects_def)
qed

lemma holding_selects: "holding sel r = (if selects sel r then holding None r else {#})"
  by (simp add: holding_def selects_def split: option.split)

lemma hold_view:
  "repo_ok s \<Longrightarrow> hold None i s = (case Option.bind (view i s) vw_held of None \<Rightarrow> {#} | Some rv \<Rightarrow> {#rv#})"
  by (cases "find_row i s") (simp_all add: hold_def view_row holding_view)

lemma hold_missing: "i \<notin> set (task_ids s) \<Longrightarrow> hold sel i s = {#}"
  using find_row_None [of i s] by (simp add: hold_def)

lemma hold_le: "hold sel i s \<subseteq># hold None i s"
  using holding_selects [of sel] by (simp add: hold_def split: option.split)

lemma hold_context:
  assumes "keeps_context i s t" "find_row i s \<noteq> None" "hold None i t \<subseteq># hold None i s"
  shows "hold sel i t \<subseteq># hold sel i s"
proof -
  obtain r r' where rows: "find_row i s = Some r" "find_row i t = Some r'" "row_tenant r' = row_tenant r"
    using assms(1,2) by (auto simp: keeps_context_def is_some_and_def split: option.splits)
  then have "selects sel r' \<longleftrightarrow> selects sel r" by (simp add: selects_def)
  with assms(3) show ?thesis
    using holding_selects [of sel r] holding_selects [of sel r'] by (simp add: hold_def rows)
qed

definition held_by :: "string option \<Rightarrow> string set \<Rightarrow> repo \<Rightarrow> TaskResourceReservation multiset" where
  "held_by sel A s = (\<Sum>i\<in>set (task_ids s) \<inter> A. hold sel i s)"

lemma active_held: "repo_ok s \<Longrightarrow> active sel s = held_by sel UNIV s"
proof -
  assume ok: "repo_ok s"
  have "sum_list (map (holding sel) (rp_tasks s)) = sum_list (map (\<lambda>r. hold sel (c_task_id r) s) (rp_tasks s))"
    using find_row_mem [OF ok] by (intro arg_cong [where f = sum_list]) (simp add: hold_def)
  also have "\<dots> = sum_list (map (\<lambda>i. hold sel i s) (task_ids s))"
    by (simp add: task_ids_def comp_def)
  also have "\<dots> = (\<Sum>i\<in>set (task_ids s). hold sel i s)"
    using ok by (intro sum_list_distinct_conv_sum_set) (simp add: repo_ok_def)
  finally show ?thesis by (simp add: active_def held_by_def)
qed

lemma sum_subset_mset: "finite A \<Longrightarrow> (\<And>i. i \<in> A \<Longrightarrow> f i \<subseteq># g i) \<Longrightarrow> (\<Sum>i\<in>A. f i) \<subseteq># (\<Sum>i\<in>A. g i :: 'a multiset)"
  by (induction A rule: finite_induct) (simp_all add: subset_mset.add_mono)

text \<open>The sum may be taken over any set of tasks that has the stored ones.\<close>

lemma held_by_over:
  assumes "finite U" "set (task_ids s) \<subseteq> U"
  shows "held_by sel A s = (\<Sum>i\<in>U \<inter> A. hold sel i s)"
  unfolding held_by_def
  by (rule sum.mono_neutral_left) (use assms hold_missing in auto)

lemma held_by_mono:
  assumes "\<And>i. i \<in> A \<Longrightarrow> hold sel i t \<subseteq># hold sel i s"
  shows "held_by sel A t \<subseteq># held_by sel A s"
proof -
  let ?U = "set (task_ids s) \<union> set (task_ids t)"
  have "held_by sel A t = (\<Sum>i\<in>?U \<inter> A. hold sel i t)" "held_by sel A s = (\<Sum>i\<in>?U \<inter> A. hold sel i s)"
    by (rule held_by_over; auto)+
  then show ?thesis using assms by (auto intro!: sum_subset_mset)
qed

lemma held_by_split: "held_by sel UNIV s = held_by sel (- {i}) s + hold sel i s"
proof (cases "i \<in> set (task_ids s)")
  case True
  then have "set (task_ids s) = insert i (set (task_ids s) - {i})" by auto
  then have "held_by sel UNIV s = (\<Sum>j\<in>insert i (set (task_ids s) - {i}). hold sel j s)" by (simp add: held_by_def)
  also have "\<dots> = hold sel i s + held_by sel (- {i}) s" by (simp add: held_by_def Diff_eq)
  finally show ?thesis by (simp add: ac_simps)
next
  case False
  then have "set (task_ids s) \<inter> - {i} = set (task_ids s)" by auto
  with False show ?thesis by (simp add: held_by_def hold_missing)
qed

subsection \<open>Nobody else reserves\<close>

fun reserves :: "repo_op \<Rightarrow> bool" where
  "reserves (OpReserve _ _ _) = True"
| "reserves _ = False"

lemma task_step_gives_back:
  assumes "\<not> reserves c"
  shows "Option.bind (task_step i (c, clk) v) vw_held \<in> {None, Option.bind v vw_held}"
  using assms by (cases c; cases v) (auto simp: task_step_def new_view_def)

lemma find_row_deleted: "find_row i (run_op (OpDelete j, clk) s) \<in> {None, find_row i s}"
proof -
  have eq: "find (\<lambda>r. c_task_id r = i) (filter (\<lambda>r. c_task_id r \<noteq> j) rs) =
      (if i = j then None else find (\<lambda>r. c_task_id r = i) rs)" for rs
    by (induction rs) auto
  show ?thesis by (simp add: delete_task_def find_row_def eq)
qed

lemma run_op_context: "keeps_context i s (run_op (c, clk) s) \<or> find_row i (run_op (c, clk) s) = None"
proof (cases c)
  case (OpDelete j)
  then show ?thesis
    using find_row_deleted [of i j clk s] by (auto intro: keeps_context_find simp del: run_op.simps)
qed (use run_op_keeps_context [of c i s clk] in simp_all)

lemma run_op_gives_back:
  assumes "repo_ok s" "\<not> reserves c"
  shows "hold sel i (run_op (c, clk) s) \<subseteq># hold sel i s"
proof -
  let ?t = "run_op (c, clk) s"
  have none: "hold None i ?t \<subseteq># hold None i s"
    using task_step_gives_back [OF assms(2), of i clk "view i s"]
    by (auto simp: hold_view assms(1) run_op_keeps_ok view_run_op simp del: run_op.simps)
  show ?thesis
  proof (cases "find_row i s")
    case None
    then have "hold None i ?t = {#}" using none by (simp add: hold_def [of None i s])
    then show ?thesis using hold_le [of sel i ?t] by simp
  next
    case (Some r)
    from run_op_context show ?thesis
    proof
      assume "keeps_context i s ?t"
      from hold_context [OF this _ none] show ?thesis by (simp add: Some)
    qed (simp add: hold_def [of sel i ?t])
  qed
qed

lemma run_ops_give_back:
  "repo_ok s \<Longrightarrow> list_all (\<lambda>c. \<not> reserves (fst c)) ops \<Longrightarrow> hold sel i (fold run_op ops s) \<subseteq># hold sel i s"
proof (induction ops arbitrary: s)
  case (Cons c ops)
  obtain c' clk where c: "c = (c', clk)" by (cases c)
  have "hold sel i (fold run_op ops (run_op c s)) \<subseteq># hold sel i (run_op c s)"
    using Cons run_op_keeps_ok by simp
  moreover have "hold sel i (run_op c s) \<subseteq># hold sel i s"
    using Cons.prems run_op_gives_back by (simp add: c)
  ultimately show ?case by simp
qed simp

lemma hold_reserved:
  assumes "repo_ok s" "reserve_resources i rv msg clk s = (t, Inr u)"
  shows "hold None i t = {#rv#}" "j \<noteq> i \<Longrightarrow> hold None j t = hold None j s"
proof -
  have t: "t = run_op (OpReserve i rv msg, clk) s" using assms(2) by simp
  have v: "view j t = task_step j (OpReserve i rv msg, clk) (view j s)" for j
    unfolding t by (rule view_run_op [OF assms(1)])
  have ok: "repo_ok t" unfolding t by (rule run_op_keeps_ok [OF assms(1)])
  have "find_row i t \<noteq> None"
    using assms(2) insert_event_tx_Inr(1) insert_event_tx_Inr(2)
    by (auto simp: reserve_resources_def transact_cases find_row_None task_ids_def)
  then have "view i t \<noteq> None" by (simp add: view_row [OF ok])
  then show "hold None i t = {#rv#}"
    using v [of i] by (cases "view i s") (auto simp: hold_view [OF ok] task_step_def)
  show "j \<noteq> i \<Longrightarrow> hold None j t = hold None j s"
    using v [of j] by (simp add: hold_view ok assms(1) task_step_def)
qed

lemma hold_completed:
  assumes "repo_ok s" "complete_task i u clk s = (t, Inr v)"
  shows "hold None i t = {#}"
proof (cases "find_row i s")
  case None
  have "t = run_op (OpComplete i u, clk) s" using assms(2) by simp
  with view_run_op [OF assms(1), of i "OpComplete i u" clk] None show ?thesis
    using run_op_keeps_ok [OF assms(1), of "(OpComplete i u, clk)"] assms(1)
    by (simp add: hold_view view_row task_step_def)
next
  case (Some r)
  have "duration_fits (cu_duration_ms u)"
    using assms(2) by (auto simp: complete_task_def transact_cases res_bind_eq_Inr i64_try_from_def duration_fits_def
        option_res_def split: option.splits if_splits)
  moreover have "t = run_op (OpComplete i u, clk) s" using assms(2) by simp
  ultimately show ?thesis
    using view_run_op [OF assms(1), of i "OpComplete i u" clk] run_op_keeps_ok [OF assms(1), of "(OpComplete i u, clk)"]
      view_row [OF assms(1), of i] Some
    by (auto simp: hold_view task_step_def)
qed

lemma row_kept_by_deletes:
  "list_all (\<lambda>c. is_delete (fst c)) ops \<Longrightarrow> find_row i (fold run_op ops s) \<in> {None, find_row i s}"
proof (induction ops arbitrary: s)
  case (Cons c ops)
  obtain j clk where c: "c = (OpDelete j, clk)" using Cons.prems by (cases c; cases "fst c") auto
  have "find_row i (run_op c s) \<in> {None, find_row i s}" unfolding c by (rule find_row_deleted)
  with Cons.IH [of "run_op c s"] Cons.prems show ?case by auto
qed simp

text \<open>No stored task is deleted.\<close>

definition all_kept :: "machine \<Rightarrow> machine \<Rightarrow> bool" where
  "all_kept m m' = list_all (\<lambda>i. i \<in> set (task_ids (mc_repo m'))) (task_ids (mc_repo m))"

lemma deletes_keep_context:
  assumes "by_ops is_delete m m'" "all_kept m m'"
  shows "keeps_context i (mc_repo m) (mc_repo m')"
proof (cases "find_row i (mc_repo m)")
  case (Some r)
  then have "i \<in> set (task_ids (mc_repo m))" using find_row_None [of i "mc_repo m"] by force
  then have "i \<in> set (task_ids (mc_repo m'))" using assms(2) by (simp add: all_kept_def list_all_iff)
  then have stored: "find_row i (mc_repo m') \<noteq> None" by (simp add: find_row_None)
  obtain ops where "mc_repo m' = fold run_op ops (mc_repo m)" "list_all (\<lambda>c. is_delete (fst c)) ops"
    using assms(1) by (auto simp: by_ops_def)
  then have "find_row i (mc_repo m') = find_row i (mc_repo m)"
    using row_kept_by_deletes [of ops i "mc_repo m"] stored by auto
  then show ?thesis by (rule keeps_context_find)
qed (simp add: keeps_context_def)

lemma by_ops_keeps_context:
  assumes "by_ops K m m'" "\<And>c. K c \<Longrightarrow> \<not> is_delete c"
  shows "keeps_context i (mc_repo m) (mc_repo m')"
proof -
  have "keeps_context i s (fold run_op ops s)" if "list_all (\<lambda>c. K (fst c)) ops" for ops s
    using that
  proof (induction ops arbitrary: s)
    case (Cons c ops)
    obtain c' clk where c: "c = (c', clk)" by (cases c)
    have "keeps_context i s (run_op c s)"
      unfolding c by (rule run_op_keeps_context) (use Cons.prems assms(2) in \<open>simp add: c\<close>)
    then show ?case using Cons by (auto intro: keeps_context_trans)
  qed (simp add: keeps_context_refl)
  with assms(1) show ?thesis by (auto simp: by_ops_def)
qed

subsection \<open>A cycle among the others\<close>

definition gives_back :: "string option \<Rightarrow> machine \<Rightarrow> machine \<Rightarrow> bool" where
  "gives_back sel m m' =
     ((repo_ok (mc_repo m) \<longrightarrow> repo_ok (mc_repo m') \<and> (\<forall>i. hold sel i (mc_repo m') \<subseteq># hold sel i (mc_repo m))) \<and>
      (sel \<noteq> None \<longrightarrow> (\<forall>i. keeps_context i (mc_repo m) (mc_repo m'))))"

interpretation others: interference "gives_back sel" for sel
  by unfold_locales (auto simp: gives_back_def intro: subset_mset.order_trans keeps_context_refl keeps_context_trans)

lemma by_ops_gives_back:
  assumes "by_ops K m m'" "\<And>c. K c \<Longrightarrow> \<not> reserves c"
    and "sel = None \<or> (\<forall>i. keeps_context i (mc_repo m) (mc_repo m'))"
  shows "gives_back sel m m'"
  using assms unfolding by_ops_def gives_back_def
  by (auto intro!: run_ops_give_back repo_sys.fold_inv simp: list_all_iff)

text \<open>An operation of the dispatcher other than its reservation.\<close>

lemma own_gives_back:
  "\<not> reserves c \<Longrightarrow> \<not> is_delete c \<Longrightarrow> mc_repo m' = run_op (c, clk) (mc_repo m) \<Longrightarrow> gives_back sel m m'"
  by (simp add: gives_back_def run_op_gives_back run_op_keeps_ok run_op_keeps_context del: run_op.simps)

text \<open>The account covers what the given tasks hold.\<close>

definition account_of :: "ResourceLedger \<Rightarrow> string option \<Rightarrow> accounts \<Rightarrow> ResourceCapacity" where
  "account_of l sel a =
     (case sel of
        None \<Rightarrow> fst a
      | Some t \<Rightarrow> unwrap_or (map_of (snd a) t) (empty_tenant_capacity l t))"

definition accounted :: "ResourceLedger \<Rightarrow> string option \<Rightarrow> string set \<Rightarrow> ResourceCapacity \<Rightarrow> machine \<Rightarrow> bool" where
  "accounted l sel A acct m = (repo_ok (mc_repo m) \<and> acct_covers l sel acct (held_by sel A (mc_repo m)))"

lemma accounted_stable: "accounted l sel A acct m \<Longrightarrow> gives_back sel m m' \<Longrightarrow> accounted l sel A acct m'"
  unfolding accounted_def gives_back_def by (auto intro: acct_covers_mono held_by_mono)

definition kept_within :: "ResourceLedger \<Rightarrow> string option \<Rightarrow> machine \<Rightarrow> bool" where
  "kept_within l sel m = (repo_ok (mc_repo m) \<and> within l sel (active_reservations sel (mc_repo m)))"

lemma acct_covers_within: "acct_covers l sel acct (mset rs) \<Longrightarrow> within l sel rs"
  by (auto simp: acct_covers_def within_def tenant_admissible_def admissible_def
      dest!: runtime_acct.covers_allowed tenant_acct.covers_allowed split: option.splits)

lemma accounted_within: "accounted l sel UNIV acct m \<Longrightarrow> kept_within l sel m"
  by (auto simp: accounted_def kept_within_def mset_active_reservations active_held intro!: acct_covers_within)

text \<open>The dispatcher knows the tenants of the tasks in its list.\<close>

definition queue_known :: "string option \<Rightarrow> TaskRecord list \<Rightarrow> machine \<Rightarrow> bool" where
  "queue_known sel tasks m = (sel = None \<or> queued tasks (mc_repo m))"

lemma queue_known_stable: "queue_known sel tasks m \<Longrightarrow> gives_back sel m m' \<Longrightarrow> queue_known sel tasks m'"
  by (auto simp: queue_known_def gives_back_def intro: queued_keeps)

lemma queue_known_Cons: "queue_known sel (task # tasks) m \<longleftrightarrow> queue_known sel [task] m \<and> queue_known sel tasks m"
  by (auto simp: queue_known_def queued_def)

text \<open>The accounts after a reservation, and what the account of the runtime was before it for the other tasks.\<close>

definition charge :: "ResourceLedger \<Rightarrow> TaskRecord \<Rightarrow> TaskResourceReservation \<Rightarrow> accounts \<Rightarrow> accounts" where
  "charge l task rv a =
     (add_reservation (fst a) rv,
      case task_tenant task of Some t \<Rightarrow> charge_tenant l t rv (snd a) | None \<Rightarrow> snd a)"

lemma account_of_charge:
  "account_of l sel (charge l task rv a) =
     (if sel = None \<or> sel = task_tenant task then add_reservation (account_of l sel a) rv else account_of l sel a)"
  by (cases sel; cases "task_tenant task")
    (auto simp: account_of_def charge_def charge_tenant_def bt_entry_def map_of_bt_insert)

definition fits_accounts :: "ResourceLedger \<Rightarrow> TaskRecord \<Rightarrow> accounts \<Rightarrow> TaskResourceReservation \<Rightarrow> bool" where
  "fits_accounts l task a rv =
     (can_reserve l (fst a) rv \<and>
      can_reserve_for_tenant l (task_tenant task)
        (unwrap_or (Option.bind (task_tenant task) (map_of (snd a)))
           (empty_tenant_capacity l (unwrap_or (task_tenant task) []))) rv)"

lemma fits_accounts_fits:
  "fits_accounts l task a rv \<Longrightarrow> sel = None \<or> sel = task_tenant task \<Longrightarrow> acct_fits l sel (account_of l sel a) rv"
  by (cases sel; cases "task_tenant task") (auto simp: fits_accounts_def acct_fits_def account_of_def)

definition charged_for ::
    "ResourceLedger \<Rightarrow> string option \<Rightarrow> TaskRecord \<Rightarrow> TaskResourceReservation \<Rightarrow> accounts \<Rightarrow> machine \<Rightarrow> bool" where
  "charged_for l sel task rv a m =
     (accounted l sel UNIV (account_of l sel (charge l task rv a)) m \<and>
      (sel = None \<longrightarrow> accounted l None (- {tr_task_id task}) (fst a) m \<and> can_reserve l (fst a) rv))"

lemma charged_for_stable: "charged_for l sel task rv a m \<Longrightarrow> gives_back sel m m' \<Longrightarrow> charged_for l sel task rv a m'"
  by (auto simp: charged_for_def intro: accounted_stable)

lemma reserve_charges:
  assumes "accounted l sel UNIV (account_of l sel a) m" "queue_known sel [task] m" "fits_accounts l task a rv"
    and "reserve_resources (tr_task_id task) rv msg clk (mc_repo m) = (t, Inr u)" "mc_repo m' = t"
  shows "charged_for l sel task rv a m'"
proof -
  let ?i = "tr_task_id task" and ?s = "mc_repo m" and ?acct = "account_of l sel a"
  have ok: "repo_ok ?s" and cov: "acct_covers l sel ?acct (active sel ?s)"
    using assms(1) by (simp_all add: accounted_def active_held)
  have t: "t = run_op (OpReserve ?i rv msg, clk) ?s" using assms(4) by simp
  have ok': "repo_ok t" unfolding t by (rule run_op_keeps_ok [OF ok])
  note hold = hold_reserved [OF ok assms(4)]
  have "find_row ?i t \<noteq> None" using hold(1) by (cases "find_row ?i t") (simp_all add: hold_def)
  then have "view ?i t \<noteq> None" by (simp add: view_row [OF ok'])
  then have "view ?i ?s \<noteq> None"
    unfolding t view_run_op [OF ok] by (cases "view ?i ?s") (simp_all add: task_step_def)
  then obtain r where row: "find_row ?i ?s = Some r" by (cases "find_row ?i ?s") (simp_all add: view_row [OF ok])
  then have mine: "selects sel r \<longleftrightarrow> sel = None \<or> sel = task_tenant task"
    using assms(2) by (auto simp: queue_known_def queued_def selects_def)
  have "active sel t + holding sel r = active sel ?s + (if selects sel r then {#rv#} else {#})"
    by (rule reserve_resources_active [OF ok assms(4) row])
  then have "active sel t \<subseteq># active sel ?s + (if selects sel r then {#rv#} else {#})"
    by (metis mset_subset_eq_add_left)
  then have "acct_covers l sel (account_of l sel (charge l task rv a)) (active sel t)"
    using acct_covers_add [OF cov fits_accounts_fits [OF assms(3)]] acct_covers_mono [OF cov]
    by (auto simp: account_of_charge mine split: if_splits)
  moreover have "acct_covers l None (fst a) (held_by None (- {?i}) t)" if "sel = None"
  proof -
    have "held_by None (- {?i}) t \<subseteq># held_by None (- {?i}) ?s" by (rule held_by_mono) (simp add: hold)
    then have "held_by None (- {?i}) t \<subseteq># active None ?s"
      using held_by_split [of None ?s ?i] subset_mset.order_trans by (fastforce simp: active_held [OF ok])
    then show ?thesis using acct_covers_mono [OF cov] that by (simp add: account_of_def)
  qed
  ultimately show ?thesis
    using ok' assms(3,5) by (simp add: charged_for_def accounted_def active_held fits_accounts_def)
qed

lemma complete_uncharges:
  assumes "charged_for l sel task rv a m" "complete_task (tr_task_id task) u clk (mc_repo m) = (t, Inr v)" "mc_repo m' = t"
  shows "accounted l sel UNIV
    (account_of l sel (subtract_reservation (add_reservation (fst a) rv) rv, snd (charge l task rv a))) m'"
proof (cases sel)
  case None
  let ?i = "tr_task_id task"
  have ok: "repo_ok (mc_repo m)" and cov: "runtime_acct.covers l (fst a) (held_by None (- {?i}) (mc_repo m))"
    and fits: "can_reserve l (fst a) rv"
    using assms(1) by (simp_all add: charged_for_def accounted_def None acct_covers_def)
  have t: "t = run_op (OpComplete ?i u, clk) (mc_repo m)" using assms(2) by simp
  have "held_by None (- {?i}) t \<subseteq># held_by None (- {?i}) (mc_repo m)"
    unfolding t by (rule held_by_mono) (simp add: run_op_gives_back ok del: run_op.simps)
  then have "held_by None UNIV t \<subseteq># held_by None (- {?i}) (mc_repo m)"
    using held_by_split [of None t ?i] hold_completed [OF ok assms(2)] by simp
  then show ?thesis
    using runtime_acct.covers_undo [OF cov fits] run_op_keeps_ok [OF ok, of "(OpComplete ?i u, clk)"] assms(3)
    by (simp add: accounted_def t None acct_covers_def account_of_def)
next
  case (Some t')
  have "gives_back sel m m'" by (rule own_gives_back [of "OpComplete (tr_task_id task) u" _ clk]) (use assms(2,3) in simp_all)
  moreover have "accounted l sel UNIV (account_of l sel (charge l task rv a)) m" using assms(1) by (simp add: charged_for_def)
  ultimately show ?thesis using accounted_stable by (fastforce simp: account_of_def Some)
qed

text \<open>A call of the dispatcher, with what holds before it and after it whatever the others do.\<close>

lemma accounts_of_in_world [simp]: "accounts_of (fst (in_world f d)) = accounts_of d"
  by (simp add: accounts_of_def)

lemma safe_call:
  assumes "P0 m" "\<And>m m'. P0 m \<Longrightarrow> gives_back sel m m' \<Longrightarrow> P0 m'"
    and "\<And>m m'. P0 m \<Longrightarrow> mc_repo m' = fst (g (mc_repo m)) \<Longrightarrow> kept_within l sel m'"
    and "\<And>m m' b. P0 m \<Longrightarrow> g (mc_repo m) = (mc_repo m', Inr b) \<Longrightarrow> P b m'"
    and "\<And>b m m'. P b m \<Longrightarrow> gives_back sel m m' \<Longrightarrow> P b m'"
  shows "safe (gives_back sel) (\<lambda>_. kept_within l sel) (\<lambda>(a', r) m. \<forall>b. r = Inr b \<longrightarrow> a' = a \<and> P b m)
    (on_dispatcher (in_world (on_repo g)) a) m"
  unfolding on_dispatcher_def
proof (rule others.safe_focus [where ?P0.0 = P0])
  fix m b
  assume "P0 m" "snd (in_world (on_repo g) (get_dispatcher m a)) = Inr b"
  then show "accounts_of (fst (in_world (on_repo g) (get_dispatcher m a))) = a \<and>
      P b (put_dispatcher (fst (in_world (on_repo g) (get_dispatcher m a))) m)"
    using assms(4) [of m "put_dispatcher (fst (in_world (on_repo g) (get_dispatcher m a))) m" b]
    by (simp add: dispatching.own_get prod_eq_iff)
qed (use assms in auto)

lemma safe_leave:
  assumes "P m" "\<And>m m'. P m \<Longrightarrow> gives_back sel m m' \<Longrightarrow> P m'" "\<And>m. P m \<Longrightarrow> kept_within l sel m"
    and "\<And>d. dp_repo (fst (f d)) = dp_repo d" "\<And>d. accounts_of (fst (f d)) = accounts_of d"
    and "\<And>m m'. P m \<Longrightarrow> mc_repo m' = mc_repo m \<Longrightarrow> P m'"
  shows "safe (gives_back sel) (\<lambda>_. kept_within l sel) (\<lambda>(a', r) m. \<forall>b. r = Inr b \<longrightarrow> a' = a \<and> P m) (on_dispatcher f a) m"
  unfolding on_dispatcher_def
proof (rule others.safe_focus [where ?P0.0 = P])
  fix m
  let ?m = "put_dispatcher (fst (f (get_dispatcher m a))) m"
  have "mc_repo ?m = mc_repo m" by (simp add: assms(4))
  then show "P m \<Longrightarrow> kept_within l sel ?m" and
      "P m \<Longrightarrow> accounts_of (fst (f (get_dispatcher m a))) = a \<and> P ?m"
    using assms(3,6) by (simp_all add: assms(5) dispatching.own_get)
qed (use assms(1,2) in blast)+

text \<open>A launch, on every branch.\<close>

lemma failed_calls:
  "snd (reserve_resources i rv msg clk s) = Inl e \<Longrightarrow> fst (reserve_resources i rv msg clk s) = s"
  "snd (complete_task i u clk s) = Inl e \<Longrightarrow> fst (complete_task i u clk s) = s"
  unfolding reserve_resources_def complete_task_def Let_def by (erule failed_op)+

lemma same_repo_kept: "mc_repo m' = mc_repo m \<Longrightarrow> kept_within l sel m \<Longrightarrow> kept_within l sel m'"
  by (simp add: kept_within_def)

lemma accounted_same: "accounted l sel A acct m \<Longrightarrow> mc_repo m' = mc_repo m \<Longrightarrow> accounted l sel A acct m'"
  by (simp add: accounted_def)

abbreviation safe_cycle ::
    "ResourceLedger \<Rightarrow> string option \<Rightarrow> (accounts \<Rightarrow> 'a \<Rightarrow> machine \<Rightarrow> bool) \<Rightarrow>
     (machine, accounts \<times> 'a app_result) act \<Rightarrow> machine \<Rightarrow> bool" where
  "safe_cycle l sel P \<equiv> safe (gives_back sel) (\<lambda>_. kept_within l sel) (\<lambda>(a, r) m. \<forall>u. r = Inr u \<longrightarrow> P a u m)"

abbreviation covering :: "ResourceLedger \<Rightarrow> string option \<Rightarrow> accounts \<Rightarrow> machine \<Rightarrow> bool" where
  "covering l sel a \<equiv> accounted l sel UNIV (account_of l sel a)"

abbreviation accounts_cover :: "ResourceLedger \<Rightarrow> string option \<Rightarrow> accounts \<Rightarrow> unit \<Rightarrow> machine \<Rightarrow> bool" where
  "accounts_cover l sel a u \<equiv> covering l sel a"

lemma safe_reserve:
  assumes "covering l sel a m" "queue_known sel [task] m" "fits_accounts l task a rv"
  shows "safe_cycle l sel (\<lambda>a' u m. a' = a \<and> charged_for l sel task rv a m)
    (on_dispatcher (in_world (on_repo (reserve_resources (tr_task_id task) rv msg clk))) a) m"
proof (rule safe_call [where ?P0.0 = "\<lambda>m. covering l sel a m \<and> queue_known sel [task] m"])
  fix m m' b
  assume m: "covering l sel a m \<and> queue_known sel [task] m"
  note charges = reserve_charges [OF m [THEN conjunct1] m [THEN conjunct2] assms(3)]
  show "charged_for l sel task rv a m'"
    if "reserve_resources (tr_task_id task) rv msg clk (mc_repo m) = (mc_repo m', Inr b)"
    by (rule charges [OF that refl])
  show "kept_within l sel m'" if repo: "mc_repo m' = fst (reserve_resources (tr_task_id task) rv msg clk (mc_repo m))"
  proof (cases "snd (reserve_resources (tr_task_id task) rv msg clk (mc_repo m))")
    case (Inl e)
    then show ?thesis using accounted_within m repo by (auto simp: failed_calls intro: same_repo_kept)
  next
    case (Inr u)
    then have "reserve_resources (tr_task_id task) rv msg clk (mc_repo m) = (mc_repo m', Inr u)"
      by (simp add: repo prod_eq_iff)
    then have "charged_for l sel task rv a m'" by (rule charges [OF _ refl])
    then show ?thesis by (auto simp: charged_for_def intro: accounted_within)
  qed
qed (use assms(1,2) accounted_stable queue_known_stable charged_for_stable in blast)+

lemma safe_quiet:
  assumes "covering l sel a m" "\<not> reserves c" "\<not> is_delete c" "\<And>s. fst (g s) = run_op (c, clk) s"
  shows "safe_cycle l sel (\<lambda>a' u m. a' = a \<and> covering l sel a m) (on_dispatcher (in_world (on_repo g)) a) m"
proof (rule safe_call [where ?P0.0 = "covering l sel a"])
  have after: "covering l sel a m'" if "covering l sel a m" "mc_repo m' = fst (g (mc_repo m))" for m m'
    using accounted_stable [OF that(1) own_gives_back [OF assms(2,3)]] that(2) by (simp add: assms(4))
  show "covering l sel a m \<Longrightarrow> mc_repo m' = fst (g (mc_repo m)) \<Longrightarrow> kept_within l sel m'" for m m'
    by (rule accounted_within [OF after])
  show "covering l sel a m \<Longrightarrow> g (mc_repo m) = (mc_repo m', Inr b) \<Longrightarrow> covering l sel a m'" for m m' b
    using after [of m m'] by simp
qed (use assms(1) accounted_stable in blast)+

lemma safe_persist:
  assumes "covering l sel a m"
  shows "safe_cycle l sel (\<lambda>a' u m. a' = a \<and> covering l sel a m)
    (on_dispatcher (in_world (persist_latest_result faults now i)) a) m"
  by (rule safe_leave [where P = "covering l sel a"], rule assms, erule (1) accounted_stable,
      erule accounted_within) (simp_all, erule (1) accounted_same)

lemma safe_spawned:
  assumes "covering l sel a m"
  shows "safe_cycle l sel (accounts_cover l sel)
    (act_then (on_dispatcher (\<lambda>d. (d\<lparr>dp_spawned := dp_spawned d @ xs\<rparr>, Inr ())) a) (\<lambda>_ a.
       on_dispatcher (in_world (on_repo (mark_dispatched i pid clk))) a)) m"
proof (rule others.safe_then [where P = "\<lambda>a' u m. a' = a \<and> covering l sel a m"])
  show "safe_cycle l sel (\<lambda>a' u m. a' = a \<and> covering l sel a m)
      (on_dispatcher (\<lambda>d. (d\<lparr>dp_spawned := dp_spawned d @ xs\<rparr>, Inr ())) a) m"
    by (rule safe_leave [where P = "covering l sel a"], rule assms, erule (1) accounted_stable,
      erule accounted_within) (simp_all add: accounts_of_def, erule (1) accounted_same)
next
  fix a' m
  assume "a' = a \<and> covering l sel a m"
  then show "safe_cycle l sel (accounts_cover l sel) (on_dispatcher (in_world (on_repo (mark_dispatched i pid clk))) a') m"
    by (auto intro!: safe_post [OF safe_quiet [where c = "OpDispatched i pid" and clk = clk]])
qed

lemma safe_unspawned:
  assumes "charged_for l sel task rv a m"
  shows "safe_cycle l sel (accounts_cover l sel)
    (act_then (on_dispatcher (in_world (on_repo (complete_task (tr_task_id task) u clk))) (charge l task rv a)) (\<lambda>_ a.
       on_dispatcher (in_world (persist_latest_result faults now j)) (subtract_reservation (fst a) rv, snd a))) m"
proof (rule others.safe_then [where P = "\<lambda>a' u m. a' = charge l task rv a \<and>
      covering l sel (subtract_reservation (add_reservation (fst a) rv) rv, snd (charge l task rv a)) m"])
  let ?a = "charge l task rv a" and ?i = "tr_task_id task"
  show "safe_cycle l sel (\<lambda>a' u m. a' = ?a \<and>
        covering l sel (subtract_reservation (add_reservation (fst a) rv) rv, snd (charge l task rv a)) m)
      (on_dispatcher (in_world (on_repo (complete_task ?i u clk))) ?a) m"
  proof (rule safe_call [where ?P0.0 = "charged_for l sel task rv a"])
    fix m m' b
    assume m: "charged_for l sel task rv a m"
    show "covering l sel (subtract_reservation (add_reservation (fst a) rv) rv, snd (charge l task rv a)) m'"
      if "complete_task ?i u clk (mc_repo m) = (mc_repo m', Inr b)"
      by (rule complete_uncharges [OF m that refl])
    show "kept_within l sel m'" if repo: "mc_repo m' = fst (complete_task ?i u clk (mc_repo m))"
    proof -
      have "covering l sel ?a m" using m by (simp add: charged_for_def)
      moreover have "gives_back sel m m'" by (rule own_gives_back [of "OpComplete ?i u" _ clk]) (simp_all add: repo)
      ultimately show ?thesis using accounted_stable accounted_within by blast
    qed
  qed (use assms accounted_stable charged_for_stable in blast)+
next
  fix a' m
  assume "a' = charge l task rv a \<and> covering l sel (subtract_reservation (add_reservation (fst a) rv) rv, snd (charge l task rv a)) m"
  then show "safe_cycle l sel (accounts_cover l sel)
      (on_dispatcher (in_world (persist_latest_result faults now j)) (subtract_reservation (fst a') rv, snd a')) m"
    by (auto simp: charge_def intro!: safe_post [OF safe_persist])
qed

lemma safe_launch:
  assumes "covering l sel a m" "queue_known sel [task] m" "fits_accounts l task a rv"
  shows "safe_cycle l sel (accounts_cover l sel) (launch_program settings l host task rv a) m"
  unfolding launch_program_def Let_def charge_def [symmetric]
proof (rule others.safe_then [OF safe_reserve [OF assms]])
  fix a1 u m1
  assume a1: "a1 = a \<and> charged_for l sel task rv a m1"
  then have charged: "charged_for l sel task rv a1 m1" by simp
  then have acc: "covering l sel (charge l task rv a1) m1" by (simp add: charged_for_def)
  let ?a = "charge l task rv a1"
  show "safe_cycle l sel (accounts_cover l sel) (case dh_exe host of
      Inl err \<Rightarrow> Return (?a, Inl (LaunchFailed (''resolve current exe: '' @ err)))
    | Inr exe \<Rightarrow> (case dh_spawn host of
        Inr pid \<Rightarrow>
          act_then (on_dispatcher (\<lambda>d. (d\<lparr>dp_spawned := dp_spawned d @
            [(tr_task_id task, pid, exe # shim_args settings (tr_task_id task))]\<rparr>, Inr ())) ?a) (\<lambda>_ a.
          on_dispatcher (in_world (on_repo (mark_dispatched (tr_task_id task) pid (dh_dispatched_clock host)))) a)
      | Inl err \<Rightarrow>
          act_then (on_dispatcher (in_world (on_repo (complete_task (tr_task_id task)
              (spawn_failed_update (dh_failed_at host) err) (dh_complete_clock host)))) ?a) (\<lambda>_ a.
          on_dispatcher (in_world (persist_latest_result (dh_faults host) (dh_now host) (tr_task_id task)))
            (subtract_reservation (fst a) rv, snd a)))) m1"
  proof (cases "dh_exe host")
    case (Inr exe)
    then show ?thesis
      using safe_spawned [OF acc] safe_unspawned [OF charged]
      by (cases "dh_spawn host") (simp_all only: sum.case)
  qed simp
qed

lemma safe_return: "covering l sel a m \<Longrightarrow> safe_cycle l sel (accounts_cover l sel) (Return (a, r)) m"
  by (auto intro: accounted_stable)

lemma safe_task:
  assumes "covering l sel a m" "queue_known sel [task] m"
  shows "safe_cycle l sel (accounts_cover l sel) (dispatch_task_program settings l host task a) m"
proof (cases "tr_kill_requested task")
  case True
  have "safe_cycle l sel (accounts_cover l sel) (act_then (on_dispatcher (in_world (on_repo
          (cancel_accepted_task (tr_task_id task) killed_before_execution (dh_cancel_clock host)))) a) (\<lambda>_ a.
        on_dispatcher (in_world (persist_latest_result (dh_faults host) (dh_now host) (tr_task_id task))) a)) m"
  proof (rule others.safe_then [OF safe_quiet [where
        c = "OpCancelAccepted (tr_task_id task) killed_before_execution" and clk = "dh_cancel_clock host"]])
    fix a' and u :: unit and m
    assume "a' = a \<and> covering l sel a m"
    then show "safe_cycle l sel (accounts_cover l sel)
        (on_dispatcher (in_world (persist_latest_result (dh_faults host) (dh_now host) (tr_task_id task))) a') m"
      by (auto intro!: safe_post [OF safe_persist])
  qed (use assms in simp_all)
  with True show ?thesis by (simp add: dispatch_task_program_def Let_def)
next
  case False
  then show ?thesis
    using safe_return [OF assms(1)] safe_launch [OF assms]
    by (simp add: dispatch_task_program_def Let_def fits_accounts_def)
qed

text \<open>The rest of the list stays known while one task is dispatched.\<close>

lemma dispatcher_op_keeps_queue:
  assumes "queue_known sel tasks m" "by_ops dispatcher_op m m'"
  shows "queue_known sel tasks m'"
proof -
  have "keeps_context i (mc_repo m) (mc_repo m')" for i
  proof (rule by_ops_keeps_context [OF assms(2)])
    show "dispatcher_op c \<Longrightarrow> \<not> is_delete c" for c by (cases c) simp_all
  qed
  with assms(1) show ?thesis by (auto simp: queue_known_def intro: queued_keeps)
qed

lemma safe_tasks:
  "covering l sel a m \<Longrightarrow> queue_known sel tasks m \<Longrightarrow>
   safe_cycle l sel (accounts_cover l sel) (dispatch_tasks_program settings l hosts tasks a) m"
proof (induction tasks arbitrary: a m)
  case Nil
  then show ?case using safe_return [of l sel a m "Inr ()"] by simp
next
  case (Cons task tasks)
  then have known: "queue_known sel [task] m" "queue_known sel tasks m" using queue_known_Cons by blast+
  have "safe_cycle l sel (\<lambda>a u m. covering l sel a m \<and> queue_known sel tasks m)
      (dispatch_task_program settings l (hosts (tr_task_id task)) task a) m"
    by (rule safe_post [OF others.safe_invariant [where I = "queue_known sel tasks", OF safe_task [OF Cons.prems(1) known(1)] acts_dispatch_task known(2)]])
      (auto intro: queue_known_stable dispatcher_op_keeps_queue)
  then show ?case
    unfolding dispatch_tasks_program.simps
    by (rule others.safe_then) (use Cons.IH in blast)
qed

text \<open>A cycle may begin in any state within the capacity.\<close>

lemma within_sub: "mset rs' \<subseteq># mset rs \<Longrightarrow> within l sel rs \<Longrightarrow> within l sel rs'"
  using totals_mset [of rs' rs]
  by (auto simp: within_def fits_capacity_def intro: below_limit_mono order_trans split: option.splits)

lemma kept_within_stable: "kept_within l sel m \<Longrightarrow> gives_back sel m m' \<Longrightarrow> kept_within l sel m'"
proof -
  assume m: "kept_within l sel m" and "gives_back sel m m'"
  then have ok: "repo_ok (mc_repo m')" and "held_by sel UNIV (mc_repo m') \<subseteq># held_by sel UNIV (mc_repo m)"
    by (auto simp: kept_within_def gives_back_def intro: held_by_mono)
  then have "mset (active_reservations sel (mc_repo m')) \<subseteq># mset (active_reservations sel (mc_repo m))"
    using m by (simp add: mset_active_reservations active_held kept_within_def)
  from within_sub [OF this] m ok show ?thesis by (simp add: kept_within_def)
qed

lemma start_accounted:
  assumes "kept_within l sel m" "limits_proper l sel" "list_active_reservations (mc_repo m) = Inr tasks"
  shows "covering l sel (reserved_capacity l (List.map_filter tr_reservation tasks), tenant_account l [] tasks) m"
proof -
  have "covered l sel \<lparr>dp_world = mc_world m,
      dp_reserved = reserved_capacity l (List.map_filter tr_reservation tasks),
      dp_tenants = tenant_account l [] tasks, dp_spawned = []\<rparr>"
    by (rule covered_start [OF _ _ _ assms(3) refl]) (use assms(1,2) in \<open>simp_all add: kept_within_def\<close>)
  then show ?thesis
    using active_held [of "mc_repo m" sel] by (cases sel) (simp_all add: covered_def account_def account_of_def accounted_def)
qed

lemma listed_known: "accounted l sel A acct m \<Longrightarrow> list_accepted n (mc_repo m) = Inr tasks \<Longrightarrow> queue_known sel tasks m"
  by (auto simp: queue_known_def accounted_def intro: queued_listed)

lemma safe_dispatch:
  assumes "kept_within l sel m" "limits_proper l sel"
  shows "safe_cycle l sel (accounts_cover l sel) (dispatch_program settings l hosts) m"
  unfolding dispatch_program_def
proof (rule others.safe_then [where P = "\<lambda>a active.
      covering l sel (reserved_capacity l (List.map_filter tr_reservation active), tenant_account l [] active)"])
  show "safe_cycle l sel (\<lambda>a active.
        covering l sel (reserved_capacity l (List.map_filter tr_reservation active), tenant_account l [] active))
    (on_dispatcher (\<lambda>d. (d, list_active_reservations (dp_repo d))) (reserved_capacity l [], [])) m"
    unfolding on_dispatcher_def
    by (rule others.safe_focus [where ?P0.0 = "kept_within l sel"], rule assms, erule (1) kept_within_stable)
      (simp_all add: dispatching.put_get start_accounted assms(2) accounted_stable)
next
  fix a and active :: "TaskRecord list" and m
  let ?a = "(reserved_capacity l (List.map_filter tr_reservation active), tenant_account l [] active)"
  assume start: "covering l sel ?a m"
  have "safe_cycle l sel (\<lambda>a tasks m. covering l sel a m \<and> queue_known sel tasks m)
      (on_dispatcher (\<lambda>d. (d, list_accepted (se_max_queued_tasks settings) (dp_repo d))) ?a) m"
    unfolding on_dispatcher_def
    by (rule others.safe_focus [where ?P0.0 = "covering l sel ?a"], rule start, erule (1) accounted_stable)
      (simp add: dispatching.put_get accounted_within, simp add: dispatching.put_get dispatching.own_get listed_known,
        blast intro: accounted_stable queue_known_stable)
  then show "safe_cycle l sel (accounts_cover l sel)
      (act_then (on_dispatcher (\<lambda>d. (d, list_accepted (se_max_queued_tasks settings) (dp_repo d))) ?a)
        (\<lambda>tasks a. dispatch_tasks_program settings l hosts tasks a)) m"
    by (rule others.safe_then) (use safe_tasks in blast)
qed

end
