(* ===== verification/Running_System.thy ===== *)
theory Running_System
  imports Accounts
begin

section \<open>Running system: the server, its loops and the shims, \<open>src/runtime.rs\<close> and \<open>src/main.rs\<close>\<close>

text \<open>
  The server is started on its data directory, recovers, and then serves requests while it dispatches
  and collects; it may stop at any moment and be started again, with other arguments. The shims are
  processes of their own and survive it. The events are the steps of these threads, in any order the
  operating system and the runtime library may choose; what the clock and the operating system
  answer comes with the event that starts a thread. One server runs at a time.
\<close>

subsection \<open>State\<close>

datatype thread_role = Request | Collector | Escalation | ShimOf string

text \<open>A finished thread stays in the list, with the reply of a request.\<close>

type_synonym thread = "thread_role \<times> (machine, http_reply option) act"

datatype phase =
    Down
  | Recovering runtime "(machine, unit \<times> unit app_result) act"
  | Serving runtime "(machine, accounts \<times> unit app_result) act option"

record system =
  sy_data_dir :: string
  sy_machine :: machine
  sy_phase :: phase
  sy_threads :: "thread list"

text \<open>What a start of the server is given.\<close>

record boot =
  bo_args :: ServeArgs
  bo_hostname :: "string option"
  bo_faults :: faults
  bo_open_db :: "unit app_result"
  bo_probe :: probe_host
  bo_started_at :: int
  bo_recover :: recover_host

type_synonym births = "string \<Rightarrow> shim_host \<times> supervision_event list"

datatype system_event =
    Boot boot
  | RecoveryStep
  | Crash
  | Arrival serve_host http_request
  | CycleBegins bool "string \<Rightarrow> dispatch_host"
  | CycleStep births
  | PassBegins "u64 \<Rightarrow> int option" "string \<Rightarrow> removal" int
  | ThreadStep nat

subsection \<open>Starting the server\<close>

definition run_server :: "boot \<Rightarrow> system \<Rightarrow> system" where
  "run_server b sy =
     (case from_args (bo_hostname b) (bo_args b) of
        Inl e \<Rightarrow> sy
      | Inr settings \<Rightarrow>
          (let m = sy_machine sy; sx = mc_service m
           in case new_runtime (bo_faults b) (bo_open_db b) (bo_probe b) (bo_started_at b) settings (wd_files (mc_world m)) of
                (fs, r) \<Rightarrow>
                  (let sy = sy\<lparr>sy_machine := put_service (sx\<lparr>sx_world := (sx_world sx)\<lparr>wd_files := fs\<rparr>, sx_notified := False\<rparr>) m\<rparr>
                   in case r of
                        Inl e \<Rightarrow> sy
                      | Inr rt \<Rightarrow> sy\<lparr>sy_phase := Recovering rt (recover_program (bo_recover b))\<rparr>)))"

text \<open>Recovery, then \<open>start_background_loops\<close> and \<open>axum::serve\<close>; an error of it ends the process.\<close>

definition recovery_step :: "runtime \<Rightarrow> (machine, unit \<times> unit app_result) act \<Rightarrow> system \<Rightarrow> system" where
  "recovery_step rt p sy =
     (case p of
        Atomic f \<Rightarrow> (case f (sy_machine sy) of (m, p) \<Rightarrow> sy\<lparr>sy_machine := m, sy_phase := Recovering rt p\<rparr>)
      | Return (_, Inl e) \<Rightarrow> sy\<lparr>sy_phase := Down\<rparr>
      | Return (_, Inr _) \<Rightarrow> sy\<lparr>sy_phase := Serving rt None\<rparr>)"

definition is_shim :: "thread \<Rightarrow> bool" where
  "is_shim t = (case fst t of ShimOf _ \<Rightarrow> True | _ \<Rightarrow> False)"

definition crash :: "system \<Rightarrow> system" where
  "crash sy = sy\<lparr>sy_phase := Down, sy_threads := filter is_shim (sy_threads sy)\<rparr>"

subsection \<open>Requests and loops\<close>

definition request_thread :: "runtime \<Rightarrow> serve_host \<Rightarrow> http_request \<Rightarrow> thread" where
  "request_thread rt host request =
     (Request, act_bind (serve_program rt host request) (\<lambda>(_, reply). Return (Some reply)))"

text \<open>What clap makes of the arguments of \<open>shim_args\<close>.\<close>

definition shim_process_args :: "Settings \<Rightarrow> string \<Rightarrow> InternalShimArgs" where
  "shim_process_args settings i =
     \<lparr>ia_database = se_database_path settings, ia_data_dir = se_data_dir settings, ia_task_id = i,
      ia_termination_grace_ms = se_termination_grace_ms settings, ia_cgroup_root = se_cgroup_root settings\<rparr>"

text \<open>The processes and tasks a step started: a shim for each spawn, a task for each escalation.\<close>

definition new_shims :: "runtime \<Rightarrow> births \<Rightarrow> machine \<Rightarrow> machine \<Rightarrow> thread list" where
  "new_shims rt births m m' =
     map (\<lambda>(i, pid, argv). (ShimOf i,
           act_bind (shim_program (fst (births i)) (shim_process_args (rt_settings rt) i) (snd (births i))) (\<lambda>_. Return None)))
       (drop (length (mc_spawned m)) (mc_spawned m'))"

definition new_escalations :: "machine \<Rightarrow> machine \<Rightarrow> thread list" where
  "new_escalations m m' =
     map (\<lambda>esc. (Escalation, act_bind (escalation_program esc) (\<lambda>_. Return None)))
       (drop (length (sx_escalations (mc_service m))) (sx_escalations (mc_service m')))"

text \<open>
  \<open>dispatcher_loop\<close>: a cycle ends with its result, an error of which is only logged; the next begins
  when the dispatcher was notified or the interval of polling has passed.
\<close>

definition dispatcher_loop :: "births \<Rightarrow> runtime \<Rightarrow> (machine, accounts \<times> unit app_result) act \<Rightarrow> system \<Rightarrow> system" where
  "dispatcher_loop births rt p sy =
     (case p of
        Atomic f \<Rightarrow>
          (let m = sy_machine sy
           in case f m of
                (m', p) \<Rightarrow>
                  sy\<lparr>sy_machine := m', sy_phase := Serving rt (Some p),
                     sy_threads := sy_threads sy @ new_shims rt births m m'\<rparr>)
      | Return _ \<Rightarrow> sy\<lparr>sy_phase := Serving rt None\<rparr>)"

definition begin_cycle :: "bool \<Rightarrow> (string \<Rightarrow> dispatch_host) \<Rightarrow> runtime \<Rightarrow> system \<Rightarrow> system option" where
  "begin_cycle woken hosts rt sy =
     (let sx = mc_service (sy_machine sy)
      in if woken \<and> \<not> sx_notified sx then None
         else Some (sy\<lparr>sy_machine := put_service (if woken then sx\<lparr>sx_notified := False\<rparr> else sx) (sy_machine sy),
                       sy_phase := Serving rt (Some (dispatch_program (rt_settings rt) (rt_ledger rt) hosts))\<rparr>))"

text \<open>\<open>gc_loop\<close>: one pass after another.\<close>

definition collecting :: "thread \<Rightarrow> bool" where
  "collecting t = (fst t = Collector \<and> (case snd t of Atomic _ \<Rightarrow> True | Return _ \<Rightarrow> False))"

definition gc_loop :: "(u64 \<Rightarrow> int option) \<Rightarrow> (string \<Rightarrow> removal) \<Rightarrow> int \<Rightarrow> runtime \<Rightarrow> system \<Rightarrow> system option" where
  "gc_loop from_std remove now rt sy =
     (if list_ex collecting (sy_threads sy) then None
      else Some (sy\<lparr>sy_threads := sy_threads sy @
             [(Collector, act_bind (gc_program from_std remove (rt_settings rt) now) (\<lambda>_. Return None))]\<rparr>))"

definition thread_step :: "nat \<Rightarrow> system \<Rightarrow> system option" where
  "thread_step n sy =
     (if n < length (sy_threads sy)
      then (case sy_threads sy ! n of
              (role, Atomic f) \<Rightarrow>
                (let m = sy_machine sy
                 in case f m of
                      (m', p) \<Rightarrow>
                        Some (sy\<lparr>sy_machine := m',
                                 sy_threads := (sy_threads sy)[n := (role, p)] @ new_escalations m m'\<rparr>))
            | (role, Return _) \<Rightarrow> None)
      else None)"

subsection \<open>The system\<close>

fun sys_step :: "system_event \<Rightarrow> system \<Rightarrow> system option" where
  "sys_step (Boot b) sy =
     (case sy_phase sy of
        Down \<Rightarrow> if sa_data_dir (bo_args b) = sy_data_dir sy then Some (run_server b sy) else None
      | _ \<Rightarrow> None)"
| "sys_step RecoveryStep sy = (case sy_phase sy of Recovering rt p \<Rightarrow> Some (recovery_step rt p sy) | _ \<Rightarrow> None)"
| "sys_step Crash sy = (case sy_phase sy of Down \<Rightarrow> None | _ \<Rightarrow> Some (crash sy))"
| "sys_step (Arrival host request) sy =
     (case sy_phase sy of
        Serving rt _ \<Rightarrow> Some (sy\<lparr>sy_threads := sy_threads sy @ [request_thread rt host request]\<rparr>)
      | _ \<Rightarrow> None)"
| "sys_step (CycleBegins woken hosts) sy =
     (case sy_phase sy of Serving rt None \<Rightarrow> begin_cycle woken hosts rt sy | _ \<Rightarrow> None)"
| "sys_step (CycleStep births) sy =
     (case sy_phase sy of Serving rt (Some p) \<Rightarrow> Some (dispatcher_loop births rt p sy) | _ \<Rightarrow> None)"
| "sys_step (PassBegins from_std remove now) sy =
     (case sy_phase sy of Serving rt _ \<Rightarrow> gc_loop from_std remove now rt sy | _ \<Rightarrow> None)"
| "sys_step (ThreadStep n) sy = thread_step n sy"

fun sys_run :: "system_event list \<Rightarrow> system \<Rightarrow> system option" where
  "sys_run [] sy = Some sy"
| "sys_run (e # es) sy = Option.bind (sys_step e sy) (sys_run es)"

text \<open>Before the server was first started on a directory.\<close>

definition installed :: "string \<Rightarrow> system" where
  "installed data_dir =
     \<lparr>sy_data_dir = data_dir,
      sy_machine =
        \<lparr>mc_service = \<lparr>sx_world = \<lparr>wd_repo = empty_repo, wd_files = no_files\<rparr>, sx_signals = [], sx_escalations = [],
           sx_notified = False\<rparr>,
         mc_spawned = [], mc_cgroup = [], mc_started = [], mc_sent = []\<rparr>,
      sy_phase = Down, sy_threads = []\<rparr>"

inductive reachable :: "system \<Rightarrow> bool" where
  installed: "reachable (installed data_dir)"
| step: "reachable sy \<Longrightarrow> sys_step e sy = Some sy' \<Longrightarrow> reachable sy'"

inductive_cases reachableE: "reachable sy"

end
