(* ===== verification/System_Safety.thy ===== *)
theory System_Safety
  imports Running_System
begin

section \<open>System safety: what holds of the running system in every interleaving\<close>

subsection \<open>Every thread keeps to its role\<close>

fun role_op :: "thread_role \<Rightarrow> repo_op \<Rightarrow> bool" where
  "role_op Request = request_op"
| "role_op Collector = is_delete"
| "role_op Escalation = (\<lambda>_. False)"
| "role_op (ShimOf i) = shim_op i"

definition keeps_role :: "thread \<Rightarrow> bool" where
  "keeps_role t = acts (by_ops (role_op (fst t))) (snd t)"

definition roles_kept :: "system \<Rightarrow> bool" where
  "roles_kept sy =
     (list_all keeps_role (sy_threads sy) \<and>
      (case sy_phase sy of
         Down \<Rightarrow> True
       | Recovering rt p \<Rightarrow> acts (by_ops recovery_op) p
       | Serving rt None \<Rightarrow> True
       | Serving rt (Some p) \<Rightarrow> acts (by_ops dispatcher_op) p))"

text \<open>The operations an event may issue.\<close>

definition step_op :: "system_event \<Rightarrow> system \<Rightarrow> repo_op \<Rightarrow> bool" where
  "step_op e sy =
     (case e of
        RecoveryStep \<Rightarrow> recovery_op
      | CycleStep _ \<Rightarrow> dispatcher_op
      | ThreadStep n \<Rightarrow> role_op (fst (sy_threads sy ! n))
      | _ \<Rightarrow> (\<lambda>_. False))"

lemma new_threads_keep_roles:
  "keeps_role (request_thread rt host request)" "list_all keeps_role (new_shims rt births m m')"
  "list_all keeps_role (new_escalations m m')"
  "keeps_role (Collector, act_bind (gc_program from_std remove settings now) (\<lambda>_. Return None))"
  using acts_shim [of "shim_process_args (rt_settings rt) i" for i]
  by (auto simp: keeps_role_def request_thread_def new_shims_def new_escalations_def list_all_iff shim_process_args_def
      intro!: acts_bind acts_serve acts_escalation acts_gc)

lemma roles_kept_threads: "roles_kept sy \<Longrightarrow> n < length (sy_threads sy) \<Longrightarrow> keeps_role (sy_threads sy ! n)"
  by (simp add: roles_kept_def list_all_length)

lemma list_all_update: "list_all P xs \<Longrightarrow> P x \<Longrightarrow> list_all P (xs[n := x])"
  by (auto simp: list_all_iff dest!: set_update_subset_insert [THEN subsetD])

lemma step_keeps_roles:
  assumes "roles_kept sy" "sys_step e sy = Some sy'"
  shows "roles_kept sy' \<and> by_ops (step_op e sy) (sy_machine sy) (sy_machine sy')"
proof (cases e)
  case (Boot b)
  with assms have "sy' = run_server b sy" "sy_phase sy = Down" by (auto split: phase.splits if_splits)
  with assms(1) show ?thesis
    by (auto simp: run_server_def Let_def roles_kept_def acts_recover intro!: by_ops_same split: sum.split prod.split)
next
  case RecoveryStep
  with assms obtain rt p where p: "sy_phase sy = Recovering rt p" "sy' = recovery_step rt p sy" by (auto split: phase.splits)
  with assms(1) have "acts (by_ops recovery_op) p" by (simp add: roles_kept_def)
  with assms(1) show ?thesis
    by (cases p) (auto simp: RecoveryStep p recovery_step_def roles_kept_def step_op_def case_prod_beta by_ops_same
        split: sum.split)
next
  case Crash
  with assms have "sy' = crash sy" by (auto split: phase.splits)
  with assms(1) show ?thesis by (auto simp: crash_def roles_kept_def list_all_iff intro!: by_ops_same)
next
  case (Arrival host request)
  with assms obtain rt d where "sy_phase sy = Serving rt d"
      "sy' = sy\<lparr>sy_threads := sy_threads sy @ [request_thread rt host request]\<rparr>"
    by (auto split: phase.splits)
  with assms(1) show ?thesis by (simp add: roles_kept_def new_threads_keep_roles by_ops_same)
next
  case (CycleBegins woken hosts)
  with assms obtain rt where "sy_phase sy = Serving rt None" "begin_cycle woken hosts rt sy = Some sy'"
    by (auto split: phase.splits option.splits)
  with assms(1) show ?thesis
    by (auto simp: begin_cycle_def Let_def roles_kept_def acts_dispatch intro!: by_ops_same split: if_splits)
next
  case (CycleStep births)
  with assms obtain rt p where p: "sy_phase sy = Serving rt (Some p)" "sy' = dispatcher_loop births rt p sy"
    by (auto split: phase.splits option.splits)
  with assms(1) have "acts (by_ops dispatcher_op) p" by (simp add: roles_kept_def)
  with assms(1) show ?thesis
    by (cases p) (auto simp: CycleStep p dispatcher_loop_def Let_def roles_kept_def step_op_def case_prod_beta by_ops_same
        new_threads_keep_roles)
next
  case (PassBegins from_std remove now)
  with assms obtain rt d where "sy_phase sy = Serving rt d" "gc_loop from_std remove now rt sy = Some sy'"
    by (auto split: phase.splits)
  with assms(1) show ?thesis
    by (auto simp: gc_loop_def roles_kept_def new_threads_keep_roles by_ops_same split: if_splits)
next
  case (ThreadStep n)
  with assms(2) have n: "n < length (sy_threads sy)" "thread_step n sy = Some sy'"
    by (auto simp: thread_step_def split: if_splits)
  obtain role p where t: "sy_threads sy ! n = (role, p)" by (cases "sy_threads sy ! n")
  obtain f where f: "p = Atomic f" using n t by (cases p) (auto simp: thread_step_def)
  have "acts (by_ops (role_op role)) (Atomic f)"
    using roles_kept_threads [OF assms(1) n(1)] by (simp add: t f keeps_role_def)
  with assms(1) n show ?thesis
    by (auto simp: ThreadStep thread_step_def t f Let_def roles_kept_def step_op_def case_prod_beta
        new_threads_keep_roles keeps_role_def intro!: list_all_update)
qed

lemma installed_roles: "roles_kept (installed data_dir)"
  by (simp add: roles_kept_def installed_def)

lemma reachable_roles: "reachable sy \<Longrightarrow> roles_kept sy"
  by (induction rule: reachable.induct) (use installed_roles step_keeps_roles in blast)+

lemma reachable_history: "reachable sy \<Longrightarrow> \<exists>ops. mc_repo (sy_machine sy) = run_history ops"
proof (induction rule: reachable.induct)
  case (installed data_dir)
  show ?case by (rule exI [of _ "[]"]) (simp add: installed_def run_history_def)
next
  case (step sy e sy')
  then obtain past where past: "mc_repo (sy_machine sy) = run_history past" by blast
  have "by_ops (step_op e sy) (sy_machine sy) (sy_machine sy')"
    using step_keeps_roles [OF reachable_roles] step by blast
  then obtain ops where "mc_repo (sy_machine sy') = fold run_op ops (run_history past)"
    by (auto simp: by_ops_def past)
  then show ?case by (metis run_history_append)
qed

text \<open>
  C2: Everything that is proved of the histories of the database holds of the running system: in
  every state that is reached by any interleaving of requests, dispatch, collection, recoveries,
  shims, crashes and restarts, the database is that of a history, and each step continues it with
  operations of the thread that takes the step only: a request inserts and cancels, the collector
  deletes, a shim starts, times out or ends its own task and no other, and resources are reserved by
  the dispatcher and by recovery alone.
\<close>

theorem running_system_is_a_history:
  assumes "reachable sy" "sys_step e sy = Some sy'"
  shows "\<exists>past ops. mc_repo (sy_machine sy) = run_history past \<and>
    mc_repo (sy_machine sy') = run_history (past @ ops) \<and> list_all (\<lambda>c. step_op e sy (fst c)) ops"
proof -
  obtain past where past: "mc_repo (sy_machine sy) = run_history past"
    using reachable_history [OF assms(1)] by blast
  have "by_ops (step_op e sy) (sy_machine sy) (sy_machine sy')"
    using step_keeps_roles [OF reachable_roles [OF assms(1)] assms(2)] by blast
  then show ?thesis by (auto simp: by_ops_def past run_history_append)
qed

subsection \<open>Capacity in every interleaving\<close>

text \<open>The others give back: no thread but the dispatcher reserves while the server serves.\<close>

lemma role_gives_back: "role_op role c \<Longrightarrow> \<not> reserves c"
  by (cases role; cases c) simp_all

lemma role_op_gives_back:
  assumes "by_ops (role_op role) m m'" "sel = None \<or> all_kept m m'"
  shows "gives_back sel m m'"
proof (rule by_ops_gives_back [OF assms(1)])
  show "\<not> reserves c" if "role_op role c" for c by (rule role_gives_back [OF that])
  have "keeps_context i (mc_repo m) (mc_repo m')" if "all_kept m m'" for i
  proof (cases "role = Collector")
    case True
    then show ?thesis using assms(1) that by (auto intro: deletes_keep_context)
  next
    case False
    then have "role_op role c \<Longrightarrow> \<not> is_delete c" for c by (cases role; cases c) simp_all
    with assms(1) show ?thesis by (rule by_ops_keeps_context)
  qed
  with assms(2) show "sel = None \<or> (\<forall>i. keeps_context i (mc_repo m) (mc_repo m'))" by blast
qed

definition serves_within :: "runtime \<Rightarrow> string option \<Rightarrow> system \<Rightarrow> bool" where
  "serves_within rt sel sy =
     (roles_kept sy \<and> kept_within (rt_ledger rt) sel (sy_machine sy) \<and>
      (case sy_phase sy of
         Serving rt' d \<Rightarrow> rt' = rt \<and>
           (case d of None \<Rightarrow> True
            | Some p \<Rightarrow> safe_cycle (rt_ledger rt) sel (accounts_cover (rt_ledger rt) sel) p (sy_machine sy))
       | _ \<Rightarrow> False))"

lemma serves_within_others:
  assumes "serves_within rt sel sy" "roles_kept sy'" "sy_phase sy' = sy_phase sy"
    and "gives_back sel (sy_machine sy) (sy_machine sy')"
  shows "serves_within rt sel sy'"
  using assms kept_within_stable [OF _ assms(4)] others.safe_stable [OF _ assms(4)]
  by (auto simp: serves_within_def split: phase.splits option.splits)

definition uninterrupted :: "system_event \<Rightarrow> bool" where
  "uninterrupted e = (case e of Crash \<Rightarrow> False | _ \<Rightarrow> True)"

lemma step_serves_within:
  assumes "serves_within rt sel sy" "limits_proper (rt_ledger rt) sel" "sys_step e sy = Some sy'" "uninterrupted e"
    and "sel = None \<or> all_kept (sy_machine sy) (sy_machine sy')"
  shows "serves_within rt sel sy'"
proof -
  have roles: "roles_kept sy'" and ops: "by_ops (step_op e sy) (sy_machine sy) (sy_machine sy')"
    using step_keeps_roles [OF _ assms(3)] assms(1) by (auto simp: serves_within_def)
  obtain d where phase: "sy_phase sy = Serving rt d"
    using assms(1) by (auto simp: serves_within_def split: phase.splits)
  have kept: "kept_within (rt_ledger rt) sel (sy_machine sy)" using assms(1) by (simp add: serves_within_def)
  have same: "gives_back sel m m'" if "mc_repo m' = mc_repo m" for m m'
    by (simp add: gives_back_def that keeps_context_refl)
  note other = serves_within_others [OF assms(1) roles]
  show ?thesis
  proof (cases e)
    case (ThreadStep n)
    then have "gives_back sel (sy_machine sy) (sy_machine sy')"
      using role_op_gives_back [of _ "sy_machine sy" "sy_machine sy'" sel] ops assms(5) by (simp add: step_op_def)
    moreover have "sy_phase sy' = sy_phase sy"
      using assms(3) by (auto simp: ThreadStep thread_step_def Let_def split: if_splits prod.splits act.splits)
    ultimately show ?thesis by (intro other)
  next
    case (CycleBegins woken hosts)
    then have d: "d = None" and sy': "begin_cycle woken hosts rt sy = Some sy'"
      using assms(3) by (auto simp: phase split: option.splits)
    then have "kept_within (rt_ledger rt) sel (sy_machine sy')"
      using kept by (auto simp: begin_cycle_def Let_def intro: same_repo_kept split: if_splits)
    with sy' roles show ?thesis
      by (auto simp: begin_cycle_def Let_def serves_within_def safe_dispatch [OF _ assms(2), simplified]
        split: if_splits)
  next
    case (CycleStep births)
    then obtain p where d: "d = Some p" and sy': "sy' = dispatcher_loop births rt p sy"
      using assms(3) by (auto simp: phase split: option.splits)
    have safe: "safe_cycle (rt_ledger rt) sel (accounts_cover (rt_ledger rt) sel) p (sy_machine sy)"
      using assms(1) by (simp add: serves_within_def phase d)
    show ?thesis
    proof (cases p)
      case (Return r)
      with roles kept sy' show ?thesis by (simp add: dispatcher_loop_def serves_within_def)
    next
      case (Atomic f)
      from others.safe_step [OF safe [unfolded Atomic]] roles sy' show ?thesis
        by (simp add: Atomic dispatcher_loop_def Let_def serves_within_def case_prod_beta)
    qed
  next
    case (Arrival host request)
    with assms(3) show ?thesis by (intro other) (auto simp: phase intro: same)
  next
    case (PassBegins from_std remove now)
    with assms(3) show ?thesis by (intro other) (auto simp: phase gc_loop_def intro: same split: if_splits)
  qed (use assms(3,4) phase in \<open>auto simp: uninterrupted_def\<close>)
qed

text \<open>No task is deleted during a run.\<close>

fun none_deleted :: "system_event list \<Rightarrow> system \<Rightarrow> bool" where
  "none_deleted [] sy = True"
| "none_deleted (e # es) sy =
     (case sys_step e sy of
        None \<Rightarrow> True
      | Some sy' \<Rightarrow> all_kept (sy_machine sy) (sy_machine sy') \<and> none_deleted es sy')"

lemma run_serves_within:
  "serves_within rt sel sy \<Longrightarrow> limits_proper (rt_ledger rt) sel \<Longrightarrow> sys_run es sy = Some sy' \<Longrightarrow>
   list_all uninterrupted es \<Longrightarrow> sel = None \<or> none_deleted es sy \<Longrightarrow> serves_within rt sel sy'"
proof (induction es arbitrary: sy)
  case (Cons e es)
  then obtain sy1 where step: "sys_step e sy = Some sy1" "sys_run es sy1 = Some sy'"
    by (auto simp: bind_eq_Some_conv)
  with Cons.prems have kept: "sel = None \<or> all_kept (sy_machine sy) (sy_machine sy1)" "sel = None \<or> none_deleted es sy1"
    by auto
  have "serves_within rt sel sy1"
    by (rule step_serves_within [OF Cons.prems(1,2) step(1) _ kept(1)]) (use Cons.prems(4) in simp)
  then show ?case by (rule Cons.IH) (use Cons.prems step(2) kept(2) in simp_all)
qed simp

text \<open>
  C3: The runtime is never over-committed while it serves, and neither is the quota of any tenant: from
  a start within the limits, however the requests, the cycles of the dispatcher, the collector and the
  shims take turns, between any two of their transactions and on every outcome of each, the
  reservations of all tasks stay within the capacity of the runtime (\<open>sel\<close> is \<open>None\<close>) and those of a
  tenant within its quota, although the dispatcher decides on accounts and on a list of tasks it took
  at the start of its cycle; all sums as natural numbers, for limits below the largest 64-bit value.
  For the quota no task may be deleted meanwhile, since its identifier could be used again under
  another tenant while the dispatcher still has the old task in its list.
\<close>

theorem capacity_holds_while_serving:
  assumes "reachable sy" "sy_phase sy = Serving rt None" "limits_proper (rt_ledger rt) sel"
    and "within (rt_ledger rt) sel (active_reservations sel (mc_repo (sy_machine sy)))"
    and "sys_run es sy = Some sy'" "list_all uninterrupted es" "sel = None \<or> none_deleted es sy"
  shows "within (rt_ledger rt) sel (active_reservations sel (mc_repo (sy_machine sy')))"
proof -
  have "repo_ok (mc_repo (sy_machine sy))"
    using reachable_history [OF assms(1)] run_history_ok by auto
  then have "serves_within rt sel sy"
    using reachable_roles [OF assms(1)] assms(2,4) by (simp add: serves_within_def kept_within_def)
  from run_serves_within [OF this assms(3,5,6,7)] show ?thesis
    by (simp add: serves_within_def kept_within_def)
qed

end
