(* ===== verification/Single_Start.thy ===== *)
theory Single_Start
  imports System_Safety
begin

section \<open>Single start: the dispatcher starts a task at most once\<close>

text \<open>
  The queue is read at the start of a cycle; by the time a task is reached it may have been killed,
  and the shim of a task may run before the dispatcher has marked it. Still no task is started twice
  while the server serves: a started task has left the queue for good before the next queue is read.
\<close>

subsection \<open>What a task leaves behind\<close>

definition starts :: "string \<Rightarrow> machine \<Rightarrow> nat" where
  "starts i m = length (filter (\<lambda>(j, _). j = i) (mc_spawned m))"

definition stored :: "string \<Rightarrow> repo \<Rightarrow> bool" where
  "stored i s = (view i s \<noteq> None)"

definition left_queue :: "string \<Rightarrow> repo \<Rightarrow> bool" where
  "left_queue i s = is_some_and (view i s) (\<lambda>v. vw_status v \<noteq> Accepted)"

text \<open>Operations after which a stored task is stored, and never waits again.\<close>

fun advances :: "repo_op \<Rightarrow> bool" where
  "advances (OpDelete _) = False"
| "advances (OpComplete _ u) = is_terminal (cu_status u)"
| "advances _ = True"

lemma task_step_advances:
  assumes "advances c"
  shows "v \<noteq> None \<Longrightarrow> task_step i (c, clk) v \<noteq> None"
    and "is_some_and v (\<lambda>v. vw_status v \<noteq> Accepted) \<Longrightarrow>
      is_some_and (task_step i (c, clk) v) (\<lambda>v. vw_status v \<noteq> Accepted)"
  using assms by (cases c; cases v; auto simp: task_step_def is_terminal_def)+

text \<open>What others, and the dispatcher on other tasks, leave of a task.\<close>

definition keeps_place :: "string \<Rightarrow> machine \<Rightarrow> machine \<Rightarrow> bool" where
  "keeps_place i m m' =
     (starts i m' = starts i m \<and>
      (repo_ok (mc_repo m) \<longrightarrow>
         repo_ok (mc_repo m') \<and> (stored i (mc_repo m) \<longrightarrow> stored i (mc_repo m')) \<and>
         (left_queue i (mc_repo m) \<longrightarrow> left_queue i (mc_repo m'))))"

interpretation places: interference "keeps_place i" for i
  by unfold_locales (auto simp: keeps_place_def)

lemma run_op_keeps_place:
  "advances c \<Longrightarrow> mc_repo m' = run_op (c, clk) (mc_repo m) \<Longrightarrow> starts i m' = starts i m \<Longrightarrow> keeps_place i m m'"
  using task_step_advances [of c "view i (mc_repo m)" i clk]
  by (simp add: keeps_place_def run_op_keeps_ok stored_def left_queue_def view_run_op)

lemma issue_keeps_place:
  "issues advances g \<Longrightarrow> mc_repo m' = fst (g (mc_repo m)) \<Longrightarrow> starts i m' = starts i m \<Longrightarrow> keeps_place i m m'"
  unfolding issues_def using run_op_keeps_place by metis

lemma same_place: "mc_repo m' = mc_repo m \<Longrightarrow> starts i m' = starts i m \<Longrightarrow> keeps_place i m m'"
  by (simp add: keeps_place_def)

lemma fold_deletes:
  "list_all (\<lambda>c. is_delete (fst c)) ops \<Longrightarrow> fold (task_step i) ops v \<in> {None, v}"
proof (induction ops arbitrary: v)
  case (Cons c ops)
  obtain c' clk where c: "c = (c', clk)" by (cases c)
  with Cons.prems have "task_step i c v \<in> {None, v}"
    by (cases c'; cases v) (simp_all add: task_step_def)
  with Cons.IH [of v] Cons.IH [of None] Cons.prems show ?case by auto
qed simp

lemma deletes_keep_place:
  assumes "by_ops is_delete m m'" "stored i (mc_repo m) \<longrightarrow> stored i (mc_repo m')"
  shows "keeps_place i m m'"
proof -
  obtain ops where ops: "mc_repo m' = fold run_op ops (mc_repo m)" "list_all (\<lambda>c. is_delete (fst c)) ops"
    and same: "mc_spawned m' = mc_spawned m"
    using assms(1) by (auto simp: by_ops_def may_spawn_def)
  have "view i (mc_repo m') \<in> {None, view i (mc_repo m)}" if "repo_ok (mc_repo m)"
    using fold_deletes [OF ops(2), of i "view i (mc_repo m)"] task_automaton.abs_fold [OF that, of i ops]
    by (simp add: ops(1))
  then show ?thesis
    using assms repo_sys.fold_inv [of "mc_repo m" ops] same
    by (auto simp: keeps_place_def starts_def ops(1) stored_def left_queue_def is_some_and_def)
qed

lemma by_ops_keeps_place:
  assumes "by_ops K m m'" "\<And>c. K c \<Longrightarrow> advances c" "\<not> may_spawn K"
  shows "keeps_place i m m'"
proof -
  obtain ops where ops: "mc_repo m' = fold run_op ops (mc_repo m)" "list_all (\<lambda>c. K (fst c)) ops"
    and same: "mc_spawned m' = mc_spawned m"
    using assms(1,3) by (auto simp: by_ops_def)
  have "(stored i s \<longrightarrow> stored i (fold run_op ops s)) \<and> (left_queue i s \<longrightarrow> left_queue i (fold run_op ops s))"
    if "repo_ok s" for s
    using that ops(2)
  proof (induction ops arbitrary: s)
    case (Cons c ops)
    obtain c' clk where c: "c = (c', clk)" by (cases c)
    have ok: "repo_ok (run_op c s)" by (rule run_op_keeps_ok [OF Cons.prems(1)])
    have "advances c'" using Cons.prems(2) assms(2) by (simp add: c)
    note task_step_advances [OF this, of "view i s" i clk]
    then have "stored i s \<longrightarrow> stored i (run_op c s)" "left_queue i s \<longrightarrow> left_queue i (run_op c s)"
      by (simp_all add: c stored_def left_queue_def view_run_op [OF Cons.prems(1)] del: run_op.simps)
    with Cons.IH [OF ok] Cons.prems(2) show ?case by simp
  qed simp
  then show ?thesis
    using repo_sys.fold_inv [of "mc_repo m" ops] same by (auto simp: keeps_place_def starts_def ops(1))
qed

subsection \<open>A cycle\<close>

text \<open>At most \<open>N\<close> starts, and with the last one the task has left the queue.\<close>

definition settled :: "string \<Rightarrow> nat \<Rightarrow> machine \<Rightarrow> bool" where
  "settled i N m =
     (repo_ok (mc_repo m) \<and> (starts i m < N \<or> starts i m = N \<and> left_queue i (mc_repo m)))"

text \<open>A task that is still in the list of the dispatcher.\<close>

definition pending_start :: "string \<Rightarrow> nat \<Rightarrow> machine \<Rightarrow> bool" where
  "pending_start i N m = (repo_ok (mc_repo m) \<and> starts i m < N \<and> stored i (mc_repo m))"

text \<open>A task whose shim runs and that is not marked yet.\<close>

definition spawning :: "string \<Rightarrow> nat \<Rightarrow> machine \<Rightarrow> bool" where
  "spawning i N m = (repo_ok (mc_repo m) \<and> starts i m \<le> N \<and> stored i (mc_repo m))"

lemma place_stable:
  "settled i N m \<Longrightarrow> keeps_place i m m' \<Longrightarrow> settled i N m'"
  "pending_start i N m \<Longrightarrow> keeps_place i m m' \<Longrightarrow> pending_start i N m'"
  "spawning i N m \<Longrightarrow> keeps_place i m m' \<Longrightarrow> spawning i N m'"
  by (auto simp: settled_def pending_start_def spawning_def keeps_place_def)

lemma pending_settled: "pending_start i N m \<Longrightarrow> settled i N m"
  by (simp add: pending_start_def settled_def)

abbreviation safe_start ::
    "string \<Rightarrow> nat \<Rightarrow> (machine \<Rightarrow> bool) \<Rightarrow> (machine, 'a) act \<Rightarrow> machine \<Rightarrow> bool" where
  "safe_start i N P \<equiv> safe (keeps_place i) (\<lambda>_ m. starts i m \<le> N) (\<lambda>_. P)"

lemma safe_kept:
  assumes "acts (keeps_place i) p" "P m" "P \<in> {settled i N, pending_start i N, spawning i N}"
  shows "safe_start i N P p m"
proof (rule places.safe_acts [where P = P, OF assms(1,2)])
  show "P s \<Longrightarrow> keeps_place i s t \<Longrightarrow> P t" for s t using assms(3) place_stable by auto
  show "P t \<Longrightarrow> starts i t \<le> N" for t
    using assms(3) by (auto simp: settled_def pending_start_def spawning_def)
qed

lemma safe_settled: "acts (keeps_place i) p \<Longrightarrow> settled i N m \<Longrightarrow> safe_start i N (settled i N) p m"
  by (rule safe_kept [where P = "settled i N"]) simp_all

lemma safe_pending: "acts (keeps_place i) p \<Longrightarrow> pending_start i N m \<Longrightarrow> safe_start i N (pending_start i N) p m"
  by (rule safe_kept [where P = "pending_start i N"]) simp_all

lemma starts_put_dispatcher [simp]:
  "starts i (put_dispatcher d m) = length (filter (\<lambda>(j, _). j = i) (dp_spawned d))"
  by (simp add: starts_def)

lemma acts_place_dispatcher:
  "issues advances g \<Longrightarrow> acts (keeps_place i) (on_dispatcher (in_world (on_repo g)) a)"
  "(\<And>d. dp_repo (h d) = dp_repo d) \<Longrightarrow> (\<And>d. filter (\<lambda>(j, _). j = i) (dp_spawned (h d)) = filter (\<lambda>(j, _). j = i) (dp_spawned d)) \<Longrightarrow>
   acts (keeps_place i) (on_dispatcher (\<lambda>d. (h d, r d)) a)"
  "acts (keeps_place i) (on_dispatcher (in_world (persist_latest_result faults now j)) a)"
  unfolding on_dispatcher_def
  by (auto intro!: acts_focus intro: same_place issue_keeps_place simp: starts_def)

lemmas place_rules = acts_return acts_then acts_place_dispatcher issues_ops

lemma other_task_keeps_place:
  "tr_task_id task \<noteq> i \<Longrightarrow> acts (keeps_place i) (dispatch_task_program settings l host task a)"
  by (auto simp: dispatch_task_program_def launch_program_def spawn_failed_update_def is_terminal_def Let_def
      intro!: place_rules split: sum.split)

lemma mark_dispatched_settles:
  assumes "spawning i N m" "mc_repo m' = fst (mark_dispatched i pid clk (mc_repo m))" "starts i m' = starts i m"
  shows "settled i N m'"
proof -
  have ok: "repo_ok (mc_repo m)" and stored: "stored i (mc_repo m)" and n: "starts i m \<le> N"
    using assms(1) by (simp_all add: spawning_def)
  then obtain v where v: "view i (mc_repo m) = Some v" by (auto simp: stored_def)
  have "view i (mc_repo m') = Some (if vw_status v = Accepted then v\<lparr>vw_status := Running\<rparr> else v)"
    using view_run_op [OF ok, of i "OpDispatched i pid" clk] by (simp add: assms(2) v task_step_def)
  then have "left_queue i (mc_repo m')" by (simp add: left_queue_def)
  moreover have "repo_ok (mc_repo m')"
    using run_op_keeps_ok [OF ok, of "(OpDispatched i pid, clk)"] by (simp add: assms(2))
  ultimately show ?thesis using n by (auto simp: settled_def assms(3))
qed

lemma on_dispatcher_atomic:
  "on_dispatcher f a =
     Atomic (\<lambda>m. case f (get_dispatcher m a) of (d, r) \<Rightarrow> (put_dispatcher d m, Return (accounts_of d, r)))"
  by (simp add: on_dispatcher_def focus_def)

lemma safe_start_spawned:
  assumes "pending_start i N m"
  shows "safe_start i N (settled i N)
    (act_then (on_dispatcher (\<lambda>d. (d\<lparr>dp_spawned := dp_spawned d @ [(i, x)]\<rparr>, Inr ())) a) (\<lambda>_ a.
       on_dispatcher (in_world (on_repo (mark_dispatched i pid clk))) a)) m"
proof -
  have bounds: "settled i N m \<Longrightarrow> starts i m \<le> N" "spawning i N m \<Longrightarrow> starts i m \<le> N" for m
    by (auto simp: settled_def spawning_def)
  have mark: "safe_start i N (settled i N) (on_dispatcher (in_world (on_repo (mark_dispatched i pid clk))) a) m"
    if "spawning i N m" for m a
    unfolding on_dispatcher_def
  proof (rule places.safe_focus_any [where ?P0.0 = "spawning i N", OF that])
    show "spawning i N s \<Longrightarrow> keeps_place i s t \<Longrightarrow> spawning i N t" for s t by (rule place_stable)
    show "settled i N s \<Longrightarrow> keeps_place i s t \<Longrightarrow> settled i N t" for s t by (rule place_stable)
    show "settled i N t \<Longrightarrow> starts i t \<le> N" for t by (rule bounds)
    show "settled i N (put_dispatcher (fst (in_world (on_repo (mark_dispatched i pid clk)) (get_dispatcher t a))) t)"
      if "spawning i N t" for t
      by (rule mark_dispatched_settles [OF that, where pid = pid and clk = clk]) (simp_all add: starts_def)
  qed
  have "spawning i N (put_dispatcher (get_dispatcher t a\<lparr>dp_spawned := mc_spawned t @ [(i, x)]\<rparr>) t)"
    "Suc (length (filter (\<lambda>(j, _). j = i) (mc_spawned t))) \<le> N" if "keeps_place i m t" for t
    using place_stable(2) [OF assms that] by (simp_all add: pending_start_def spawning_def starts_def)
  then show ?thesis
    unfolding act_then_def on_dispatcher_atomic [of "\<lambda>d. (h d, Inr ())" for h]
    using mark by simp
qed

lemma safe_start_launch:
  assumes "pending_start i N m" "tr_task_id task = i"
  shows "safe_start i N (settled i N) (launch_program settings l host task rv a) m"
  unfolding launch_program_def Let_def
proof (rule places.safe_then_any [where P = "pending_start i N"])
  show "safe_start i N (pending_start i N) (on_dispatcher (in_world (on_repo (reserving host task rv))) a) m"
    by (rule safe_pending [OF acts_place_dispatcher(1) assms(1)]) (simp add: issues_ops)
  show "pending_start i N s \<Longrightarrow> keeps_place i s t \<Longrightarrow> pending_start i N t" for s t by (rule place_stable)
  show "pending_start i N s \<Longrightarrow> settled i N s" for s by (rule pending_settled)
  fix a' :: accounts and u :: unit and m
  assume m: "pending_start i N m"
  let ?a = "(add_reservation (fst a') rv, case task_tenant task of
      Some t \<Rightarrow> charge_tenant l t rv (snd a') | None \<Rightarrow> snd a')"
  have quiet: "safe_start i N (settled i N) p m" if "acts (keeps_place i) p" for p :: "(machine, accounts \<times> unit app_result) act"
    by (rule safe_settled [OF that pending_settled [OF m]])
  show "safe_start i N (settled i N) (case dh_exe host of
      Inl err \<Rightarrow> Return (?a, Inl (LaunchFailed (''resolve current exe: '' @ err)))
    | Inr exe \<Rightarrow> (case dh_spawn host of
        Inr pid \<Rightarrow>
          act_then (on_dispatcher (\<lambda>d. (d\<lparr>dp_spawned := dp_spawned d @
            [(tr_task_id task, pid, exe # shim_args settings (tr_task_id task))]\<rparr>, Inr ())) ?a) (\<lambda>_ a.
          on_dispatcher (in_world (on_repo (mark_dispatched (tr_task_id task) pid (dh_dispatched_clock host)))) a)
      | Inl err \<Rightarrow>
          act_then (on_dispatcher (in_world (on_repo (complete_task (tr_task_id task)
              (spawn_failed_update (dh_failed_at host) err) (dh_complete_clock host)))) ?a) (\<lambda>_ a.
          on_dispatcher (in_world (persist_latest_result (dh_faults host) (dh_now host) (tr_task_id task)))
            (subtract_reservation (fst a) rv, snd a)))) m"
  proof (cases "dh_exe host")
    case (Inl err)
    then show ?thesis using place_stable(1) [OF pending_settled [OF m]] by simp
  next
    case exe: (Inr exe)
    show ?thesis
    proof (cases "dh_spawn host")
      case (Inl err)
      have "safe_start i N (settled i N) (act_then (on_dispatcher (in_world (on_repo (complete_task (tr_task_id task)
              (spawn_failed_update (dh_failed_at host) err) (dh_complete_clock host)))) ?a) (\<lambda>_ a.
          on_dispatcher (in_world (persist_latest_result (dh_faults host) (dh_now host) (tr_task_id task)))
            (subtract_reservation (fst a) rv, snd a))) m"
        by (rule quiet) (auto simp: spawn_failed_update_def is_terminal_def intro!: place_rules)
      with exe Inl show ?thesis by simp
    next
      case (Inr pid)
      with exe safe_start_spawned [OF m] show ?thesis by (simp add: assms(2))
    qed
  qed
qed

lemma safe_start_task:
  assumes "pending_start i N m" "tr_task_id task = i"
  shows "safe_start i N (settled i N) (dispatch_task_program settings l host task a) m"
proof -
  have quiet: "safe_start i N (settled i N) p m" if "acts (keeps_place i) p" for p :: "(machine, accounts \<times> unit app_result) act"
    by (rule safe_settled [OF that pending_settled [OF assms(1)]])
  have cancel: "acts (keeps_place i) (act_then (on_dispatcher (in_world (on_repo
        (cancel_accepted_task (tr_task_id task) killed_before_execution (dh_cancel_clock host)))) a) (\<lambda>_ a.
      on_dispatcher (in_world (persist_latest_result (dh_faults host) (dh_now host) (tr_task_id task))) a))"
    by (auto intro!: place_rules)
  have skip: "acts (keeps_place i) (Return (a, Inr ()))" by simp
  show ?thesis
    unfolding dispatch_task_program_def Let_def
    using quiet [OF cancel] quiet [OF skip] safe_start_launch [OF assms] by (simp split del: if_split split: if_split)
qed

text \<open>The rest of the queue names the task only if it was not started since the queue was read.\<close>

definition queue_settled :: "string \<Rightarrow> nat \<Rightarrow> TaskRecord list \<Rightarrow> machine \<Rightarrow> bool" where
  "queue_settled i N tasks m =
     (if i \<in> set (map tr_task_id tasks) then pending_start i N m else settled i N m)"

lemma queue_settled_settled: "queue_settled i N tasks m \<Longrightarrow> settled i N m"
  by (auto simp: queue_settled_def pending_settled split: if_splits)

lemma queue_settled_stable: "queue_settled i N tasks m \<Longrightarrow> keeps_place i m m' \<Longrightarrow> queue_settled i N tasks m'"
  by (auto simp: queue_settled_def place_stable split: if_splits)

lemma safe_start_tasks:
  "distinct (map tr_task_id tasks) \<Longrightarrow> queue_settled i N tasks m \<Longrightarrow>
   safe_start i N (settled i N) (dispatch_tasks_program settings l hosts tasks a) m"
proof (induction tasks arbitrary: a m)
  case Nil
  have "acts (keeps_place i) (Return (a, Inr ()))" by simp
  from safe_settled [OF this queue_settled_settled [OF Nil.prems(2)]] show ?case by simp
next
  case (Cons task tasks)
  let ?p = "dispatch_task_program settings l (hosts (tr_task_id task)) task a"
  have first: "safe_start i N (queue_settled i N tasks) ?p m"
  proof (cases "tr_task_id task = i")
    case True
    then have "i \<notin> set (map tr_task_id tasks)" using Cons.prems(1) by auto
    then have "queue_settled i N tasks = settled i N" by (auto simp: queue_settled_def fun_eq_iff)
    then show ?thesis
      using safe_start_task [OF _ True] Cons.prems(2) True by (simp add: queue_settled_def)
  next
    case False
    have "queue_settled i N tasks m" using Cons.prems(2) False by (auto simp: queue_settled_def split: if_splits)
    then show ?thesis
    proof (rule places.safe_acts [OF other_task_keeps_place [OF False]])
      show "queue_settled i N tasks t \<Longrightarrow> starts i t \<le> N" for t
        using queue_settled_settled [of i N tasks t] by (auto simp: settled_def)
    qed (rule queue_settled_stable)
  qed
  show ?case
    unfolding dispatch_tasks_program.simps
    by (rule places.safe_then_any [OF first queue_settled_stable queue_settled_settled Cons.IH])
      (use Cons.prems(1) in simp_all)
qed

lemma accepted_listed:
  assumes "repo_ok s" "list_accepted n s = Inr tasks"
  shows "distinct (map tr_task_id tasks)"
    and "i \<in> set (map tr_task_id tasks) \<Longrightarrow> stored i s \<and> \<not> left_queue i s"
proof -
  let ?rows = "sql_limit n (sort_key c_created_at_ms (filter (\<lambda>r. c_status r = ''accepted'') (rp_tasks s)))"
  have q: "map_res row_to_task_record ?rows = Inr tasks" using assms(2) by (simp add: list_accepted_def)
  have "distinct (map c_task_id (filter (\<lambda>r. c_status r = ''accepted'') (rp_tasks s)))"
    using assms(1) by (simp add: repo_ok_def task_ids_def distinct_map_filter)
  then have "distinct (map c_task_id (sort_key c_created_at_ms (filter (\<lambda>r. c_status r = ''accepted'') (rp_tasks s))))"
    by (simp add: distinct_map)
  then have "distinct (map c_task_id ?rows)" by (simp add: sql_limit_def take_map [symmetric] distinct_take)
  then show "distinct (map tr_task_id tasks)" using map_res_rows [OF q] by simp
  show "stored i s \<and> \<not> left_queue i s" if "i \<in> set (map tr_task_id tasks)"
  proof -
    have "i \<in> set (map c_task_id ?rows)" using that map_res_rows [OF q] by simp
    then obtain r where r: "r \<in> set (rp_tasks s)" "c_status r = ''accepted''" "c_task_id r = i"
      using set_sql_limit by fastforce
    then have "view i s = Some (row_view r)"
      using find_row_mem [OF assms(1)] by (auto simp: view_row [OF assms(1)])
    then show ?thesis using r(2) by (simp add: stored_def left_queue_def)
  qed
qed

lemma safe_start_dispatch:
  assumes "settled i N m"
  shows "safe_start i N (settled i N) (dispatch_program settings l hosts) m"
  unfolding dispatch_program_def
proof (rule places.safe_then_any [where P = "settled i N"])
  show "safe_start i N (settled i N)
      (on_dispatcher (\<lambda>d. (d, list_active_reservations (dp_repo d))) (reserved_capacity l [], [])) m"
    by (rule safe_settled [OF acts_place_dispatcher(2) assms]) simp_all
  fix m and active :: "TaskRecord list"
  assume m: "settled i N m"
  show "safe_start i N (settled i N)
      (act_then (on_dispatcher (\<lambda>d. (d, list_accepted (se_max_queued_tasks settings) (dp_repo d)))
         (reserved_capacity l (List.map_filter tr_reservation active), tenant_account l [] active))
         (\<lambda>tasks a. dispatch_tasks_program settings l hosts tasks a)) m"
    unfolding act_then_def
  proof (rule places.safe_bind)
    show "safe (keeps_place i) (\<lambda>_ m. starts i m \<le> N) (\<lambda>(l, r) m. settled i N m \<and>
        (\<forall>tasks. r = Inr tasks \<longrightarrow> distinct (map tr_task_id tasks) \<and> queue_settled i N tasks m))
      (on_dispatcher (\<lambda>d. (d, list_accepted (se_max_queued_tasks settings) (dp_repo d)))
         (reserved_capacity l (List.map_filter tr_reservation active), tenant_account l [] active)) m"
    proof -
      have "queue_settled i N tasks t"
        if "keeps_place i m t" "list_accepted (se_max_queued_tasks settings) (mc_repo t) = Inr tasks" for t tasks
        using accepted_listed(2) [OF _ that(2)] place_stable(1) [OF m that(1)]
        by (auto simp: queue_settled_def settled_def pending_start_def)
      moreover have "settled i N t" "starts i t \<le> N" "repo_ok (mc_repo t)" if "keeps_place i m t" for t
        using place_stable(1) [OF m that] by (auto simp: settled_def)
      ultimately show ?thesis
        using accepted_listed(1) place_stable(1) queue_settled_stable
        by (simp add: on_dispatcher_atomic dispatching.put_get) blast
    qed
  qed (auto simp: safe_start_tasks place_stable split: sum.split)
qed (fact place_stable | simp)+

subsection \<open>The server\<close>

definition starts_once :: "string \<Rightarrow> nat \<Rightarrow> runtime \<Rightarrow> system \<Rightarrow> bool" where
  "starts_once i N rt sy =
     (roles_kept sy \<and> repo_ok (mc_repo (sy_machine sy)) \<and> starts i (sy_machine sy) \<le> N \<and>
      (case sy_phase sy of
         Serving rt' d \<Rightarrow> rt' = rt \<and>
           (case d of None \<Rightarrow> settled i N (sy_machine sy)
            | Some p \<Rightarrow> safe_start i N (settled i N) p (sy_machine sy))
       | _ \<Rightarrow> False))"

lemma starts_once_others:
  assumes "starts_once i N rt sy" "roles_kept sy'" "sy_phase sy' = sy_phase sy"
    and "keeps_place i (sy_machine sy) (sy_machine sy')"
  shows "starts_once i N rt sy'"
proof -
  have "repo_ok (mc_repo (sy_machine sy'))" "starts i (sy_machine sy') \<le> N"
    using assms(1,4) by (simp_all add: starts_once_def keeps_place_def)
  then show ?thesis
    using assms(1-3) place_stable(1) [OF _ assms(4)] places.safe_stable [OF _ assms(4)]
    by (auto simp: starts_once_def split: phase.splits option.splits)
qed

lemma role_advances: "role \<noteq> Collector \<Longrightarrow> role_op role c \<Longrightarrow> advances c" "\<not> may_spawn (role_op role)"
  by (cases role; cases c; simp) (cases role; simp add: may_spawn_def)

text \<open>The task is not deleted in a step.\<close>

definition not_deleted :: "string \<Rightarrow> system \<Rightarrow> system \<Rightarrow> bool" where
  "not_deleted i sy sy' = (is_ok (get_task i (mc_repo (sy_machine sy))) \<longrightarrow> is_ok (get_task i (mc_repo (sy_machine sy'))))"

lemma stored_ok: "stored i s = is_ok (get_task i s)"
  by (auto simp: stored_def view_def is_ok_conv split: sum.split)

lemma step_starts_once:
  assumes "starts_once i N rt sy" "sys_step e sy = Some sy'" "uninterrupted e" "not_deleted i sy sy'"
  shows "starts_once i N rt sy'"
proof -
  have roles: "roles_kept sy'" and ops: "by_ops (step_op e sy) (sy_machine sy) (sy_machine sy')"
    using step_keeps_roles [OF _ assms(2)] assms(1) by (auto simp: starts_once_def)
  obtain d where phase: "sy_phase sy = Serving rt d"
    using assms(1) by (auto simp: starts_once_def split: phase.splits)
  note other = starts_once_others [OF assms(1) roles]
  show ?thesis
  proof (cases e)
    case (ThreadStep n)
    let ?role = "fst (sy_threads sy ! n)"
    have ops': "by_ops (role_op ?role) (sy_machine sy) (sy_machine sy')" using ops by (simp add: ThreadStep step_op_def)
    have "keeps_place i (sy_machine sy) (sy_machine sy')"
    proof (cases "?role = Collector")
      case True
      then show ?thesis
        using ops' assms(4) by (auto simp: stored_ok not_deleted_def intro: deletes_keep_place)
    next
      case False
      then show ?thesis using by_ops_keeps_place [OF ops'] role_advances by blast
    qed
    moreover have "sy_phase sy' = sy_phase sy"
      using assms(2) by (auto simp: ThreadStep thread_step_def Let_def split: if_splits prod.splits act.splits)
    ultimately show ?thesis by (intro other)
  next
    case (CycleBegins woken hosts)
    then have d: "d = None" and sy': "begin_cycle woken hosts rt sy = Some sy'"
      using assms(2) by (auto simp: phase split: option.splits)
    then have "keeps_place i (sy_machine sy) (sy_machine sy')"
      by (auto simp: begin_cycle_def Let_def starts_def intro!: same_place split: if_splits)
    then have "settled i N (sy_machine sy')"
      using place_stable(1) assms(1) d by (auto simp: starts_once_def phase)
    moreover from this have "repo_ok (mc_repo (sy_machine sy'))" "starts i (sy_machine sy') \<le> N"
      by (auto simp: settled_def)
    moreover have "sy_phase sy' = Serving rt (Some (dispatch_program (rt_settings rt) (rt_ledger rt) hosts))"
      using sy' by (auto simp: begin_cycle_def Let_def split: if_splits)
    ultimately show ?thesis using roles by (simp add: starts_once_def safe_start_dispatch)
  next
    case (CycleStep births)
    then obtain p where d: "d = Some p" and sy': "sy' = dispatcher_loop births rt p sy"
      using assms(2) by (auto simp: phase split: option.splits)
    have safe: "safe_start i N (settled i N) p (sy_machine sy)"
      using assms(1) by (simp add: starts_once_def phase d)
    show ?thesis
    proof (cases p)
      case (Return r)
      then have "settled i N (sy_machine sy)" using safe places.refl by simp
      with roles assms(1) sy' Return show ?thesis by (simp add: dispatcher_loop_def starts_once_def)
    next
      case (Atomic f)
      have "repo_ok (mc_repo (sy_machine sy'))"
        using by_ops_ok [OF ops] assms(1) by (simp add: starts_once_def)
      with places.safe_step [OF safe [unfolded Atomic]] roles sy' show ?thesis
        by (simp add: Atomic dispatcher_loop_def Let_def starts_once_def case_prod_beta)
    qed
  next
    case (Arrival host request)
    with assms(2) show ?thesis by (intro other) (auto simp: phase intro: same_place)
  next
    case (PassBegins from_std remove now)
    with assms(2) show ?thesis by (intro other) (auto simp: phase gc_loop_def intro: same_place split: if_splits)
  qed (use assms(2,3) phase in \<open>auto simp: uninterrupted_def\<close>)
qed

text \<open>The task is not deleted during a run.\<close>

fun kept_throughout :: "string \<Rightarrow> system_event list \<Rightarrow> system \<Rightarrow> bool" where
  "kept_throughout i [] sy = True"
| "kept_throughout i (e # es) sy =
     (case sys_step e sy of None \<Rightarrow> True | Some sy' \<Rightarrow> not_deleted i sy sy' \<and> kept_throughout i es sy')"

lemma run_starts_once:
  "starts_once i N rt sy \<Longrightarrow> sys_run es sy = Some sy' \<Longrightarrow> list_all uninterrupted es \<Longrightarrow> kept_throughout i es sy \<Longrightarrow>
   starts_once i N rt sy'"
proof (induction es arbitrary: sy)
  case (Cons e es)
  then obtain sy1 where "sys_step e sy = Some sy1" "sys_run es sy1 = Some sy'"
    by (auto simp: bind_eq_Some_conv)
  with Cons show ?case by (auto intro: step_starts_once)
qed simp

text \<open>
  C4: No task is started twice by a server: while it serves, and as long as the task is not deleted,
  the dispatcher spawns at most one shim for a task, and none for a task that is no longer accepted,
  however the requests, the shims and the collector interleave with its cycles.
\<close>

theorem no_task_is_started_twice:
  assumes "reachable sy" "sy_phase sy = Serving rt None" "sys_run es sy = Some sy'"
    and "list_all uninterrupted es" "kept_throughout i es sy"
  shows "starts i (sy_machine sy') \<le> starts i (sy_machine sy) +
    (case get_task i (mc_repo (sy_machine sy)) of Inl _ \<Rightarrow> 1 | Inr task \<Rightarrow> if tr_status task = Accepted then 1 else 0)"
proof -
  let ?extra = "case get_task i (mc_repo (sy_machine sy)) of Inl _ \<Rightarrow> 1 | Inr task \<Rightarrow> if tr_status task = Accepted then 1 else 0"
  have "repo_ok (mc_repo (sy_machine sy))"
    using reachable_history [OF assms(1)] run_history_ok by auto
  then have "settled i (starts i (sy_machine sy) + ?extra) (sy_machine sy)"
    by (auto simp: settled_def left_queue_def view_def view_of_def split: sum.split)
  then have "starts_once i (starts i (sy_machine sy) + ?extra) rt sy"
    using reachable_roles [OF assms(1)] assms(2) by (auto simp: starts_once_def settled_def)
  from run_starts_once [OF this assms(3-5)] show ?thesis by (simp add: starts_once_def)
qed

end
