(* ===== verification/System_Runs.thy ===== *)
theory System_Runs
  imports Single_Start
begin

section \<open>System runs: interleavings that go wrong\<close>

text \<open>A server with a quota of two slots for the tenant \<open>a\<close>.\<close>

definition sample_quota :: ResourceCapacity where
  "sample_quota = \<lparr>rc_task_slots = 2, rc_memory_bytes = None, rc_pids = None\<rparr>"

definition sample_args :: "u64 \<Rightarrow> ServeArgs" where
  "sample_args max_queued =
     \<lparr>sa_listen_addr = ''l'', sa_data_dir = ''/d'', sa_max_running_tasks = 2, sa_max_queued_tasks = max_queued,
      sa_termination_grace_ms = 5, sa_result_retention_secs = 60, sa_gc_interval_ms = 9,
      sa_dispatch_poll_interval_ms = 9, sa_cgroup_root = ''/c'', sa_runtime_id = Some ''rt'',
      sa_default_capability_mode = Adaptive, sa_disable_linux_sandbox = False, sa_disable_cgroup = False,
      sa_capacity_memory_bytes = None, sa_capacity_pids = None, sa_tenant_quota = [''a=slots:2'']\<rparr>"

definition sample_boot :: "u64 \<Rightarrow> boot" where
  "sample_boot max_queued =
     \<lparr>bo_args = sample_args max_queued, bo_hostname = None, bo_faults = (\<lambda>_. None), bo_open_db = Inr (),
      bo_probe = sample_probe_host, bo_started_at = 5, bo_recover = sample_recover_host\<rparr>"

text \<open>A start on an empty data directory.\<close>

definition startup :: "u64 \<Rightarrow> system_event list" where
  "startup max_queued = [Boot (sample_boot max_queued), RecoveryStep, RecoveryStep, RecoveryStep]"

definition sample_serve_host :: serve_host where
  "sample_serve_host =
     \<lparr>vh_submit = sample_submit_host, vh_kill = sample_kill_host, vh_faults = (\<lambda>_. None), vh_now = 9,
      vh_init = Inr (), vh_statements = Inr (), vh_version = ''1''\<rparr>"

definition small_request :: "string \<Rightarrow> SubmitTaskRequest" where
  "small_request i =
     \<lparr>rq_task_id = Some i,
      rq_execution = \<lparr>es_kind = Command, es_program = Some ''p'', es_args = [], es_script = None,
        es_interpreter = None, es_env = []\<rparr>,
      rq_limits = \<lparr>rl_wall_time_ms = 1, rl_cpu_time_sec = None, rl_memory_bytes = None, rl_pids_max = None,
        rl_stdout_max_bytes = 1, rl_stderr_max_bytes = 1\<rparr>,
      rq_sandbox = default_sandbox_policy, rq_policy = None,
      rq_control_context = Some \<lparr>cc_control_plane_mode = None, cc_tenant = Some ''a'', cc_owner = None,
        cc_expected_runtime_profile = None, cc_requires_strict_sandbox = False,
        cc_requires_resource_reservation = False, cc_labels = []\<rparr>,
      rq_metadata = []\<rparr>"

definition submission :: "string \<Rightarrow> http_request" where
  "submission i =
     \<lparr>hq_method = Post, hq_path = [''api'', ''v1'', ''tasks''], hq_owner = None, hq_body = Inr (small_request i)\<rparr>"

definition kill_request :: "string \<Rightarrow> http_request" where
  "kill_request i =
     \<lparr>hq_method = Post, hq_path = [''api'', ''v1'', ''tasks'', i, ''kill''], hq_owner = None, hq_body = Inl 400\<rparr>"

abbreviation births :: births where
  "births \<equiv> \<lambda>_. (sample_shim_host, [])"

text \<open>A submission, from its arrival to its reply, as thread \<open>n\<close>.\<close>

definition submitted :: "nat \<Rightarrow> string \<Rightarrow> system_event list" where
  "submitted n i = Arrival sample_serve_host (submission i) # replicate 4 (ThreadStep n)"

text \<open>A cycle up to the spawn of the shim of the first task in the queue: two queries, the reservation, the spawn.\<close>

definition cycle_to_spawn :: "system_event list" where
  "cycle_to_spawn = CycleBegins True (\<lambda>_. good_host) # replicate 4 (CycleStep births)"

definition ends_in :: "(system \<Rightarrow> bool) \<Rightarrow> system option \<Rightarrow> bool" where
  "ends_in P r = (case r of None \<Rightarrow> False | Some sy \<Rightarrow> P sy)"

definition sample_runtime :: "u64 \<Rightarrow> runtime" where
  "sample_runtime max_queued =
     \<lparr>rt_settings = sample_settings\<lparr>se_max_queued_tasks := max_queued, se_tenant_quotas := [(''a'', sample_quota)]\<rparr>,
      rt_capabilities =
        \<lparr>cp_runtime_id = ''rt'', cp_snapshot_version = ''v1'', cp_collected_at = 5,
         cp_platform = \<lparr>pf_os = ''linux'', pf_arch = ''x86_64'', pf_containerized = False, pf_kubernetes = False\<rparr>,
         cp_execution = \<lparr>xc_command = True, xc_script = True, xc_process_group = True\<rparr>,
         cp_sandbox = \<lparr>sc_process = True, sc_linux_sandbox = False, sc_chroot = False,
           sc_namespaces = \<lparr>nc_mount = False, nc_pid = False, nc_uts = False, nc_ipc = False, nc_net = False\<rparr>\<rparr>,
         cp_storage = \<lparr>st_data_dir_writable = True\<rparr>,
         cp_resources = \<lparr>rs_rlimit_cpu = True, rs_rlimit_memory = True, rs_cgroup_v2 = False,
           rs_cgroup_writable = False, rs_memory_limit = True, rs_pids_limit = False, rs_oom_detection = False,
           rs_cpu_quota = False, rs_ledger = True,
           rs_capacity = \<lparr>rc_task_slots = 2, rc_memory_bytes = Some 16384, rc_pids = None\<rparr>\<rparr>,
         cp_stable_semantics = stable_semantics, cp_enhanced_semantics = enhanced_semantics False False,
         cp_warnings = [''linux_sandbox is unavailable without root-equivalent namespace permissions''],
         cp_degraded = True, cp_overrides = []\<rparr>,
      rt_ledger = with_tenant_quotas \<lparr>rc_task_slots = 2, rc_memory_bytes = Some 16384, rc_pids = None\<rparr>
        [(''a'', sample_quota)],
      rt_started_at = 5\<rparr>"

definition serving_on :: "u64 \<Rightarrow> system" where
  "serving_on max_queued =
     (installed ''/d'')
       \<lparr>sy_machine := put_service
          \<lparr>sx_world = \<lparr>wd_repo = empty_repo, wd_files = no_files\<lparr>fl_dirs := [''/d'', ''/d/tasks'']\<rparr>\<rparr>,
           sx_signals = [], sx_escalations = [], sx_notified = True\<rparr> (sy_machine (installed ''/d'')),
        sy_phase := Serving (sample_runtime max_queued) None\<rparr>"

lemma sample_probe:
  "probe_runtime_capabilities sample_probe_host (probe_input sample_settings) = rt_capabilities (sample_runtime 8)"
  by code_simp

lemma startup_serves: "sys_run (startup q) (installed ''/d'') = Some (serving_on q)"
proof -
  let ?settings = "sample_settings\<lparr>se_max_queued_tasks := q, se_tenant_quotas := [(''a'', sample_quota)]\<rparr>"
  have quota: "parse_tenant_quota ''a=slots:2'' = Inr (''a'', sample_quota)"
    by (simp add: parse_tenant_quota_def quota_value_def parse_u64_def trim_def trim_start_def trim_end_def
        is_whitespace_def is_ascii_digit_def u64_max_def sample_quota_def Let_def)
  have settings: "from_args None (sample_args q) = Inr ?settings"
    by (simp add: from_args_def sample_args_def quota sample_settings_def path_join_def is_absolute_def Let_def)
  have caps: "probe_runtime_capabilities sample_probe_host (probe_input ?settings) = rt_capabilities (sample_runtime q)"
    using sample_probe by (simp add: probe_input_def sample_runtime_def)
  have new: "new_runtime (\<lambda>_. None) (Inr ()) sample_probe_host 5 ?settings no_files =
      (no_files\<lparr>fl_dirs := [''/d'', ''/d/tasks'']\<rparr>, Inr (sample_runtime q))"
    by (simp add: new_runtime_def create_dir_all_def access_def caps Let_def)
      (simp add: sample_settings_def sample_runtime_def no_files_def)
  have dir: "sa_data_dir (sample_args q) = ''/d''" by (simp add: sample_args_def)
  show ?thesis
    by (simp add: startup_def sample_boot_def run_server_def settings dir new Let_def installed_def
        recovery_step_def recover_program_def act_then_def on_service_def focus_def put_service_def
        list_non_terminal_def empty_repo_def notify_dispatcher_def serving_on_def)
qed

lemma reachable_run: "reachable sy \<Longrightarrow> sys_run es sy = Some sy' \<Longrightarrow> reachable sy'"
  by (induction es arbitrary: sy) (auto simp: bind_eq_Some_conv intro: reachable.step)

lemma sys_run_append: "sys_run (es @ es') sy = Option.bind (sys_run es sy) (sys_run es')"
proof (induction es arbitrary: sy)
  case (Cons e es)
  then show ?case by (cases "sys_step e sy") simp_all
qed simp

lemma serving_reachable: "reachable (serving_on q)"
  by (rule reachable_run [OF reachable.installed startup_serves])

subsection \<open>A thread that runs alone\<close>

text \<open>
  A thread may run to its end while all others wait; then it is its operation. It starts no other
  thread when it queues no escalation.
\<close>

definition grows :: "machine \<Rightarrow> machine \<Rightarrow> bool" where
  "grows m m' = (\<exists>xs. sx_escalations (mc_service m') = sx_escalations (mc_service m) @ xs)"

lemma grows_no_more:
  assumes "grows m m1" "grows m1 m2" "sx_escalations (mc_service m2) = sx_escalations (mc_service m)"
  shows "sx_escalations (mc_service m1) = sx_escalations (mc_service m)"
proof -
  obtain xs ys where "sx_escalations (mc_service m1) = sx_escalations (mc_service m) @ xs"
      "sx_escalations (mc_service m2) = sx_escalations (mc_service m1) @ ys"
    using assms(1,2) unfolding grows_def by blast
  with assms(3) show ?thesis by (metis append.assoc append_is_Nil_conv append_self_conv)
qed

lemma run_act_grows: "acts grows p \<Longrightarrow> grows m (fst (run_act p m))"
proof (induction p arbitrary: m rule: act_induct)
  case (Atomic f)
  then have "grows m (fst (f m))" "grows (fst (f m)) (fst (run_act (snd (f m)) (fst (f m))))" by simp_all
  then show ?case by (auto simp: grows_def case_prod_beta)
qed (simp add: grows_def)

lemma run_alone:
  assumes "n < length (sy_threads sy)" "sy_threads sy ! n = (role, p)" "acts grows p"
    and "run_act p (sy_machine sy) = (m, r)"
    and "sx_escalations (mc_service m) = sx_escalations (mc_service (sy_machine sy))"
  shows "\<exists>k. sys_run (replicate k (ThreadStep n)) sy =
    Some (sy\<lparr>sy_machine := m, sy_threads := (sy_threads sy)[n := (role, Return r)]\<rparr>)"
  using assms
proof (induction p arbitrary: sy rule: act_induct)
  case (Return a)
  then have "(sy_threads sy)[n := (role, Return r)] = sy_threads sy" by (metis Pair_inject list_update_id run_act.simps(1))
  moreover have "m = sy_machine sy" using Return.prems(4) by simp
  ultimately have "sy\<lparr>sy_machine := m, sy_threads := (sy_threads sy)[n := (role, Return r)]\<rparr> = sy" by simp
  then have "sys_run (replicate 0 (ThreadStep n)) sy =
      Some (sy\<lparr>sy_machine := m, sy_threads := (sy_threads sy)[n := (role, Return r)]\<rparr>)" by simp
  then show ?case by blast
next
  case (Atomic f)
  let ?m1 = "fst (f (sy_machine sy))" and ?p1 = "snd (f (sy_machine sy))"
  let ?sy1 = "sy\<lparr>sy_machine := ?m1, sy_threads := (sy_threads sy)[n := (role, ?p1)]\<rparr>"
  have "grows (sy_machine sy) ?m1" "acts grows ?p1" using Atomic.prems(3) by simp_all
  have run: "run_act ?p1 ?m1 = (m, r)" using Atomic.prems(4) by (simp add: case_prod_beta)
  have "grows ?m1 m" using run_act_grows [OF \<open>acts grows ?p1\<close>, of ?m1] run by simp
  have same: "sx_escalations (mc_service ?m1) = sx_escalations (mc_service (sy_machine sy))"
    by (rule grows_no_more [OF \<open>grows (sy_machine sy) ?m1\<close> \<open>grows ?m1 m\<close> Atomic.prems(5)])
  then have first: "sys_step (ThreadStep n) sy = Some ?sy1"
    using Atomic.prems(1,2) by (simp add: thread_step_def Let_def case_prod_beta new_escalations_def)
  have "\<exists>k. sys_run (replicate k (ThreadStep n)) ?sy1 =
      Some (?sy1\<lparr>sy_machine := m, sy_threads := (sy_threads ?sy1)[n := (role, Return r)]\<rparr>)"
  proof (rule Atomic.IH)
    show "n < length (sy_threads ?sy1)" "sy_threads ?sy1 ! n = (role, ?p1)" using Atomic.prems(1) by simp_all
    show "run_act ?p1 (sy_machine ?sy1) = (m, r)" using run by simp
    show "sx_escalations (mc_service m) = sx_escalations (mc_service (sy_machine ?sy1))"
      using Atomic.prems(5) same by simp
  qed (rule \<open>acts grows ?p1\<close>)
  then obtain k where "sys_run (replicate k (ThreadStep n)) ?sy1 =
      Some (sy\<lparr>sy_machine := m, sy_threads := (sy_threads sy)[n := (role, Return r)]\<rparr>)" by auto
  with first have "sys_run (replicate (Suc k) (ThreadStep n)) sy =
      Some (sy\<lparr>sy_machine := m, sy_threads := (sy_threads sy)[n := (role, Return r)]\<rparr>)"
    by (simp del: sys_step.simps)
  then show ?case by blast
qed

lemma reachable_alone:
  assumes "reachable sy" "n < length (sy_threads sy)" "sy_threads sy ! n = (role, p)" "acts grows p"
    and "run_act p (sy_machine sy) = (m, r)"
    and "sx_escalations (mc_service m) = sx_escalations (mc_service (sy_machine sy))"
  shows "reachable (sy\<lparr>sy_machine := m, sy_threads := (sy_threads sy)[n := (role, Return r)]\<rparr>)"
  using run_alone [OF assms(2-)] reachable_run [OF assms(1)] by blast

text \<open>Every program of the service only adds escalations.\<close>

lemma acts_grows_service:
  "(\<And>sx. \<exists>xs. sx_escalations (fst (f sx)) = sx_escalations sx @ xs) \<Longrightarrow> acts grows (on_service f l)"
  unfolding on_service_def by (rule acts_focus) (simp add: grows_def)

lemma acts_grows_serve: "acts grows (serve_program rt host request)"
proof -
  have handle: "acts grows (on_service (handle rt host request endpoint) ())"
    if "endpoint \<noteq> CreateTask" "\<forall>i. endpoint \<noteq> KillTask i" for endpoint
    by (rule acts_grows_service) (simp add: handle_reads [OF that])
  have signal: "sx_escalations (fst (signal_task h task sx)) = sx_escalations sx" for h task sx
    by (simp add: signal_task_def case_prod_beta)
  show ?thesis
    by (auto simp: serve_program_def handle_program_def submit_program_def store_program_def kill_program_def stop_program_def
        signal notify_dispatcher_def Let_def handle intro!: acts_then acts_bind acts_grows_service
        split: option.split sum.split endpoint.split)
qed

text \<open>A request that is served before anything else happens.\<close>

definition after_request :: "http_request \<Rightarrow> system \<Rightarrow> system" where
  "after_request request sy =
     (case sy_phase sy of
        Serving rt d \<Rightarrow>
          (case serve rt sample_serve_host request (mc_service (sy_machine sy)) of
             (sx, reply) \<Rightarrow> sy\<lparr>sy_machine := put_service sx (sy_machine sy),
                sy_threads := sy_threads sy @ [(Request, Return (Some reply))]\<rparr>)
      | _ \<Rightarrow> sy)"

lemma reachable_after_request:
  assumes "reachable sy"
    and "sx_escalations (mc_service (sy_machine (after_request request sy))) = sx_escalations (mc_service (sy_machine sy))"
  shows "reachable (after_request request sy)"
proof (cases "sy_phase sy")
  case (Serving rt d)
  let ?p = "act_bind (serve_program rt sample_serve_host request) (\<lambda>(_, reply). Return (Some reply))"
  let ?sy = "sy\<lparr>sy_threads := sy_threads sy @ [(Request, ?p)]\<rparr>"
  obtain sx reply where served: "serve rt sample_serve_host request (mc_service (sy_machine sy)) = (sx, reply)"
    by (cases "serve rt sample_serve_host request (mc_service (sy_machine sy))")
  have "sys_step (Arrival sample_serve_host request) sy = Some ?sy" by (simp add: Serving request_thread_def)
  then have arrived: "reachable ?sy" by (rule reachable.step [OF assms(1)])
  have "reachable (?sy\<lparr>sy_machine := put_service sx (sy_machine ?sy),
      sy_threads := (sy_threads ?sy)[length (sy_threads sy) := (Request, Return (Some reply))]\<rparr>)"
  proof (rule reachable_alone [OF arrived])
    show "acts grows ?p" by (auto intro!: acts_bind acts_grows_serve)
    show "run_act ?p (sy_machine ?sy) = (put_service sx (sy_machine ?sy), Some reply)"
      by (simp add: run_act_bind serve_program_alone focused_def served)
    show "sx_escalations (mc_service (put_service sx (sy_machine ?sy))) = sx_escalations (mc_service (sy_machine ?sy))"
      using assms(2) by (simp add: after_request_def Serving served)
  qed simp_all
  then show ?thesis by (simp add: after_request_def Serving served)
qed (simp_all add: after_request_def assms(1))

end
