(* ===== verification/Interleavings.thy ===== *)
theory Interleavings
  imports System_Runs
begin

section \<open>Interleavings that go wrong\<close>

subsection \<open>Serving a submission\<close>

text \<open>A server to which one task was submitted, and its first cycle up to the spawn.\<close>

definition one_task :: system where
  "one_task = after_request (submission ''t1'') (serving_on 8)"

lemma one_task_reachable: "reachable one_task"
proof -
  have "sx_escalations (mc_service (sy_machine one_task)) = sx_escalations (mc_service (sy_machine (serving_on 8)))"
    unfolding one_task_def by code_simp
  then show ?thesis unfolding one_task_def by (rule reachable_after_request [OF serving_reachable])
qed

lemma one_task_phase: "sy_phase one_task = Serving (sample_runtime 8) None"
  by (simp add: one_task_def after_request_def serving_on_def case_prod_beta)

lemma first_cycle:
  "ends_in (\<lambda>sy. starts ''t1'' (sy_machine sy) = 1 \<and> active_reservations (Some ''a'') (mc_repo (sy_machine sy)) \<noteq> [])
     (sys_run cycle_to_spawn one_task)"
  by code_simp

lemma first_cycle_keeps: "kept_throughout ''t1'' cycle_to_spawn one_task" "none_deleted cycle_to_spawn one_task"
  by code_simp+

lemma cycle_uninterrupted: "list_all uninterrupted cycle_to_spawn"
  by (simp add: cycle_to_spawn_def uninterrupted_def list_all_iff)

lemma nothing_reserved: "active_reservations (Some ''a'') (mc_repo (sy_machine one_task)) = []"
  by code_simp

text \<open>The cycle before its reservation.\<close>

lemma first_reservation:
  "ends_in (\<lambda>sy. active_reservations None (mc_repo (sy_machine sy)) = [] \<and>
     ends_in (\<lambda>sy'. active_reservations None (mc_repo (sy_machine sy')) \<noteq> []) (sys_step (CycleStep births) sy))
     (sys_run (take 3 cycle_to_spawn) one_task)"
  by code_simp

theorem running_system_is_a_history_witness:
  "ends_in (\<lambda>sy. ends_in (\<lambda>sy'. mc_repo (sy_machine sy') \<noteq> mc_repo (sy_machine sy) \<and>
       (\<exists>past ops. mc_repo (sy_machine sy) = run_history past \<and> mc_repo (sy_machine sy') = run_history (past @ ops) \<and>
         list_all (\<lambda>c. step_op (CycleStep births) sy (fst c)) ops)) (sys_step (CycleStep births) sy))
     (sys_run (take 3 cycle_to_spawn) one_task)"
proof -
  obtain sy where sy: "sys_run (take 3 cycle_to_spawn) one_task = Some sy"
    using first_reservation by (auto simp: ends_in_def split: option.splits)
  then obtain sy' where sy': "sys_step (CycleStep births) sy = Some sy'"
    using first_reservation by (auto simp: ends_in_def simp del: sys_step.simps split: option.splits)
  have "mc_repo (sy_machine sy') \<noteq> mc_repo (sy_machine sy)" using first_reservation by (auto simp: ends_in_def sy sy' simp del: sys_step.simps)
  with running_system_is_a_history [OF reachable_run [OF one_task_reachable sy] sy'] show ?thesis
    by (simp add: ends_in_def sy sy' del: sys_step.simps)
qed

lemma fits_capacity_nil: "fits_capacity cap []"
  by (simp add: fits_capacity_def total_slots_def total_memory_def total_pids_def below_limit_def split: option.split)

text \<open>The quota of the tenant of the task.\<close>

theorem capacity_holds_while_serving_witness:
  "quota_of (rt_ledger (sample_runtime 8)) (Some ''a'') = Some sample_quota \<and>
   ends_in (\<lambda>sy. active_reservations (Some ''a'') (mc_repo (sy_machine sy)) \<noteq> [] \<and>
       within (rt_ledger (sample_runtime 8)) (Some ''a'') (active_reservations (Some ''a'') (mc_repo (sy_machine sy))))
     (sys_run cycle_to_spawn one_task)"
proof -
  have quota: "quota_of (rt_ledger (sample_runtime 8)) (Some ''a'') = Some sample_quota"
    by (simp add: sample_runtime_def with_tenant_quotas_def quota_of_def tenant_quota_def)
  have proper: "limits_proper (rt_ledger (sample_runtime 8)) (Some ''a'')"
    by (simp add: limits_proper_def quota proper_capacity_def sample_quota_def u64_max_def)
  have start: "within (rt_ledger (sample_runtime 8)) (Some ''a'') (active_reservations (Some ''a'') (mc_repo (sy_machine one_task)))"
    by (simp add: nothing_reserved within_def quota fits_capacity_nil)
  show ?thesis
    using first_cycle capacity_holds_while_serving [OF one_task_reachable one_task_phase proper start _ cycle_uninterrupted
      disjI2 [OF first_cycle_keeps(2)]] quota
    by (auto simp: ends_in_def split: option.splits)
qed

theorem no_task_is_started_twice_witness:
  "ends_in (\<lambda>sy. starts ''t1'' (sy_machine sy) = 1) (sys_run cycle_to_spawn one_task) \<and>
   ends_in (\<lambda>sy. starts ''t1'' (sy_machine sy) \<le> starts ''t1'' (sy_machine one_task) +
       (case get_task ''t1'' (mc_repo (sy_machine one_task)) of
          Inl _ \<Rightarrow> 1 | Inr task \<Rightarrow> if tr_status task = Accepted then 1 else 0))
     (sys_run cycle_to_spawn one_task)"
  using first_cycle no_task_is_started_twice [OF one_task_reachable one_task_phase _ cycle_uninterrupted first_cycle_keeps(1)]
  by (auto simp: ends_in_def split: option.splits)

subsection \<open>Two starts of one task\<close>

text \<open>Up to the crash, and the second server, started without a quota, up to its own spawn.\<close>

definition second_boot :: boot where
  "second_boot = (sample_boot 8)\<lparr>bo_args := (sample_args 8)\<lparr>sa_tenant_quota := []\<rparr>\<rparr>"

definition crash_run :: "system_event list" where
  "crash_run = cycle_to_spawn @ [Crash, Boot second_boot] @ replicate 4 RecoveryStep @ cycle_to_spawn"

text \<open>The shims that have not ended, and the events that neither bring a request nor collect.\<close>

definition live_shims :: "system \<Rightarrow> thread_role list" where
  "live_shims sy = map fst (filter (\<lambda>t. is_shim t \<and> (case snd t of Atomic _ \<Rightarrow> True | Return _ \<Rightarrow> False)) (sy_threads sy))"

definition undirected :: "system_event \<Rightarrow> bool" where
  "undirected e = (case e of Arrival _ _ \<Rightarrow> False | PassBegins _ _ _ \<Rightarrow> False | _ \<Rightarrow> True)"

text \<open>
  C8: The spawn of a shim and the record of it are two steps, and a server that ends between them is
  followed by one that starts the task again: there is a run with one crash in it, in which no request
  arrives, nothing is collected and the task is never deleted, that leads from a state in which
  the task was never started, through the crash, at which its one shim lives and the task is still
  stored as accepted, to a state in which two shims of the task live.
\<close>

theorem crash_starts_a_task_twice:
  "\<exists>sy before sy1 after sy2. reachable sy \<and> starts ''t1'' (sy_machine sy) = 0 \<and>
     sys_run before sy = Some sy1 \<and> starts ''t1'' (sy_machine sy1) = 1 \<and> live_shims sy1 = [ShimOf ''t1''] \<and>
     task_status ''t1'' (mc_repo (sy_machine sy1)) = Some Accepted \<and>
     sys_run (Crash # after) sy1 = Some sy2 \<and> live_shims sy2 = [ShimOf ''t1'', ShimOf ''t1''] \<and>
     list_all uninterrupted (before @ after) \<and> list_all undirected (before @ after) \<and>
     kept_throughout ''t1'' (before @ Crash # after) sy"
proof -
  let ?after = "[Boot second_boot] @ replicate 4 RecoveryStep @ cycle_to_spawn"
  have never: "starts ''t1'' (sy_machine one_task) = 0" by code_simp
  have first: "ends_in (\<lambda>sy1. starts ''t1'' (sy_machine sy1) = 1 \<and> live_shims sy1 = [ShimOf ''t1''] \<and>
      task_status ''t1'' (mc_repo (sy_machine sy1)) = Some Accepted) (sys_run cycle_to_spawn one_task)"
    by code_simp
  have second: "ends_in (\<lambda>sy2. live_shims sy2 = [ShimOf ''t1'', ShimOf ''t1'']) (sys_run crash_run one_task)"
    by code_simp
  have kept: "kept_throughout ''t1'' (cycle_to_spawn @ Crash # ?after) one_task" by code_simp
  have events: "list_all uninterrupted (cycle_to_spawn @ ?after)" "list_all undirected (cycle_to_spawn @ ?after)"
    by (simp_all add: cycle_to_spawn_def uninterrupted_def undirected_def list_all_iff)
  from first obtain sy1 where sy1: "sys_run cycle_to_spawn one_task = Some sy1" "starts ''t1'' (sy_machine sy1) = 1"
      "live_shims sy1 = [ShimOf ''t1'']" "task_status ''t1'' (mc_repo (sy_machine sy1)) = Some Accepted"
    by (auto simp: ends_in_def split: option.splits)
  have "sys_run crash_run one_task = sys_run (Crash # ?after) sy1"
    using sys_run_append [of cycle_to_spawn "Crash # ?after" one_task] sy1(1) by (simp add: crash_run_def del: sys_run.simps)
  with second obtain sy2 where "sys_run (Crash # ?after) sy1 = Some sy2" "live_shims sy2 = [ShimOf ''t1'', ShimOf ''t1'']"
    by (auto simp: ends_in_def simp del: sys_run.simps split: option.splits)
  with one_task_reachable never sy1 kept events show ?thesis by blast
qed

subsection \<open>A queue beyond its bound\<close>

text \<open>What a submission does once the queue was found to have room.\<close>

lemma prepare_without_faults: "snd (prepare_task_files (\<lambda>_. None) n fs) = Inr ()"
proof -
  have dir: "snd (create_dir_all (\<lambda>_. None) p fs) = Inr ()" for p fs
    by (simp add: create_dir_all_def access_def)
  then have parent: "snd (create_parent (\<lambda>_. None) p fs) = Inr ()" for p fs
    by (simp add: create_parent_def split: option.split)
  then show ?thesis
    by (simp add: prepare_task_files_def snd_and_then dir write_request_file_def touch_file_def access_def)
qed

lemma store_alone:
  assumes "sb_faults host = (\<lambda>_. None)" "insert_error n (mc_repo m) = None"
  obtains sx where "run_act (store_program host i n) m = (put_service sx m,
      ((), Inr \<lparr>sr_task_id = i, sr_handle_id = i, sr_status = Accepted\<rparr>))"
    "stored_repo sx = inserted n (sb_insert_clock host) (mc_repo m)"
    "sx_escalations sx = sx_escalations (mc_service m)"
proof -
  have stored: "insert_task n (sb_insert_clock host) (mc_repo m) = (inserted n (sb_insert_clock host) (mc_repo m), Inr ())"
    by (simp add: insert_task_eq assms(2))
  obtain sx1 where 1: "in_service (on_files (prepare_task_files (\<lambda>_. None) n)) (mc_service m) = (sx1, Inr ())"
    by (metis in_service_fields(5) on_files_fields(2) prepare_without_faults prod.collapse)
  have sx1: "stored_repo sx1 = mc_repo m" "sx_escalations sx1 = sx_escalations (mc_service m)"
    using in_service_fields(2,4) [of "on_files (prepare_task_files (\<lambda>_. None) n)" "mc_service m"] by (simp_all add: 1)
  obtain sx2 where 2: "in_service (on_repo (insert_task n (sb_insert_clock host))) sx1 = (sx2, Inr ())"
    by (metis in_service_fields(5) snd_on_repo sx1(1) stored snd_conv prod.collapse)
  have sx2: "stored_repo sx2 = inserted n (sb_insert_clock host) (mc_repo m)" "sx_escalations sx2 = sx_escalations sx1"
    using in_service_fields(2,4) [of "on_repo (insert_task n (sb_insert_clock host))" sx1] by (simp_all add: 2 sx1 stored)
  have "run_act (store_program host i n) m = (put_service (notify_dispatcher sx2) m,
      ((), Inr \<lparr>sr_task_id = i, sr_handle_id = i, sr_status = Accepted\<rparr>))"
    by (simp add: store_program_def service_runs assms(1) 1 2)
  then show thesis
    by (rule that) (simp_all add: sx1 sx2, simp add: notify_dispatcher_def sx1 sx2)
qed

text \<open>A submission after its check of the queue.\<close>

definition checked_thread :: "NewTaskRecord \<Rightarrow> thread" where
  "checked_thread n =
     (Request, act_bind (act_bind (store_program sample_submit_host (nt_task_id n) n)
        (\<lambda>(_, r). Return ((), json_reply RSubmitted r))) (\<lambda>(_, reply). Return (Some reply)))"

text \<open>What a submission under a bound of one task is: its check, then the files and the row.\<close>

definition stores_after_check :: "string \<Rightarrow> NewTaskRecord \<Rightarrow> bool" where
  "stores_after_check i n \<longleftrightarrow>
     nt_task_id n = i \<and> insert_error n empty_repo = None \<and>
     serve_program (sample_runtime 1) sample_serve_host (submission i) =
       act_bind (act_then (on_service (\<lambda>sx. (sx, Inr (count_accepted (stored_repo sx)))) ()) (\<lambda>queued _.
           if 1 \<le> queued then Return ((), Inl QueueFull) else store_program sample_submit_host i n))
         (\<lambda>(_, r). Return ((), json_reply RSubmitted r))"

lemma submission_checked:
  assumes "i = ''a'' \<or> i = ''b''"
  shows "\<exists>n. stores_after_check i n"
proof -
  let ?rt = "sample_runtime 1"
  let ?check = "check_submission (rt_settings ?rt) (rt_ledger ?rt) (rt_capabilities ?rt) (small_request i)"
  let ?ws = "resolve_workspace_dir (path_join (se_tasks_dir (rt_settings ?rt)) i) default_sandbox_policy"
  have "is_ok ?check \<and> is_ok ?ws" using assms by (elim disjE; hypsubst; code_simp)
  then obtain plan ws where ok: "?check = Inr plan" "?ws = Inr ws" by (auto simp: is_ok_conv)
  let ?n = "new_task_record (rt_settings ?rt) i (small_request i) plan ws"
  have i: "unwrap_or (rq_task_id (small_request i)) g = i" "rq_sandbox (small_request i) = default_sandbox_policy" for g
    by (simp_all add: small_request_def)
  have limit: "se_max_queued_tasks (rt_settings ?rt) = 1" by (simp add: sample_runtime_def)
  have "build_router [''api'', ''v1'', ''tasks''] = Some (Post, CreateTask)" by (simp add: build_router_def)
  then have "serve_program ?rt sample_serve_host (submission i) =
      act_bind (submit_program (rt_settings ?rt) (rt_ledger ?rt) (rt_capabilities ?rt) sample_submit_host (small_request i))
        (\<lambda>(_, r). Return ((), json_reply RSubmitted r))"
    by (simp add: serve_program_def submission_def handle_program_def sample_serve_host_def)
  moreover have "nt_task_id ?n = i" by (simp add: new_task_record_def Let_def)
  moreover have "insert_error ?n empty_repo = None"
    by (simp add: insert_error_def new_task_record_def Let_def small_request_def i64_max_def empty_repo_def task_ids_def)
  ultimately have "stores_after_check i ?n"
    by (simp add: stores_after_check_def submit_program_def ok i limit Let_def cong: if_cong)
  then show ?thesis ..
qed

text \<open>A submission that arrives while the queue is empty, up to its check.\<close>

lemma run_to_check:
  assumes "sy_phase sy = Serving (sample_runtime 1) d" "mc_repo (sy_machine sy) = empty_repo"
    and "stores_after_check i n"
  shows "sys_run [Arrival sample_serve_host (submission i), ThreadStep (length (sy_threads sy))] sy =
    Some (sy\<lparr>sy_threads := sy_threads sy @ [checked_thread n]\<rparr>)"
proof -
  note i = assms(3) [unfolded stores_after_check_def, THEN conjunct1]
    and program = assms(3) [unfolded stores_after_check_def, THEN conjunct2, THEN conjunct2]
  let ?t = "request_thread (sample_runtime 1) sample_serve_host (submission i)"
  let ?sy = "sy\<lparr>sy_threads := sy_threads sy @ [?t]\<rparr>"
  have zero: "count_accepted empty_repo = 0"
    by (simp add: count_accepted_def count_by_status_def empty_repo_def)
  have arrives: "sys_step (Arrival sample_serve_host (submission i)) sy = Some ?sy"
    by (simp add: assms(1))
  have "sys_step (ThreadStep (length (sy_threads sy))) ?sy =
      Some (sy\<lparr>sy_threads := sy_threads sy @ [checked_thread n]\<rparr>)"
    by (simp only: sys_step.simps thread_step_def request_thread_def program)
      (simp add: act_then_def on_service_def focus_def serving.put_get assms(2) zero checked_thread_def i
        new_escalations_def)
  with arrives show ?thesis by (simp del: sys_step.simps)
qed

lemma count_accepted_inserted:
  "insert_error n s = None \<Longrightarrow> count_accepted (inserted n clk s) = count_accepted s + 1"
  using inserted_record(2) [of n clk s "inserted n clk s"] by (simp add: insert_task_eq)

text \<open>The rest of it, while the others wait.\<close>

lemma run_to_store:
  assumes "n < length (sy_threads sy)" "sy_threads sy ! n = checked_thread t"
    and "insert_error t (mc_repo (sy_machine sy)) = None"
  obtains k sy' reply where "sys_run (replicate k (ThreadStep n)) sy = Some sy'" "sy_phase sy' = sy_phase sy"
    "sy_threads sy' = (sy_threads sy)[n := (Request, Return (Some reply))]" "hp_status reply = 200"
    "mc_repo (sy_machine sy') = inserted t (sb_insert_clock sample_submit_host) (mc_repo (sy_machine sy))"
proof -
  let ?p = "snd (checked_thread t)" and ?m = "sy_machine sy"
  have no_faults: "sb_faults sample_submit_host = (\<lambda>_. None)" by (simp add: sample_submit_host_def)
  obtain sx where run: "run_act (store_program sample_submit_host (nt_task_id t) t) ?m = (put_service sx ?m,
        ((), Inr \<lparr>sr_task_id = nt_task_id t, sr_handle_id = nt_task_id t, sr_status = Accepted\<rparr>))"
    and sx: "stored_repo sx = inserted t (sb_insert_clock sample_submit_host) (mc_repo ?m)"
      "sx_escalations sx = sx_escalations (mc_service ?m)"
    by (rule store_alone [OF no_faults assms(3)])
  let ?reply = "json_reply RSubmitted
    (Inr \<lparr>sr_task_id = nt_task_id t, sr_handle_id = nt_task_id t, sr_status = Accepted\<rparr>)"
  have ran: "run_act ?p ?m = (put_service sx ?m, Some ?reply)" and reply: "hp_status ?reply = 200"
    by (simp_all add: checked_thread_def run_act_bind run) (simp add: json_reply_def)
  have "acts grows (store_program sample_submit_host (nt_task_id t) t)"
    by (auto simp: store_program_def notify_dispatcher_def intro!: acts_then acts_grows_service)
  then have "acts grows ?p" by (auto simp: checked_thread_def intro!: acts_bind)
  moreover have "sy_threads sy ! n = (Request, ?p)" by (simp add: assms(2) checked_thread_def)
  moreover have "sx_escalations (mc_service (put_service sx ?m)) = sx_escalations (mc_service ?m)"
    by (simp add: put_service_def sx)
  ultimately obtain k where "sys_run (replicate k (ThreadStep n)) sy =
      Some (sy\<lparr>sy_machine := put_service sx ?m, sy_threads := (sy_threads sy)[n := (Request, Return (Some ?reply))]\<rparr>)"
    using run_alone [OF assms(1) _ _ ran] by blast
  then show thesis by (rule that [OF _ _ _ reply]) (simp_all add: put_service_def sx)
qed

lemma serving_on_fields:
  "sy_phase (serving_on q) = Serving (sample_runtime q) None"
  "sy_threads (serving_on q) = []"
  "mc_repo (sy_machine (serving_on q)) = empty_repo"
  by (simp_all add: serving_on_def installed_def put_service_def)

text \<open>The events of two requests that are served while nothing else happens.\<close>

definition serves_only :: "http_request list \<Rightarrow> system_event list \<Rightarrow> bool" where
  "serves_only requests es \<longleftrightarrow>
     list_all (\<lambda>e. case e of Arrival _ _ \<Rightarrow> True | ThreadStep _ \<Rightarrow> True | _ \<Rightarrow> False) es \<and>
     concat (map (\<lambda>e. case e of Arrival _ request \<Rightarrow> [request] | _ \<Rightarrow> []) es) = requests"

text \<open>
  C9: The bound of the queue is checked in one transaction and the task is stored in another: there
  is a run, from a server whose queue is empty and has room for one task, in which two submissions
  arrive and nothing happens but their steps, at the end of which both are answered with success and
  two tasks wait.
\<close>

theorem concurrent_submissions_pass_the_bound:
  "\<exists>sy rt es sy' r1 r2. reachable sy \<and> sy_phase sy = Serving rt None \<and> sy_threads sy = [] \<and>
     count_accepted (mc_repo (sy_machine sy)) = 0 \<and> unat (se_max_queued_tasks (rt_settings rt)) = 1 \<and>
     serves_only [submission ''a'', submission ''b''] es \<and> sys_run es sy = Some sy' \<and>
     sy_threads sy' = [(Request, Return (Some r1)), (Request, Return (Some r2))] \<and>
     hp_status r1 = 200 \<and> hp_status r2 = 200 \<and> count_accepted (mc_repo (sy_machine sy')) = 2"
proof -
  let ?sy0 = "serving_on 1"
  obtain na where a: "stores_after_check ''a'' na" using submission_checked [OF disjI1 [OF refl]] by (rule exE)
  obtain nb where b: "stores_after_check ''b'' nb" using submission_checked [OF disjI2 [OF refl]] by (rule exE)
  let ?sy1 = "?sy0\<lparr>sy_threads := [checked_thread na]\<rparr>"
  let ?sy2 = "?sy0\<lparr>sy_threads := [checked_thread na, checked_thread nb]\<rparr>"
  let ?arrive = "\<lambda>i n. [Arrival sample_serve_host (submission i), ThreadStep n]"
  have r1: "sys_run (?arrive ''a'' 0) ?sy0 = Some ?sy1"
    using run_to_check [OF serving_on_fields(1,3) a] by (simp add: serving_on_fields del: sys_run.simps)
  have r2: "sys_run (?arrive ''b'' 1) ?sy1 = Some ?sy2"
    using run_to_check [of ?sy1 None, OF _ _ b] by (simp add: serving_on_fields del: sys_run.simps)
  let ?clk = "sb_insert_clock sample_submit_host"
  obtain k sy3 reply where r3: "sys_run (replicate k (ThreadStep 0)) ?sy2 = Some sy3"
      "sy_threads sy3 = [(Request, Return (Some reply)), checked_thread nb]" "hp_status reply = 200"
      "mc_repo (sy_machine sy3) = inserted na ?clk empty_repo"
    by (rule run_to_store [of 0 ?sy2 na]) (use a in \<open>simp_all add: serving_on_fields stores_after_check_def\<close>)
  have free: "insert_error nb (mc_repo (sy_machine sy3)) = None"
    using a b by (auto simp: r3 stores_after_check_def insert_error_def task_ids_def rp_tasks_inserted new_row_def split: if_splits)
  obtain l sy4 reply' where r4: "sys_run (replicate l (ThreadStep 1)) sy3 = Some sy4"
      "sy_threads sy4 = [(Request, Return (Some reply)), (Request, Return (Some reply'))]" "hp_status reply' = 200"
      "mc_repo (sy_machine sy4) = inserted nb ?clk (inserted na ?clk empty_repo)"
    by (rule run_to_store [of 1 sy3 nb]) (use free in \<open>simp_all add: r3\<close>)
  let ?es = "?arrive ''a'' 0 @ ?arrive ''b'' 1 @ replicate k (ThreadStep 0) @ replicate l (ThreadStep 1)"
  have run: "sys_run ?es ?sy0 = Some sy4"
    by (simp only: sys_run_append r1 r2 r3(1) r4(1) bind.bind_lunit)
  have two: "count_accepted (mc_repo (sy_machine sy4)) = 2"
    using a free by (simp add: r3 r4 stores_after_check_def count_accepted_inserted) (simp add: count_accepted_def count_by_status_def empty_repo_def)
  have none: "count_accepted (mc_repo (sy_machine ?sy0)) = 0"
    by (simp add: serving_on_fields count_accepted_def count_by_status_def empty_repo_def)
  have limit: "unat (se_max_queued_tasks (rt_settings (sample_runtime 1))) = 1" by (simp add: sample_runtime_def)
  have only: "serves_only [submission ''a'', submission ''b''] ?es"
    by (simp add: serves_only_def map_replicate_const) (simp add: list_all_iff)
  show ?thesis
    using serving_reachable [of 1] serving_on_fields(1,2) [of 1] none limit only run r4(2) r3(3) r4(3) two by blast
qed

end
