(* ===== verification/Task_Life.thy ===== *)
theory Task_Life
  imports Submission Shim_Outcome Lifecycle
begin

section \<open>Task life: from the submission to the outcome\<close>

text \<open>
  The components together: a task is submitted to an idle service, started by the next cycle of the
  dispatcher and supervised by its shim, until its process ends by itself; afterwards its outcome is
  stored and the service is idle again.
\<close>

subsection \<open>A host on which the process starts\<close>

definition starts_processes :: "shim_host \<Rightarrow> u32 \<Rightarrow> bool" where
  "starts_processes host pid =
     (sh_faults host = (\<lambda>_. None) \<and> sh_cgroup_faults host = (\<lambda>_. None) \<and> sh_fork host = Inr pid \<and>
      sh_call_fails host = (\<lambda>_. None) \<and> sh_exec_error host = None)"

text \<open>The command is the one the request asks for.\<close>

definition runs_request :: "SubmitTaskRequest \<Rightarrow> command \<Rightarrow> bool" where
  "runs_request request command =
     (let e = rq_execution request
      in case es_kind e of
           Command \<Rightarrow> Some (cm_program command) = es_program e \<and> cm_args command = es_args e
         | Script \<Rightarrow>
             (case es_interpreter e of
                Some words \<Rightarrow> (\<exists>path. cm_program command # cm_args command = words @ [path])
              | None \<Rightarrow>
                  cm_program command = ''/bin/sh'' \<and>
                  Some (cm_args command) = map_option (\<lambda>script. [''-c'', script]) (es_script e)))"

lemma without_faults:
  "access (\<lambda>_. None) path effect fs = (effect fs, Inr ())"
  "\<exists>fs'. create_parent (\<lambda>_. None) path fs = (fs', Inr ())"
  "\<exists>fs'. create_dir_all (\<lambda>_. None) path fs = (fs', Inr ())"
  by (simp_all add: access_def create_parent_def create_dir_all_def split: option.split)

lemma run_calls_succeed: "snd (run_calls (\<lambda>_. None) calls) = None"
  by (induction calls) (auto split: prod.split)

lemma setup_cgroup_succeeds:
  "\<exists>ws. setup_cgroup (\<lambda>_. None) cgroup_root i pid e = (ws, Inr (path_join cgroup_root i))"
  by (simp add: setup_cgroup_def Let_def split: option.split bool.split)

lemma build_command_runs:
  assumes "validate_execution (tr_execution task) = Inr ()" "tr_execution task = rq_execution request"
  shows "\<exists>fs' command path.
    build_command (\<lambda>_. None) environ task fs = (fs', Inr (Some (command, path))) \<and> runs_request request command"
proof -
  obtain fs1 where created: "create_dir_all (\<lambda>_. None) (tr_workspace_dir task) fs = (fs1, Inr ())"
    using without_faults(3) by blast
  have script: "\<exists>fs'. write_script_file (\<lambda>_. None) path script fs1 = (fs', Inr ())" for path script
    using without_faults(2) [of path fs1]
    by (auto simp: write_script_file_def without_faults(1))
  note e = validated_execution [OF assms(1)]
  show ?thesis
  proof (cases "es_kind (tr_execution task)")
    case Command
    with e(1) show ?thesis
      by (auto simp: build_command_def created Let_def runs_request_def assms(2) [symmetric])
  next
    case Script
    obtain body where body: "es_script (tr_execution task) = Some body" using e(2) [OF Script] by auto
    let ?path = "unwrap_or (tr_script_path task) (path_join (tr_task_dir task) ''script.sh'')"
    obtain fs' where "write_script_file (\<lambda>_. None) ?path body fs1 = (fs', Inr ())" using script by blast
    with e(3) [OF Script] show ?thesis
      by (auto simp: build_command_def created Script body Let_def runs_request_def assms(2) [symmetric])
  qed
qed

lemma open_output_file_runs: "\<exists>fs'. open_output_file (\<lambda>_. None) path fs = (fs', Inr ())"
  using without_faults(2) [of path fs] by (auto simp: open_output_file_def without_faults(1))

lemma in_shim_files:
  "g (wd_files (sm_world sm)) = (fs, r) \<Longrightarrow>
   in_shim (on_files g) sm = (sm\<lparr>sm_world := (sm_world sm)\<lparr>wd_files := fs\<rparr>\<rparr>, r)"
  by (simp add: in_shim_def on_files_def)

lemma spawn_runs:
  assumes "starts_processes host pid" "validate_execution (tr_execution task) = Inr ()"
    and "tr_execution task = rq_execution request"
  obtains sm' command spawned where
    "spawn_task_process host task plan cgroup_root sm = (sm', Inr (Some spawned))"
    "wd_repo (sm_world sm') = wd_repo (sm_world sm)" "sm_signals sm' = sm_signals sm"
    "sm_started sm' = sm_started sm @ [(pid, command)]" "runs_request request command"
    "sp_pid spawned = pid" "sp_pgid spawned = pid_as_i32 pid"
    "sp_cgroup_dir spawned \<in> {None, Some (path_join cgroup_root (tr_task_id task))}"
proof -
  have host: "sh_faults host = (\<lambda>_. None)" "sh_cgroup_faults host = (\<lambda>_. None)" "spawn_child host plan = Inr pid"
    using assms(1) by (simp_all add: starts_processes_def spawn_child_def run_calls_succeed)
  let ?fs = "wd_files (sm_world sm)"
  obtain fs1 where fs1: "open_output_file (\<lambda>_. None) (tr_stdout_path task) ?fs = (fs1, Inr ())"
    using open_output_file_runs by blast
  obtain fs2 where fs2: "open_output_file (\<lambda>_. None) (tr_stderr_path task) fs1 = (fs2, Inr ())"
    using open_output_file_runs by blast
  obtain fs3 command path where
      fs3: "build_command (\<lambda>_. None) (sh_environ host) task fs2 = (fs3, Inr (Some (command, path)))"
      "runs_request request command"
    using build_command_runs [OF assms(2,3)] by blast
  obtain ws where ws: "setup_cgroup (\<lambda>_. None) cgroup_root (tr_task_id task) (pid_as_i32 pid)
      (pl_resource_enforcement plan) = (ws, Inr (path_join cgroup_root (tr_task_id task)))"
    using setup_cgroup_succeeds by blast
  let ?dir = "if ep_cgroup_enforced (pl_resource_enforcement plan)
    then Some (path_join cgroup_root (tr_task_id task)) else None"
  let ?sm = "sm\<lparr>sm_world := (sm_world sm)\<lparr>wd_files := fs3\<rparr>, sm_started := sm_started sm @ [(pid, command)],
    sm_cgroup := if ep_cgroup_enforced (pl_resource_enforcement plan) then sm_cgroup sm @ ws else sm_cgroup sm\<rparr>"
  have "spawn_task_process host task plan cgroup_root sm =
      (?sm, Inr (Some \<lparr>sp_pid = pid, sp_pgid = pid_as_i32 pid, sp_script_path = path, sp_cgroup_dir = ?dir\<rparr>))"
    by (simp add: spawn_task_process_def host in_shim_files fs1 fs2 fs3(1) ws Let_def)
  from that [OF this] fs3(2) show thesis by simp
qed

subsection \<open>A quiet supervision\<close>

text \<open>Ticks before the wall time, while nothing else happens to the task, change nothing.\<close>

definition early_ticks :: "u64 \<Rightarrow> nat \<Rightarrow> supervision_event list \<Rightarrow> bool" where
  "early_ticks wall_ms start =
     list_all (\<lambda>e. case e of Tick now _ \<Rightarrow> \<not> elapsed_at_least wall_ms (now 0) start | _ \<Rightarrow> False)"

lemma early_tick:
  assumes "is_cancel_requested (wa_task_id w) (wd_repo (sm_world sm)) = Inr False"
    and "\<not> elapsed_at_least (wa_wall_ms w) (now 0) (wa_start w)"
  shows "supervise_tick w now clk (watched sm) = (watched sm, Inr ())"
  using assms
  by (simp add: supervise_tick_def watched_def notice_timeout_def notice_cancel_def terminate_group_def
      kill_group_def should_escalate_def)

lemma quiet_supervision:
  assumes "is_cancel_requested (wa_task_id w) (wd_repo (sm_world sm)) = Inr False"
    and "early_ticks (wa_wall_ms w) (wa_start w) quiet"
  shows "supervise_wait w (quiet @ [WaitDone (Inr (Inr usage)) now utc read]) (watched sm) =
    (watched sm, Inr (Some (classify_completion read utc usage (of_nat ((now - wa_start w) div 1000000))
       False False (wa_cgroup_dir w))))"
  using assms(2)
proof (induction quiet)
  case Nil
  then show ?case using assms(1) by (simp add: supervise_exit_def) (simp add: watched_def)
next
  case (Cons e es)
  then show ?case by (cases e) (simp_all add: early_ticks_def early_tick [OF assms(1)])
qed

lemma of_nat_duration_fits:
  assumes "n < 2 ^ 63"
  shows "duration_fits (Some (of_nat n))"
proof -
  have "uint (of_nat n :: u64) \<le> i64_max"
    using assms by (simp add: i64_max_def unsigned_of_nat take_bit_nat_eq_self uint_nat)
  then show ?thesis by (simp add: duration_fits_def)
qed

subsection \<open>The rows of the other tasks\<close>

text \<open>A service is idle when no task waits or holds a reservation.\<close>

definition row_idle :: "task_row \<Rightarrow> bool" where
  "row_idle r = (c_status r \<noteq> ''accepted'' \<and> \<not> row_reserved r)"

lemma idle_rows:
  "(count_accepted s = 0 \<and> list_active_reservations s = Inr []) = list_all row_idle (rp_tasks s)"
proof -
  have "list_active_reservations s = Inr [] \<longleftrightarrow> filter row_reserved (rp_tasks s) = []"
    by (simp add: list_active_reservations_def map_res_Nil_iff) (metis length_sort list.size(3) length_0_conv)
  then show ?thesis
    by (auto simp: count_accepted_def count_by_status_def filter_empty_conv list_all_iff row_idle_def)
qed

lemma idle_found:
  assumes "repo_ok s"
  shows "list_all row_idle (rp_tasks s) = (\<forall>i r. find_row i s = Some r \<longrightarrow> row_idle r)"
proof
  assume "list_all row_idle (rp_tasks s)"
  then show "\<forall>i r. find_row i s = Some r \<longrightarrow> row_idle r"
    by (auto simp: list_all_iff dest: find_row_Some)
next
  assume found: "\<forall>i r. find_row i s = Some r \<longrightarrow> row_idle r"
  have "find_row (c_task_id r) s = Some r" if "r \<in> set (rp_tasks s)" for r
    using find_row_mem [OF assms that] .
  with found show "list_all row_idle (rp_tasks s)" by (auto simp: list_all_iff)
qed

lemma idle_again:
  assumes "repo_ok s" "repo_ok t" "list_all row_idle (rp_tasks s)"
    and "\<And>j. j \<noteq> i \<Longrightarrow> find_row j t = find_row j s" "\<And>r. find_row i t = Some r \<Longrightarrow> row_idle r"
  shows "list_all row_idle (rp_tasks t)"
  using assms(3) unfolding idle_found [OF assms(1)] idle_found [OF assms(2)] using assms(4,5) by metis

subsection \<open>The rows of the task\<close>

text \<open>The record that the shim of a new task reads, and the one after its process has started.\<close>

lemma dispatched_record:
  "\<exists>task. row_to_task_record (dispatched_row shim_pid t2 (reserved_row rv t1 (new_row n t0))) = Inr task \<and>
     tr_task_id task = nt_task_id n \<and> tr_status task = Running \<and> \<not> tr_kill_requested task \<and>
     tr_execution task = rq_execution (nt_request n) \<and> tr_execution_plan task = Some (nt_execution_plan n)"
  by (cases "nt_control_context n")
    (simp_all add: row_to_task_record_def new_row_def dispatched_row_def reserved_row_def status.dec_enc
      decode_status_def)

lemma started_record:
  "\<exists>task. row_to_task_record
       (started_row p pg sp t3 (dispatched_row shim_pid t2 (reserved_row rv t1 (new_row n t0)))) = Inr task \<and>
     tr_task_id task = nt_task_id n"
  by (cases "nt_control_context n")
    (simp_all add: row_to_task_record_def new_row_def dispatched_row_def reserved_row_def started_row_def
      status.dec_enc decode_status_def)

subsection \<open>The run of the shim\<close>

text \<open>What is known of the task after its process ended by itself with \<open>usage\<close>.\<close>

definition ended_with :: "WaitUsage \<Rightarrow> bool \<Rightarrow> TaskRecord \<Rightarrow> bool" where
  "ended_with usage oom task =
     ((tr_status task, tr_error task) = completion_outcome usage False False oom \<and>
      tr_exit_code task = wu_exit_code usage \<and> tr_exit_signal task = wu_exit_signal usage)"

lemma finish_task_outcome:
  assumes "sh_faults host = (\<lambda>_. None)" "get_task i (wd_repo (sm_world sm)) = Inr task"
    and "duration_fits (Some d)"
    and "u = classify_completion read utc usage d False False dir"
  obtains task' where "snd (finish_task host i u sm) = Inr Returned"
    "get_task i (wd_repo (sm_world (fst (finish_task host i u sm)))) = Inr task'"
    "ended_with usage (oom_killed read dir) task'" "\<not> has_active_reservation task'"
    "is_terminal (tr_status task')"
proof -
  have u: "is_terminal (cu_status u)" "cu_duration_ms u = Some d" "cu_exit_code u = wu_exit_code usage"
    "cu_exit_signal u = wu_exit_signal usage"
    "(cu_status u, cu_error u) = completion_outcome usage False False (oom_killed read dir)"
    using completion_outcome_terminal [of usage False False "oom_killed read dir"]
    by (auto simp: assms(4) classify_completion_def split: prod.split)
  have fits: "duration_fits (cu_duration_ms u)" using assms(3) by (simp add: u)
  have "is_ok (get_task i (wd_repo (sm_world sm)))" by (simp add: assms(2))
  from finish_task_ends [OF this u(1) fits, of host] have "snd (finish_task host i u sm) = Inr Returned"
    by (simp add: ends_task_def assms(1))
  moreover obtain task' where
      "get_task i (fst (complete_task i u (sh_complete_clock host) (wd_repo (sm_world sm)))) = Inr task'"
      "tr_status task' = cu_status u" "tr_exit_code task' = cu_exit_code u"
      "tr_exit_signal task' = cu_exit_signal u" "tr_error task' = cu_error u" "\<not> has_active_reservation task'"
    using complete_task_record [OF assms(2) fits, of "sh_complete_clock host"] by auto
  ultimately show thesis
    using that u by (simp add: finish_task_repo ended_with_def)
qed

lemma shim_run:
  assumes "repo_ok (wd_repo (sm_world sm))"
    and "find_row (nt_task_id n) (wd_repo (sm_world sm)) =
           Some (dispatched_row shim_pid t2 (reserved_row rv t1 (new_row n t0)))"
    and "validate_execution (rq_execution (nt_request n)) = Inr ()" "starts_processes host pid"
    and "ia_task_id args = nt_task_id n"
    and "early_ticks (ep_wall_time_ms (pl_resource_enforcement (nt_execution_plan n))) (sh_start host) quiet"
    and "(now - sh_start host) div 1000000 < 2 ^ 63"
  obtains sm' task command dir pgid path u where
    "run_internal_shim host args (quiet @ [WaitDone (Inr (Inr usage)) now utc read]) sm = (sm', Inr Returned)"
    "sm_started sm' = sm_started sm @ [(pid, command)]" "runs_request (nt_request n) command"
    "sm_signals sm' = sm_signals sm"
    "get_task (nt_task_id n) (wd_repo (sm_world sm')) = Inr task"
    "ended_with usage (oom_killed read dir) task" "\<not> has_active_reservation task" "is_terminal (tr_status task)"
    "dir \<in> {None, Some (path_join (ia_cgroup_root args) (nt_task_id n))}"
    "wd_repo (sm_world sm') =
       run_op (OpComplete (nt_task_id n) u, sh_complete_clock host)
         (run_op (OpStarted (nt_task_id n) pid pgid path, sh_started_clock host) (wd_repo (sm_world sm)))"
proof -
  let ?i = "nt_task_id n" and ?s = "wd_repo (sm_world sm)" and ?plan = "nt_execution_plan n"
  let ?row = "dispatched_row shim_pid t2 (reserved_row rv t1 (new_row n t0))"
  obtain task where task: "row_to_task_record ?row = Inr task" "tr_task_id task = ?i" "tr_status task = Running"
      "\<not> tr_kill_requested task" "tr_execution task = rq_execution (nt_request n)"
      "tr_execution_plan task = Some ?plan"
    using dispatched_record by blast
  have get: "get_task ?i ?s = Inr task" by (simp add: get_task_def assms(2) task(1))
  have valid: "validate_execution (tr_execution task) = Inr ()" using assms(3) by (simp add: task(5))
  obtain sm1 command spawned where spawn:
      "spawn_task_process host task ?plan (ia_cgroup_root args) sm = (sm1, Inr (Some spawned))"
      "wd_repo (sm_world sm1) = ?s" "sm_signals sm1 = sm_signals sm"
      "sm_started sm1 = sm_started sm @ [(pid, command)]" "runs_request (nt_request n) command"
      "sp_pid spawned = pid" "sp_pgid spawned = pid_as_i32 pid"
      "sp_cgroup_dir spawned \<in> {None, Some (path_join (ia_cgroup_root args) ?i)}"
    using spawn_runs [OF assms(4) valid task(5), of ?plan "ia_cgroup_root args" sm] by (simp add: task(2)) blast
  let ?start = "mark_started ?i pid (pid_as_i32 pid) (sp_script_path spawned) (sh_started_clock host)"
  let ?row' = "started_row pid (pid_as_i32 pid) (sp_script_path spawned) (sh_started_clock host 0) ?row"
  obtain sm2 where sm2: "in_shim (on_repo ?start) sm1 = (sm2, Inr ())" "wd_repo (sm_world sm2) = fst (?start ?s)"
      "sm_signals sm2 = sm_signals sm1" "sm_started sm2 = sm_started sm1"
    using mark_started_runs [OF assms(1), of ?i pid "pid_as_i32 pid" "sp_script_path spawned" "sh_started_clock host"]
      in_shim_repo(1,2) [of ?start sm1] in_shim_frame [of "on_repo ?start" sm1]
    by (cases "in_shim (on_repo ?start) sm1") (simp add: spawn(2) assms(2))
  have row': "find_row ?i (wd_repo (sm_world sm2)) = Some ?row'"
    by (simp add: sm2(2) rows_mark_started assms(2))
  obtain task2 where task2: "row_to_task_record ?row' = Inr task2" "tr_task_id task2 = ?i"
    using started_record by blast
  have get2: "get_task ?i (wd_repo (sm_world sm2)) = Inr task2"
    by (simp add: get_task_def row' task2(1))
  let ?d = "of_nat ((now - sh_start host) div 1000000) :: u64"
  let ?u = "classify_completion read utc usage ?d False False (sp_cgroup_dir spawned)"
  have cancel: "is_cancel_requested ?i (wd_repo (sm_world sm2)) = Inr False"
    by (simp add: is_cancel_requested_def row' started_row_def dispatched_row_def reserved_row_def new_row_def)
  let ?w = "\<lparr>wa_task_id = ?i, wa_grace_ms = ia_termination_grace_ms args,
    wa_wall_ms = ep_wall_time_ms (pl_resource_enforcement ?plan), wa_pgid = sp_pgid spawned,
    wa_cgroup_dir = sp_cgroup_dir spawned, wa_start = sh_start host\<rparr>"
  have run: "run_internal_shim host args (quiet @ [WaitDone (Inr (Inr usage)) now utc read]) sm =
      finish_task host ?i ?u sm2"
    using quiet_supervision [of ?w sm2 quiet usage now utc read] cancel assms(6)
    by (simp add: run_internal_shim_def assms(5) get task spawn(1) Let_def supervise_spawned_def spawn(6,7)
        sm2(1) get2 task2(2) is_terminal_def) (simp add: watched_def)
  obtain task' where ended: "snd (finish_task host ?i ?u sm2) = Inr Returned"
      "get_task ?i (wd_repo (sm_world (fst (finish_task host ?i ?u sm2)))) = Inr task'"
      "ended_with usage (oom_killed read (sp_cgroup_dir spawned)) task'" "\<not> has_active_reservation task'"
      "is_terminal (tr_status task')"
    using finish_task_outcome [OF _ get2 of_nat_duration_fits [OF assms(7)] refl, of host read utc usage]
      assms(4) by (auto simp: starts_processes_def)
  obtain sm' where sm': "finish_task host ?i ?u sm2 = (sm', Inr Returned)"
    using ended(1) by (cases "finish_task host ?i ?u sm2") simp
  show thesis
  proof (rule that [OF run [unfolded sm'] _ spawn(5)])
    show "sm_started sm' = sm_started sm @ [(pid, command)]" "sm_signals sm' = sm_signals sm"
      using finish_task_frame [of host ?i ?u sm2] by (simp_all add: sm' sm2 spawn)
    show "wd_repo (sm_world sm') = run_op (OpComplete ?i ?u, sh_complete_clock host)
        (run_op (OpStarted ?i pid (pid_as_i32 pid) (sp_script_path spawned), sh_started_clock host) ?s)"
      using finish_task_repo [of host ?i ?u sm2] by (simp add: sm' sm2)
  qed (use ended(2-5) spawn(8) in \<open>simp_all add: sm'\<close>)
qed

subsection \<open>The life of a task\<close>

text \<open>The shim that the dispatcher spawned, on what it finds.\<close>

definition shim_on :: "world \<Rightarrow> shim" where
  "shim_on w = \<lparr>sm_world = w, sm_cgroup = [], sm_started = [], sm_signals = []\<rparr>"

lemma record_row_idle:
  assumes "get_task i s = Inr task" "is_terminal (tr_status task)" "\<not> has_active_reservation task"
    and "find_row i s = Some r"
  shows "row_idle r"
proof -
  have r: "row_to_task_record r = Inr task" using assms(1,4) by (simp add: get_task_def)
  have "c_status r \<noteq> ''accepted''"
    using assms(2) status_column [OF r] by (cases "tr_status task") (simp_all add: is_terminal_def)
  then show ?thesis
    using assms(3) by (simp add: row_idle_def row_reserved_record [OF r])
qed

lemma own_ops_frame:
  assumes "j \<noteq> i" "list_all (\<lambda>c. op_task (fst c) = i) ops"
  shows "same_task j s (fold run_op ops s)"
  using assms(2)
proof (induction ops arbitrary: s)
  case Nil
  then show ?case by (simp add: same_task_def)
next
  case (Cons c ops)
  have "same_task j s (run_op (fst c, snd c) s)"
    by (rule run_op_same_task) (use Cons.prems assms(1) in simp)
  moreover have "same_task j (run_op c s) (fold run_op ops (run_op c s))" using Cons by simp
  ultimately show ?case by (simp add: same_task_def)
qed

text \<open>
  C5: The whole life of a task: a task accepted by an idle runtime is started by the next cycle of the
  dispatcher; its shim starts exactly one process, with the command of the request, signals nothing,
  and once the process has ended by itself before the wall time, it returns and the task reads back
  with the outcome, the exit code and the signal of that process (with an out-of-memory kill as its
  cgroup reports it); the runtime is idle again, and every other stored task reads as before.
\<close>

theorem submitted_task_runs_to_its_outcome:
  assumes "repo_ok (wd_repo (sx_world sx))"
    and "count_accepted (wd_repo (sx_world sx)) = 0" "list_active_reservations (wd_repo (sx_world sx)) = Inr []"
    and "submit_task settings l caps submit request sx = (sx', Inr resp)"
    and "dh_exe (hosts (sr_task_id resp)) = Inr exe" "dh_spawn (hosts (sr_task_id resp)) = Inr shim_pid"
    and "starts_processes host pid" "ia_task_id args = sr_task_id resp"
    and "early_ticks (rl_wall_time_ms (rq_limits request)) (sh_start host) quiet"
    and "(now - sh_start host) div 1000000 < 2 ^ 63"
  shows "let (d, dispatched) = dispatch_once_sync settings l hosts (sx_world sx');
             (sm, ended) = run_internal_shim host args (quiet @ [WaitDone (Inr (Inr usage)) now utc read])
               (shim_on (dp_world d));
             i = sr_task_id resp; t = wd_repo (sm_world sm)
         in dispatched = Inr () \<and> dp_spawned d = [(i, shim_pid, exe # shim_args settings i)] \<and>
            ended = Inr Returned \<and> sm_signals sm = [] \<and>
            (\<exists>command. sm_started sm = [(pid, command)] \<and> runs_request request command) \<and>
            (\<exists>task dir. get_task i t = Inr task \<and> ended_with usage (oom_killed read dir) task \<and>
               dir \<in> {None, Some (path_join (ia_cgroup_root args) i)}) \<and>
            count_accepted t = 0 \<and> list_active_reservations t = Inr [] \<and>
            (\<forall>j. j \<noteq> i \<longrightarrow> get_task j t = get_task j (wd_repo (sx_world sx)))"
proof -
  let ?i = "sr_task_id resp" and ?s = "stored_repo sx"
  obtain plan ws d where sub: "check_submission settings l caps request = Inr plan"
      "insert_task (new_task_record settings ?i request plan ws) (sb_insert_clock submit) ?s = (stored_repo sx', Inr ())"
      "dispatch_once_sync settings l hosts (sx_world sx') = (d, Inr ())"
      "dp_spawned d = [(?i, shim_pid, exe # shim_args settings ?i)]"
      "dp_repo d = run_op (OpDispatched ?i shim_pid, dh_dispatched_clock (hosts ?i))
         (run_op (OpReserve ?i (from_limits (rq_limits request)) ''task resources reserved'',
            dh_reserve_clock (hosts ?i)) (stored_repo sx'))"
    by (rule idle_submission_starts [where hosts = hosts, OF assms(2-6)])
  let ?n = "new_task_record settings ?i request plan ws"
  have n: "nt_task_id ?n = ?i" "nt_request ?n = request" "nt_execution_plan ?n = plan"
    by (simp_all add: new_task_record_def Let_def)
  have valid: "validate_execution (rq_execution (nt_request ?n)) = Inr ()"
    using sub(1) by (auto simp: check_submission_ok n validate_request_def res_bind_eq_Inr)
  have wall: "ep_wall_time_ms (pl_resource_enforcement (nt_execution_plan ?n)) = rl_wall_time_ms (rq_limits request)"
    using sub(1) by (auto simp: n check_submission_ok assemble_plan_def Let_def dest!: resolve_InrD)
  let ?ops = "[(OpInsert ?n, sb_insert_clock submit),
    (OpReserve ?i (from_limits (rq_limits request)) ''task resources reserved'', dh_reserve_clock (hosts ?i)),
    (OpDispatched ?i shim_pid, dh_dispatched_clock (hosts ?i))]"
  have d: "dp_repo d = fold run_op ?ops ?s" using sub(2,5) by simp
  have ok: "repo_ok (fold run_op ops ?s)" for ops
    by (rule repo_sys.fold_inv [OF assms(1)])
  have "insert_error ?n ?s = None" "stored_repo sx' = inserted ?n (sb_insert_clock submit) ?s"
    using sub(2) by (auto simp: insert_task_eq split: option.splits)
  then have "find_row (nt_task_id ?n) (stored_repo sx') = Some (new_row ?n (sb_insert_clock submit 0))"
    by (simp add: find_row_inserted)
  then have row: "find_row (nt_task_id ?n) (wd_repo (sm_world (shim_on (dp_world d)))) =
      Some (dispatched_row shim_pid (dh_dispatched_clock (hosts ?i) 0)
        (reserved_row (from_limits (rq_limits request)) (dh_reserve_clock (hosts ?i) 0)
          (new_row ?n (sb_insert_clock submit 0))))"
    by (simp add: shim_on_def sub(5) n rows_mark_dispatched rows_reserve_resources)
      (simp add: reserved_row_def new_row_def)
  have okd: "repo_ok (wd_repo (sm_world (shim_on (dp_world d))))" using ok [of ?ops] by (simp add: shim_on_def d)
  have args: "ia_task_id args = nt_task_id ?n" by (simp add: n assms(8))
  have early: "early_ticks (ep_wall_time_ms (pl_resource_enforcement (nt_execution_plan ?n))) (sh_start host) quiet"
    unfolding wall by (rule assms(9))
  obtain sm task command dir pgid path u where shim:
      "run_internal_shim host args (quiet @ [WaitDone (Inr (Inr usage)) now utc read]) (shim_on (dp_world d)) =
         (sm, Inr Returned)"
      "sm_started sm = [(pid, command)]" "runs_request request command" "sm_signals sm = []"
      "get_task ?i (wd_repo (sm_world sm)) = Inr task" "ended_with usage (oom_killed read dir) task"
      "\<not> has_active_reservation task" "is_terminal (tr_status task)"
      "dir \<in> {None, Some (path_join (ia_cgroup_root args) ?i)}"
      "wd_repo (sm_world sm) = run_op (OpComplete ?i u, sh_complete_clock host)
         (run_op (OpStarted ?i pid pgid path, sh_started_clock host) (dp_repo d))"
    by (rule shim_run [OF okd row valid assms(7) args early assms(10), of usage utc read])
      (simp_all add: n shim_on_def del: run_op.simps)
  let ?ops' = "?ops @ [(OpStarted ?i pid pgid path, sh_started_clock host), (OpComplete ?i u, sh_complete_clock host)]"
  have t: "wd_repo (sm_world sm) = fold run_op ?ops' ?s" using shim(10) d by simp
  have "list_all (\<lambda>c. op_task (fst c) = ?i) ?ops'" by (simp add: n)
  then have frame: "same_task j ?s (wd_repo (sm_world sm))" if "j \<noteq> ?i" for j
    unfolding t by (rule own_ops_frame [OF that])
  have "list_all row_idle (rp_tasks (wd_repo (sm_world sm)))"
  proof (rule idle_again [OF assms(1)])
    show "repo_ok (wd_repo (sm_world sm))" unfolding t by (rule ok)
    show "list_all row_idle (rp_tasks ?s)" using assms(2,3) idle_rows by blast
  qed (use frame record_row_idle [OF shim(5,8,7)] in \<open>auto simp: same_task_def\<close>)
  then have "count_accepted (wd_repo (sm_world sm)) = 0" "list_active_reservations (wd_repo (sm_world sm)) = Inr []"
    using idle_rows by blast+
  moreover have "get_task j (wd_repo (sm_world sm)) = get_task j ?s" if "j \<noteq> ?i" for j
    using frame [OF that] by (simp add: get_task_def same_task_def)
  ultimately show ?thesis
    using shim(1-6,9) sub(3,4) by (simp add: Let_def) blast
qed

theorem submitted_task_runs_to_its_outcome_witness:
  "let sx = fst (submit_task sample_settings sample_ledger (sample_capabilities True) sample_submit_host
              sample_request sample_service);
       d = fst (dispatch_once_sync sample_settings sample_ledger (\<lambda>_. good_host) (sx_world sx));
       sm = fst (run_internal_shim sample_shim_host sample_shim_args
              ([tick_at 5] @ [WaitDone (Inr (Inr sample_usage)) 4000000 9 (\<lambda>_. None)]) (shim_on (dp_world d)))
   in map fst (sm_started sm) = [78] \<and> count_accepted (wd_repo (sm_world sm)) = 0 \<and>
      (\<exists>task. get_task ''t1'' (wd_repo (sm_world sm)) = Inr task \<and> tr_status task = Success \<and>
         tr_exit_code task = Some 0)"
proof -
  let ?run = "submit_task sample_settings sample_ledger (sample_capabilities True) sample_submit_host
    sample_request sample_service"
  have idle: "repo_ok (wd_repo (sx_world sample_service))"
    "count_accepted (wd_repo (sx_world sample_service)) = 0"
    "list_active_reservations (wd_repo (sx_world sample_service)) = Inr []"
    by code_simp+
  have "snd ?run = Inr \<lparr>sr_task_id = ''t1'', sr_handle_id = ''t1'', sr_status = Accepted\<rparr>"
    by code_simp
  then have run: "?run = (fst ?run, Inr \<lparr>sr_task_id = ''t1'', sr_handle_id = ''t1'', sr_status = Accepted\<rparr>)"
    by (metis prod.collapse)
  have host: "dh_exe good_host = Inr ''x''" "dh_spawn good_host = Inr 77"
    by (simp_all add: good_host_def sample_dispatch_host_def)
  have shim: "starts_processes sample_shim_host 78" "ia_task_id sample_shim_args = ''t1''"
    "(4000000 - sh_start sample_shim_host) div 1000000 < 2 ^ 63"
    by (simp_all add: starts_processes_def sample_shim_host_def sample_shim_args_def)
  have early: "early_ticks (rl_wall_time_ms (rq_limits sample_request)) (sh_start sample_shim_host) [tick_at 5]"
    by (simp add: early_ticks_def tick_at_def elapsed_at_least_def millis_def sample_request_def
        default_resource_limits_def default_wall_time_ms_def sample_shim_host_def)
  have oom: "\<not> oom_killed (\<lambda>_. None) dir" for dir
    by (simp add: oom_killed_def is_some_and_def split: option.split)
  let ?i = "sr_task_id \<lparr>sr_task_id = ''t1'', sr_handle_id = ''t1'', sr_status = Accepted\<rparr>"
  obtain d r where d: "dispatch_once_sync sample_settings sample_ledger (\<lambda>_. good_host) (sx_world (fst ?run)) = (d, r)"
    by (rule prod.exhaust)
  obtain sm e where sm: "run_internal_shim sample_shim_host sample_shim_args
      ([tick_at 5] @ [WaitDone (Inr (Inr sample_usage)) 4000000 9 (\<lambda>_. None)]) (shim_on (dp_world d)) = (sm, e)"
    by (rule prod.exhaust)
  have args: "ia_task_id sample_shim_args = ?i" by (simp only: shim(2) SubmitTaskResponse.simps)
  note life = submitted_task_runs_to_its_outcome [where hosts = "\<lambda>_. good_host" and usage = sample_usage
      and utc = 9 and read = "\<lambda>_. None", OF idle run host shim(1) args early shim(3),
      unfolded d sm Let_def prod.case SubmitTaskResponse.simps]
  obtain command where "sm_started sm = [(78, command)]" using life by (elim conjE exE)
  then have started: "map fst (sm_started sm) = [78]" by simp
  obtain task dir where task: "get_task ''t1'' (wd_repo (sm_world sm)) = Inr task"
      "ended_with sample_usage (oom_killed (\<lambda>_. None) dir) task"
    using life by (elim conjE exE)
  have "tr_status task = Success" "tr_exit_code task = Some 0"
    using task(2) by (simp_all add: ended_with_def completion_outcome_def sample_usage_def oom)
  moreover have "count_accepted (wd_repo (sm_world sm)) = 0" using life by (elim conjE)
  ultimately show ?thesis
    unfolding Let_def d sm fst_conv using started task(1) by (intro conjI exI [of _ task])
qed

end
