(* ===== verification/Unit_Tests.thy ===== *)
theory Unit_Tests
  imports Capabilities
begin

section \<open>Unit tests: the tests of the sources, on the model\<close>

text \<open>
  The functions marked \<open>#[test]\<close> in \<open>ledger.rs\<close>, \<open>policy.rs\<close>, \<open>types.rs\<close>, \<open>runtime.rs\<close> and
  \<open>capabilities.rs\<close>, on the definitions of the model; a test is the conjunction of its assertions.
  What a test takes from its surroundings (the environment, a temporary directory, the clock, the
  answers of the host) is an argument, so that the tests pass in every surrounding.
\<close>

subsection \<open>\<open>src/ledger.rs\<close>\<close>

definition make_ledger_with_quota :: ResourceLedger where
  "make_ledger_with_quota =
     with_tenant_quotas \<lparr>rc_task_slots = 8, rc_memory_bytes = Some 800, rc_pids = Some 64\<rparr>
       (bt_insert ''alice'' \<lparr>rc_task_slots = 2, rc_memory_bytes = Some 200, rc_pids = Some 10\<rparr> [])"

definition detects_capacity_overflow :: bool where
  "detects_capacity_overflow =
     (let ledger = new_ledger \<lparr>rc_task_slots = 2, rc_memory_bytes = Some 100, rc_pids = Some 8\<rparr>;
          reserved = \<lparr>rc_task_slots = 1, rc_memory_bytes = Some 50, rc_pids = Some 2\<rparr>;
          reservation = \<lparr>rv_task_slots = 2, rv_memory_bytes = Some 60, rv_pids = Some 1\<rparr>
      in \<not> can_reserve ledger reserved reservation)"

definition ensure_within_tenant_quota_passes_when_no_quota_configured :: bool where
  "ensure_within_tenant_quota_passes_when_no_quota_configured =
     (let ledger = new_ledger \<lparr>rc_task_slots = 4, rc_memory_bytes = None, rc_pids = None\<rparr>;
          reservation = \<lparr>rv_task_slots = 99, rv_memory_bytes = None, rv_pids = None\<rparr>
      in is_ok (ensure_within_tenant_quota ledger (Some ''bob'') reservation) \<and>
         is_ok (ensure_within_tenant_quota ledger None reservation))"

definition ensure_within_tenant_quota_rejects_over_quota :: bool where
  "ensure_within_tenant_quota_rejects_over_quota =
     (let ledger = make_ledger_with_quota;
          over_slots = \<lparr>rv_task_slots = 3, rv_memory_bytes = None, rv_pids = None\<rparr>;
          over_mem = \<lparr>rv_task_slots = 1, rv_memory_bytes = Some 201, rv_pids = None\<rparr>;
          over_pids = \<lparr>rv_task_slots = 1, rv_memory_bytes = None, rv_pids = Some 11\<rparr>
      in \<not> is_ok (ensure_within_tenant_quota ledger (Some ''alice'') over_slots) \<and>
         \<not> is_ok (ensure_within_tenant_quota ledger (Some ''alice'') over_mem) \<and>
         \<not> is_ok (ensure_within_tenant_quota ledger (Some ''alice'') over_pids))"

definition can_reserve_for_tenant_respects_quota :: bool where
  "can_reserve_for_tenant_respects_quota =
     (let ledger = make_ledger_with_quota;
          tenant_reserved = \<lparr>rc_task_slots = 1, rc_memory_bytes = Some 100, rc_pids = Some 5\<rparr>;
          ok_reservation = \<lparr>rv_task_slots = 1, rv_memory_bytes = Some 100, rv_pids = Some 5\<rparr>;
          over_reservation = \<lparr>rv_task_slots = 2, rv_memory_bytes = Some 1, rv_pids = Some 1\<rparr>
      in can_reserve_for_tenant ledger (Some ''alice'') tenant_reserved ok_reservation \<and>
         \<not> can_reserve_for_tenant ledger (Some ''alice'') tenant_reserved over_reservation \<and>
         can_reserve_for_tenant ledger (Some ''unknown'') tenant_reserved over_reservation)"

subsection \<open>\<open>src/policy.rs\<close>\<close>

definition test_capabilities :: "int \<Rightarrow> bool \<Rightarrow> bool \<Rightarrow> RuntimeCapabilities" where
  "test_capabilities now linux_sandbox cgroup_writable =
     \<lparr>cp_runtime_id = ''test'', cp_snapshot_version = ''v1'', cp_collected_at = now,
      cp_platform = \<lparr>pf_os = ''test'', pf_arch = ''test'', pf_containerized = False, pf_kubernetes = False\<rparr>,
      cp_execution = \<lparr>xc_command = True, xc_script = True, xc_process_group = True\<rparr>,
      cp_sandbox = \<lparr>sc_process = True, sc_linux_sandbox = linux_sandbox, sc_chroot = linux_sandbox,
        sc_namespaces = \<lparr>nc_mount = linux_sandbox, nc_pid = linux_sandbox, nc_uts = linux_sandbox,
          nc_ipc = linux_sandbox, nc_net = linux_sandbox\<rparr>\<rparr>,
      cp_storage = \<lparr>st_data_dir_writable = True\<rparr>,
      cp_resources = \<lparr>rs_rlimit_cpu = True, rs_rlimit_memory = True, rs_cgroup_v2 = cgroup_writable,
        rs_cgroup_writable = cgroup_writable, rs_memory_limit = True, rs_pids_limit = cgroup_writable,
        rs_oom_detection = cgroup_writable, rs_cpu_quota = False, rs_ledger = True,
        rs_capacity = \<lparr>rc_task_slots = 4, rc_memory_bytes = Some 1024, rc_pids = Some 64\<rparr>\<rparr>,
      cp_stable_semantics = [], cp_enhanced_semantics = [], cp_warnings = [], cp_degraded = False, cp_overrides = []\<rparr>"

definition test_request :: SubmitTaskRequest where
  "test_request =
     \<lparr>rq_task_id = None,
      rq_execution = \<lparr>es_kind = Command, es_program = Some ''/bin/echo'', es_args = [''ok''], es_script = None,
        es_interpreter = None, es_env = []\<rparr>,
      rq_limits = default_resource_limits, rq_sandbox = default_sandbox_policy, rq_policy = None,
      rq_control_context = None, rq_metadata = []\<rparr>"

definition process_request_stays_stable :: "int \<Rightarrow> bool" where
  "process_request_stays_stable now =
     (case resolve_execution_plan test_request (test_capabilities now False False) Adaptive of
        Inl _ \<Rightarrow> False
      | Inr plan \<Rightarrow> \<not> pl_degraded plan \<and> sb_profile (pl_effective_sandbox plan) = Process)"

definition sandbox_request :: SubmitTaskRequest where
  "sandbox_request = test_request\<lparr>rq_sandbox := (rq_sandbox test_request)\<lparr>sb_profile := LinuxSandbox\<rparr>\<rparr>"

definition adaptive_linux_sandbox_falls_back :: "int \<Rightarrow> bool" where
  "adaptive_linux_sandbox_falls_back now =
     (case resolve_execution_plan sandbox_request (test_capabilities now False False) Adaptive of
        Inl _ \<Rightarrow> False
      | Inr plan \<Rightarrow> pl_degraded plan \<and> sb_profile (pl_effective_sandbox plan) = Process)"

definition unsupported :: "'a app_result \<Rightarrow> bool" where
  "unsupported r = (case r of Inl (UnsupportedCapability _) \<Rightarrow> True | _ \<Rightarrow> False)"

definition strict_linux_sandbox_rejects :: "int \<Rightarrow> bool" where
  "strict_linux_sandbox_rejects now =
     unsupported (resolve_execution_plan (sandbox_request\<lparr>rq_policy := Some \<lparr>tp_capability_mode = Strict\<rparr>\<rparr>)
       (test_capabilities now False False) Adaptive)"

definition default_control_context :: ControlContext where
  "default_control_context =
     \<lparr>cc_control_plane_mode = None, cc_tenant = None, cc_owner = None, cc_expected_runtime_profile = None,
      cc_requires_strict_sandbox = False, cc_requires_resource_reservation = False, cc_labels = []\<rparr>"

definition control_context_can_enforce_strict_sandbox :: "int \<Rightarrow> bool" where
  "control_context_can_enforce_strict_sandbox now =
     unsupported (resolve_execution_plan
       (sandbox_request\<lparr>rq_control_context := Some (default_control_context\<lparr>cc_requires_strict_sandbox := True\<rparr>)\<rparr>)
       (test_capabilities now False False) Adaptive)"

subsection \<open>\<open>src/types.rs\<close>\<close>

definition validates_command_execution :: bool where
  "validates_command_execution =
     is_ok (validate_execution
       \<lparr>es_kind = Command, es_program = Some ''echo'', es_args = [''ok''], es_script = None, es_interpreter = None,
        es_env = []\<rparr>)"

definition rejects_absolute_workspace_subdir :: bool where
  "rejects_absolute_workspace_subdir =
     (\<not> is_ok (validate_sandbox
        \<lparr>sb_profile = Process, sb_workspace_subdir = Some ''/tmp'', sb_rootfs = None, sb_chroot = False,
         sb_namespaces = None\<rparr>))"

text \<open>The variant marked \<open>#[default]\<close>, and the \<open>Default\<close> derived for a policy, which takes it for its field.\<close>

definition default_capability_mode :: CapabilityMode where
  "default_capability_mode = Adaptive"

definition default_task_policy :: TaskPolicy where
  "default_task_policy = \<lparr>tp_capability_mode = default_capability_mode\<rparr>"

definition default_policy_is_adaptive :: bool where
  "default_policy_is_adaptive = (tp_capability_mode default_task_policy = Adaptive)"

definition legacy_execution_plan_keeps_requested_sandbox :: bool where
  "legacy_execution_plan_keeps_requested_sandbox =
     (let sandbox = \<lparr>sb_profile = LinuxSandbox, sb_workspace_subdir = None, sb_rootfs = None, sb_chroot = False,
            sb_namespaces = Some default_namespace_config\<rparr>;
          plan = legacy_plan sandbox default_resource_limits
      in pl_requested_sandbox plan = sandbox \<and> sb_profile (pl_effective_sandbox plan) = LinuxSandbox)"

subsection \<open>\<open>src/runtime.rs\<close>\<close>

definition minimal_env_keeps_common_keys_and_overrides :: "(string \<Rightarrow> string option) \<Rightarrow> bool" where
  "minimal_env_keeps_common_keys_and_overrides environ =
     (map_of (minimal_env environ [(''FOO'', ''bar'')]) ''FOO'' = Some ''bar'')"

definition finished_task :: "int \<Rightarrow> string \<Rightarrow> TaskRecord" where
  "finished_task now temp =
     \<lparr>tr_task_id = ''t1'', tr_handle_id = ''t1'', tr_status = Success,
      tr_execution = \<lparr>es_kind = Command, es_program = Some ''echo'', es_args = [], es_script = None,
        es_interpreter = None, es_env = []\<rparr>,
      tr_limits = default_resource_limits, tr_sandbox = default_sandbox_policy, tr_metadata = [],
      tr_created_at = now, tr_updated_at = now, tr_started_at = None, tr_finished_at = None,
      tr_duration_ms = Some 1, tr_shim_pid = None, tr_pid = None, tr_pgid = None, tr_exit_code = Some 0,
      tr_exit_signal = None, tr_error_code = None, tr_error = None, tr_usage = None, tr_task_dir = temp,
      tr_workspace_dir = path_join temp ''workspace'', tr_request_path = path_join temp ''request.json'',
      tr_result_path = path_join temp ''result.json'', tr_stdout_path = path_join temp ''stdout.log'',
      tr_stderr_path = path_join temp ''stderr.log'', tr_script_path = None, tr_stdout_max_bytes = 1024,
      tr_stderr_max_bytes = 1024, tr_kill_requested = False, tr_kill_requested_at = None,
      tr_timeout_triggered = False, tr_result_json = None, tr_execution_plan = None, tr_control_context = None,
      tr_reservation = None, tr_reserved_at = None, tr_released_at = None\<rparr>"

definition status_response_reads_inline_output :: "int \<Rightarrow> string \<Rightarrow> bool" where
  "status_response_reads_inline_output now temp =
     (let fs = no_files\<lparr>fl_output := [path_join temp ''stdout.log'' \<mapsto> ''hello world'',
            path_join temp ''stderr.log'' \<mapsto> ''oops'']\<rparr>
      in case build_status_response (\<lambda>_. None) now fs (finished_task now temp) of
           Inl _ \<Rightarrow> False
         | Inr response \<Rightarrow> ts_stdout response = ''hello world'' \<and> ts_stderr response = ''oops'')"

definition infer_script_name_follows_interpreter :: bool where
  "infer_script_name_follows_interpreter =
     (infer_script_name (Some ''python3'') = ''script.py'' \<and> infer_script_name (Some ''bash'') = ''script.sh'')"

subsection \<open>\<open>src/capabilities.rs\<close>\<close>

definition probe_returns_stable_shape :: "probe_host \<Rightarrow> string \<Rightarrow> bool" where
  "probe_returns_stable_shape host temp =
     (let capabilities = probe_runtime_capabilities host
            \<lparr>pi_runtime_id = ''test-runtime'', pi_data_dir = temp, pi_cgroup_root = path_join temp ''cgroup'',
             pi_max_running_tasks = 3, pi_disable_linux_sandbox = True, pi_disable_cgroup = True,
             pi_capacity_memory_bytes = Some 1024, pi_capacity_pids = Some 64\<rparr>
      in cp_runtime_id capabilities = ''test-runtime'' \<and>
         rc_task_slots (rs_capacity (cp_resources capabilities)) = 3 \<and>
         rc_memory_bytes (rs_capacity (cp_resources capabilities)) = Some 1024 \<and>
         \<not> sc_linux_sandbox (cp_sandbox capabilities) \<and>
         map_of (cp_overrides capabilities) ''linux_sandbox'' = Some ''disabled'')"

subsection \<open>The model passes them\<close>

lemma ledger_tests:
  "detects_capacity_overflow \<and> ensure_within_tenant_quota_passes_when_no_quota_configured \<and>
   ensure_within_tenant_quota_rejects_over_quota \<and> can_reserve_for_tenant_respects_quota"
  by (intro conjI; code_simp)

lemma policy_tests:
  "process_request_stays_stable now \<and> adaptive_linux_sandbox_falls_back now \<and> strict_linux_sandbox_rejects now \<and>
   control_context_can_enforce_strict_sandbox now"
  by (intro conjI; code_simp)

lemma types_tests:
  "validates_command_execution \<and> rejects_absolute_workspace_subdir \<and> default_policy_is_adaptive \<and>
   legacy_execution_plan_keeps_requested_sandbox"
  by (intro conjI; code_simp)

lemma output_paths: "path_join temp ''stderr.log'' \<noteq> path_join temp ''stdout.log''"
  by (simp add: path_join_def is_absolute_def)

lemma test_outputs:
  "from_utf8_lossy (take (unat (min 1024 max_read)) ''hello world'') = ''hello world''"
  "from_utf8_lossy (take (unat (min 1024 max_read)) ''oops'') = ''oops''"
  by code_simp+

lemma runtime_tests:
  "minimal_env_keeps_common_keys_and_overrides environ \<and> status_response_reads_inline_output now temp \<and>
   infer_script_name_follows_interpreter"
proof (intro conjI)
  show "minimal_env_keeps_common_keys_and_overrides environ"
    by (simp add: minimal_env_keeps_common_keys_and_overrides_def minimal_env_def map_of_bt_insert)
  show "status_response_reads_inline_output now temp"
    using output_paths [of temp] test_outputs
    by (simp add: status_response_reads_inline_output_def build_status_response_def finished_task_def
        read_output_preview_def access_def Let_def)
  show infer_script_name_follows_interpreter by code_simp
qed

lemma capabilities_tests: "probe_returns_stable_shape host temp"
  by (simp add: probe_returns_stable_shape_def probe_runtime_capabilities_def probe_overrides_def Let_def map_of_bt_insert)

text \<open>
  Every assertion of the tests of the ledger, the policy, the types, the service and the capabilities
  holds of the definitions here, in every environment, at every time, in every directory and on every
  host. This is a check of the translation; the properties of the program are in the other theories.
\<close>

lemma model_passes_unit_tests:
  "(detects_capacity_overflow \<and> ensure_within_tenant_quota_passes_when_no_quota_configured \<and>
    ensure_within_tenant_quota_rejects_over_quota \<and> can_reserve_for_tenant_respects_quota) \<and>
   (process_request_stays_stable now \<and> adaptive_linux_sandbox_falls_back now \<and> strict_linux_sandbox_rejects now \<and>
    control_context_can_enforce_strict_sandbox now) \<and>
   (validates_command_execution \<and> rejects_absolute_workspace_subdir \<and> default_policy_is_adaptive \<and>
    legacy_execution_plan_keeps_requested_sandbox) \<and>
   (minimal_env_keeps_common_keys_and_overrides environ \<and> status_response_reads_inline_output now temp \<and>
    infer_script_name_follows_interpreter) \<and>
   probe_returns_stable_shape host temp"
  using ledger_tests policy_tests types_tests runtime_tests capabilities_tests by blast

end
