(* ===== verification/Spec2Isabelle.thy ===== *)
theory Spec2Isabelle
  imports Entry Metrics Interleavings Task_Life Unit_Tests
begin

text \<open>
  A verification library of \<open>execgo-runtime\<close>, the data plane that runs tasks: it accepts
  tasks over HTTP, stores them in an SQLite database, starts one shim process per task within the
  capacity of the runtime and the quotas of the tenants, supervises the processes, and recovers its
  state after a restart. All modelled code is Rust under \<open>src/src/\<close>.

  \<^bold>\<open>The program and the theories.\<close> A task is submitted by a client
  (\<open>runtime.rs\<close>, the remote subcommands: theory \<open>Client\<close>) to the routes
  (\<open>server.rs\<close>: \<open>Server\<close>) of a service (\<open>RuntimeService\<close> in
  \<open>runtime.rs\<close>: \<open>Service\<close>) that was set up from its arguments
  (\<open>cli.rs\<close>, \<open>Settings::from_args\<close>: \<open>Settings\<close>) and from what it
  found out about its host (\<open>capabilities.rs\<close>: \<open>Capabilities\<close>). The request
  is validated (\<open>types.rs\<close>: \<open>Types\<close>), planned against the capabilities
  (\<open>policy.rs\<close>: \<open>Policy\<close>), checked against the ledger
  (\<open>ledger.rs\<close>: \<open>Ledger\<close>) and stored (\<open>repo.rs\<close>:
  \<open>Codec\<close>, \<open>Repo\<close>). The dispatcher (\<open>dispatch_once_sync\<close>:
  \<open>Dispatch\<close>) reserves resources and starts a shim, which starts the process of the task
  (\<open>spawn_task_process\<close> and its helpers: \<open>Workload\<close>, \<open>Shim\<close>),
  supervises it (\<open>supervise_wait\<close>: \<open>Shim\<close>) and stores its outcome. Status
  snapshots and task files are in \<open>Status\<close>, the decoding of their outputs in
  \<open>Utf8\<close>, the metrics text (\<open>metrics.rs\<close>) in \<open>Metrics\<close>, errors
  (\<open>error.rs\<close>) in \<open>Errors\<close>. \<open>Prelude\<close> holds results, saturating
  and parsed integers, strings and the ordered map. \<open>Entry\<close> holds \<open>run\<close> and
  \<open>main.rs\<close>, from what \<open>clap\<close> made of the arguments to the exit status of the
  process, panics included, and \<open>Unit_Tests\<close> the unit tests of the sources on the
  definitions of the model. These theories hold properties of the operations, each run from start to
  end: \<open>Repo_Inv\<close>, \<open>Repo_Ops\<close>, \<open>Repo_Effects\<close>,
  \<open>Repo_Queries\<close> and \<open>Lifecycle\<close> those of the database,
  \<open>Dispatch_Safety\<close> and \<open>Dispatch_Outcome\<close> those of the dispatcher,
  \<open>Supervision\<close> and \<open>Shim_Outcome\<close> those of the shim,
  \<open>Submission\<close>, \<open>Kill\<close> and \<open>Recovery\<close> those of the service, and
  \<open>Task_Life\<close> composes them: the life of a task from its submission to its outcome.

  \<^bold>\<open>The concurrent program.\<close> The server runs its requests and its loops
  concurrently, and each shim is a process of its own that works on the same database.
  \<open>Threads\<close> defines threads (programs of atomic actions on a shared state, run one action
  at a time) and invariants under interference. \<open>Programs\<close> writes every operation of the
  service, the dispatcher and the shim again as such a program, one action for a transaction or query
  of the database, an access to the files of a task or a signal; \<open>Sequential\<close> proves that
  each of them, run alone, is the operation of the theories above. The state \<open>system\<close> of
  \<open>Running_System\<close> is the machine (database, files, signals, started shims), the phase of
  the server (down, recovering, serving with a cycle of the dispatcher or between two) and the threads;
  its events start the server (\<open>run_server\<close>), a request, a cycle or a pass of the
  collector (\<open>gc_loop\<close>), let one thread do its next action, or end the server at any
  point. A shim or an escalation becomes a thread when it is spawned, and the shims survive the server.
  \<open>Guarantees\<close> says which operations of the database a thread may do,
  \<open>Accounts\<close> why the accounts that a cycle keeps in memory still cover what is reserved;
  \<open>System_Safety\<close> and \<open>Single_Start\<close> prove the safety of the running system
  over all its runs, and \<open>System_Runs\<close> and \<open>Interleavings\<close> hold concrete
  runs: the witnesses, and two runs that go wrong.

  \<^bold>\<open>How the state corresponds.\<close> The database is the record \<open>repo\<close>: the
  rows of both tables in their order of insertion, with the columns as SQL stores them (texts of
  enumerations, signed 64-bit integers, JSON texts that may be malformed), and the counter of
  \<open>AUTOINCREMENT\<close>. A statement is an edit of the rows its \<open>WHERE\<close> clause
  selects; a transaction keeps nothing when it fails. A \<open>world\<close> adds the files of the
  tasks, by path. Machine integers are words, and the saturating operations of the code are written
  out. Every operation takes the state and returns the new one with a result, \<open>Inl\<close> an
  \<open>AppError\<close> or \<open>Inr\<close> a value, so that each early return is a branch. What
  the program cannot decide is an argument: clock readings (one function per operation, by the number
  of the reading), faults of the file system by path, the answers of \<open>spawn\<close>,
  \<open>fork\<close>, system calls, \<open>wait4\<close>, \<open>kill\<close> and
  \<open>current_exe\<close>, generated identifiers, the parser of the command line, the listener, and
  the HTTP and JSON libraries of the client, with the time each request and each sleep takes. The
  system calls of a child and the signals that are sent are lists. The supervision loop runs over a
  list of events: ticks of its timer, the end of the wait, and operations of other processes on the
  database.

  \<^bold>\<open>What the lemmas show.\<close>
  \<^item> Database: an invariant of every history of operations, in any order and with any arguments;
    the event stream is append-only; queries never fail on stored data and select, order and count
    exactly; a statement-level relation (\<open>stmt\<close>) reduces each of these to its statements.
  \<^item> Refinement: \<open>Lifecycle\<close> states what a task is to its clients, an automaton over
    its status, its two flags and its reservation, and proves that every history of the database
    implements it.
  \<^item> Resources: the checks in saturating 64-bit arithmetic are exact in natural numbers; a cycle
    of the dispatcher never exceeds the capacity or a quota, and a task that was accepted by an idle
    runtime is started by the next cycle.
  \<^item> Isolation: plans ask for nothing unsupported, the system calls of a child neither; the
    switches of the operator reach them.
  \<^item> Processes: the order of signals, the end of an overdue process, the outcome of every run of
    the shim, that a kill of a task without a process yet is kept, and the environment the process of a
    task gets.
  \<^item> Service: the outcome of a submission, of a kill, of a recovery and of garbage collection on
    every branch, each with what it leaves alone; uniform answers over HTTP, with the one exception of
    the metrics when the database fails; waiting ends in time while the server answers, and truthfully.
  \<^item> Running system: however the threads are interleaved and whenever the server stops, the
    database has a history of its operations, so that what is proved of histories holds of it; while a
    server serves, the capacity and the quotas hold and no task is started twice.
  \<^item> Entry: status 0 says that the server answered with success (for \<open>wait\<close> and
    \<open>run\<close> that the task is over, in whatever status), for the shim that its task is over;
    each other status is explained.
  \<^item> A few closed theorems show where the code does not do what it means to; they are described
    where they stand (a late reservation, a stranded task, a process that outlives the error of its
    cgroup, an owner that locks its task, a task that lives in the data directory, a shim started twice
    because of a crash, a queue that two concurrent submissions fill past its bound). The last two are
    runs of the system, with what happens in them.

  \<^bold>\<open>Interfaces.\<close> The locales \<open>op_system\<close>, \<open>monotone_ops\<close>
  and \<open>refined_ops\<close> (systems of operations, relations they follow, and abstractions they
  commute with), \<open>codec\<close> and \<open>strict_codec\<close> (columns), \<open>map_adt\<close>
  (the ordered map), \<open>row_edit\<close> and \<open>context_edit\<close> (\<open>SET\<close>
  clauses), \<open>admission\<close>, \<open>revocable_admission\<close> and
  \<open>covering_admission\<close> (the accounts of the ledger and the dispatcher),
  \<open>task_sweep\<close> (a pass over listed tasks), \<open>part\<close> (the part of the shared
  state a thread works on, with what it keeps for itself) and \<open>interference\<close> (an invariant
  that the actions of the other threads keep) are each interpreted on the model.

  \<^bold>\<open>Termination.\<close> All definitions are total. Loops that the code may run for ever
  are runs over the events they react to (\<open>supervise_wait\<close>, \<open>poll_loop\<close>,
  \<open>wait_for_pid\<close>), with \<open>None\<close> for still running; the properties that they
  end name the event that ends them, for \<open>poll_loop\<close> as many answers as intervals fit in
  the timeout and one more. No fuel is used.

  \<^bold>\<open>Not modelled.\<close> Serialisation (\<open>serde\<close>), so that a stored JSON text
  is its value or malformed; the opening of the database, its mutex and its pragmas; the declarations
  of \<open>clap\<close>; logging; running out of memory; the lengths of the intervals of the
  background loops, whose passes start at any moment; several servers on one data directory at a time;
  \<open>axum\<close> beyond the table of routes; the end-to-end tests of \<open>tests/\<close>; the
  builds for other systems than Linux. Texts are their bytes: outputs are decoded with replacement
  characters as \<open>from_utf8_lossy\<close> does, all other texts are taken to be valid UTF-8, and
  white space and letters are those of ASCII. The shim opens the database anew, which may fail only in
  \<open>Entry\<close>. Paths are texts, joined as on Unix, and a file whose directory could be created
  can be created in it unless its own path is at fault.
\<close>

end
